(* ===== verification/Op_Prelude.thy ===== *)
theory Op_Prelude
  imports
    Main
    "HOL-Library.Word"
    "HOL-Library.State_Monad"
    "HOL-Library.Char_ord"
    "HOL-Library.List_Lexorder"
    "HOL-Library.AList"
begin

text \<open>
  Shared vocabulary of the development: Go's machine integers, panics as values, the
  weakest-precondition calculus for effectful Go functions (state transformers of
  HOL-Library.State_Monad), and Go's \<open>map[string]string\<close> as an association list whose
  order is one iteration order of the map. Every component theory imports this one.
\<close>

section \<open>Collections of facts\<close>

named_theorems wp_simps \<open>equations that push a weakest precondition through a program\<close>
named_theorems gomap_simps \<open>lookup equations of Go maps\<close>

section \<open>Machine integers\<close>

type_synonym int32 = "32 word"
type_synonym int64 = "64 word"

text \<open>\<open>time.Duration\<close> is an \<open>int64\<close> count of nanoseconds.\<close>

type_synonym duration = int64

text \<open>A Unix time stamp, as \<open>metav1.Time\<close> carries it; the code never computes with it.\<close>

type_synonym time = int

abbreviation second :: int where "second \<equiv> 1000000000"
abbreviation minute :: int where "minute \<equiv> 60 * second"
abbreviation hour :: int where "hour \<equiv> 60 * minute"

abbreviation duration_of :: "int \<Rightarrow> duration" where "duration_of \<equiv> word_of_int"

lemma sint_word_of_int_64:
  "- (2 ^ 63) \<le> i \<Longrightarrow> i < 2 ^ 63 \<Longrightarrow> sint (word_of_int i :: int64) = i"
  by (simp add: sint_word_ariths(1) word_of_int_inverse signed_take_bit_int_eq_self sint_sbintrunc')

lemma sint_word_of_int_32:
  "- (2 ^ 31) \<le> i \<Longrightarrow> i < 2 ^ 31 \<Longrightarrow> sint (word_of_int i :: int32) = i"
  by (simp add: sint_sbintrunc' signed_take_bit_int_eq_self)

lemma sint_range_64: "- (2 ^ 63) \<le> sint (w :: int64) \<and> sint w < 2 ^ 63"
  using sint_range_size [of w] by (simp add: word_size)

lemma sint_range_32: "- (2 ^ 31) \<le> sint (w :: int32) \<and> sint w < 2 ^ 31"
  using sint_range_size [of w] by (simp add: word_size)

section \<open>Panics\<close>

text \<open>
  A Go function that can panic returns an \<open>outcome\<close>: its ordinary value, or the panic
  with its message.
\<close>

datatype 'a outcome = Ret 'a | Panic string

fun bind_outcome :: "'a outcome \<Rightarrow> ('a \<Rightarrow> 'b outcome) \<Rightarrow> 'b outcome" where
  "bind_outcome (Ret a) f = f a"
| "bind_outcome (Panic msg) f = Panic msg"

lemma bind_outcome_Ret_iff:
  "bind_outcome m f = Ret b \<longleftrightarrow> (\<exists>a. m = Ret a \<and> f a = Ret b)"
  by (cases m) auto

lemma bind_outcome_split:
  "P (bind_outcome m f) \<longleftrightarrow> (\<forall>a. m = Ret a \<longrightarrow> P (f a)) \<and> (\<forall>msg. m = Panic msg \<longrightarrow> P (Panic msg))"
  by (cases m) auto

section \<open>Weakest preconditions\<close>

definition wp :: "('s, 'a) state \<Rightarrow> ('a \<Rightarrow> 's \<Rightarrow> bool) \<Rightarrow> 's \<Rightarrow> bool" where
  "wp m Q s = (case run_state m s of (a, s') \<Rightarrow> Q a s')"

lemma wp_return [wp_simps]: "wp (State_Monad.return a) Q s = Q a s"
  by (simp add: wp_def)

lemma wp_bind [wp_simps]: "wp (State_Monad.bind m f) Q s = wp m (\<lambda>a. wp (f a) Q) s"
  by (simp add: wp_def split: prod.splits)

lemma wp_State [wp_simps]: "wp (State f) Q s = (case f s of (a, s') \<Rightarrow> Q a s')"
  by (simp add: wp_def)

lemma wp_if [wp_simps]: "wp (if b then m else n) Q s = (if b then wp m Q s else wp n Q s)"
  by simp

lemma wp_case_option [wp_simps]:
  "wp (case x of None \<Rightarrow> m | Some a \<Rightarrow> f a) Q s
   = (case x of None \<Rightarrow> wp m Q s | Some a \<Rightarrow> wp (f a) Q s)"
  by (cases x) auto

lemma wp_case_sum [wp_simps]:
  "wp (case x of Inl e \<Rightarrow> f e | Inr a \<Rightarrow> g a) Q s
   = (case x of Inl e \<Rightarrow> wp (f e) Q s | Inr a \<Rightarrow> wp (g a) Q s)"
  by (cases x) auto

lemma wp_case_prod [wp_simps]:
  "wp (case x of (a, b) \<Rightarrow> f a b) Q s = (case x of (a, b) \<Rightarrow> wp (f a b) Q s)"
  by (cases x) auto

lemma wp_case_outcome [wp_simps]:
  "wp (case x of Ret a \<Rightarrow> f a | Panic msg \<Rightarrow> g msg) Q s
   = (case x of Ret a \<Rightarrow> wp (f a) Q s | Panic msg \<Rightarrow> wp (g msg) Q s)"
  by (cases x) auto

lemma wp_case_list [wp_simps]:
  "wp (case x of [] \<Rightarrow> m | a # as \<Rightarrow> f a as) Q s
   = (case x of [] \<Rightarrow> wp m Q s | a # as \<Rightarrow> wp (f a as) Q s)"
  by (cases x) auto

lemma wp_Let [wp_simps]: "wp (let x = a in f x) Q s = (let x = a in wp (f x) Q s)"
  by (simp add: Let_def)

lemma wp_mono: "wp m Q s \<Longrightarrow> (\<And>a s'. Q a s' \<Longrightarrow> R a s') \<Longrightarrow> wp m R s"
  by (simp add: wp_def split: prod.splits)

lemma wp_conj: "wp m Q s \<Longrightarrow> wp m R s \<Longrightarrow> wp m (\<lambda>a s'. Q a s' \<and> R a s') s"
  by (simp add: wp_def split: prod.splits)

lemma wp_run: "wp m Q s \<Longrightarrow> run_state m s = (a, s') \<Longrightarrow> Q a s'"
  by (simp add: wp_def)

lemma wpI: "(\<And>a s'. run_state m s = (a, s') \<Longrightarrow> Q a s') \<Longrightarrow> wp m Q s"
  by (simp add: wp_def split: prod.splits)

lemma wp_weaken_bind:
  "wp m R s \<Longrightarrow> (\<And>a s'. R a s' \<Longrightarrow> wp (f a) Q s') \<Longrightarrow> wp (State_Monad.bind m f) Q s"
  by (simp add: wp_bind) (rule wp_mono)

section \<open>Go maps from strings to strings\<close>

text \<open>
  A Go map is an association list with distinct keys; its order is one order in which a
  \<open>range\<close> loop may visit the entries. Assignment \<open>m[k] = v\<close> is \<open>put\<close>.
\<close>

type_synonym gomap = "(string \<times> string) list"

definition put :: "string \<Rightarrow> string \<Rightarrow> gomap \<Rightarrow> gomap" where
  "put k v m = AList.update k v m"

definition wf_map :: "('k \<times> 'v) list \<Rightarrow> bool" where
  "wf_map m \<longleftrightarrow> distinct (map fst m)"

lemma put_lookup [gomap_simps]: "map_of (put k v m) = (map_of m)(k \<mapsto> v)"
  by (simp add: put_def update_conv')

lemma put_keys [gomap_simps]: "fst ` set (put k v m) = insert k (fst ` set m)"
  by (simp add: put_def dom_update)

lemma wf_map_Nil [simp]: "wf_map []"
  by (simp add: wf_map_def)

lemma wf_map_put [simp]: "wf_map m \<Longrightarrow> wf_map (put k v m)"
  by (simp add: wf_map_def put_def distinct_update)

lemma wf_map_Cons: "wf_map ((k, v) # m) \<longleftrightarrow> k \<notin> fst ` set m \<and> wf_map m"
  by (auto simp: wf_map_def)

lemma wf_map_perm_lookup:
  "wf_map m \<Longrightarrow> wf_map m' \<Longrightarrow> set m = set m' \<Longrightarrow> map_of m = map_of m'"
  unfolding wf_map_def by (rule map_of_inject_set [THEN iffD2])

lemma wf_map_set_eq_iff:
  assumes "wf_map m" "wf_map m'"
  shows "map_of m = map_of m' \<longleftrightarrow> set m = set m'"
  using assms unfolding wf_map_def by (rule map_of_inject_set)

section \<open>Lists\<close>

lemma sorted_last_greatest:
  assumes "sorted xs" "xs \<noteq> []"
  shows "last xs \<in> set xs \<and> (\<forall>x \<in> set xs. x \<le> last xs)"
proof -
  from assms(2) have split: "xs = butlast xs @ [last xs]" by simp
  then have "sorted (butlast xs @ [last xs])" using assms(1) by simp
  then have "\<forall>x \<in> set (butlast xs). x \<le> last xs" by (simp add: sorted_append)
  with split show ?thesis by (metis Un_iff assms(2) last_in_set order_refl set_ConsD set_append
      empty_iff list.set(1))
qed

end
