(* ===== verification/Go_Text.thy ===== *)
theory Go_Text
  imports Op_Prelude
begin

text \<open>
  The parts of Go's standard library that build and take apart strings, as the source uses
  them: number formatting (\<open>%d\<close>, \<open>%x\<close>, \<open>strconv.Itoa\<close>), quoting (\<open>%q\<close>),
  \<open>strings.Join\<close>, \<open>strings.ReplaceAll\<close> with a one-byte pattern, \<open>strings.SplitN\<close> with
  limit 2, and \<open>encoding/hex\<close>. A Go string is a sequence of bytes, a \<^typ>\<open>string\<close> of
  HOL one of 8-bit characters, so \<open>len\<close> is \<^const>\<open>length\<close>.
\<close>

section \<open>Numbers\<close>

definition digit_char :: "nat \<Rightarrow> char" where
  "digit_char d = (if d < 10 then char_of (48 + d) else char_of (87 + d))"

lemma digit_char_table [simp]:
  "digit_char 0 = CHR ''0''"
  "digit_char (Suc 0) = CHR ''1''"
  "digit_char 2 = CHR ''2''"
  "digit_char 3 = CHR ''3''"
  "digit_char 4 = CHR ''4''"
  "digit_char 5 = CHR ''5''"
  "digit_char 6 = CHR ''6''"
  "digit_char 7 = CHR ''7''"
  "digit_char 8 = CHR ''8''"
  "digit_char 9 = CHR ''9''"
  "digit_char 10 = CHR ''a''"
  "digit_char 11 = CHR ''b''"
  "digit_char 12 = CHR ''c''"
  "digit_char 13 = CHR ''d''"
  "digit_char 14 = CHR ''e''"
  "digit_char 15 = CHR ''f''"
  by code_simp+

function radix :: "nat \<Rightarrow> nat \<Rightarrow> string" where
  "radix b n = (if b < 2 \<or> n < b then [digit_char n] else radix b (n div b) @ [digit_char (n mod b)])"
  by pat_completeness auto
termination
  by (relation "measure snd") auto

declare radix.simps [simp del]

lemma radix_small: "n < b \<Longrightarrow> radix b n = [digit_char n]"
  by (subst radix.simps) simp

lemma radix_step:
  "2 \<le> b \<Longrightarrow> b \<le> n \<Longrightarrow> radix b n = radix b (n div b) @ [digit_char (n mod b)]"
  by (subst radix.simps) simp

definition dec_nat :: "nat \<Rightarrow> string" where
  "dec_nat n = radix 10 n"

text \<open>\<open>%d\<close>, \<open>strconv.Itoa\<close> and \<open>strconv.FormatInt(_, 10)\<close>.\<close>

definition dec_int :: "int \<Rightarrow> string" where
  "dec_int i = (if i < 0 then ''-'' @ dec_nat (nat (- i)) else dec_nat (nat i))"

text \<open>\<open>%x\<close> of an unsigned integer: lower-case hexadecimal, no padding.\<close>

definition hex_nat :: "nat \<Rightarrow> string" where
  "hex_nat n = radix 16 n"

text \<open>The number of digits: at most \<open>k\<close> exactly when the number is below \<open>b ^ k\<close>.\<close>

lemma radix_length_pos: "0 < length (radix b n)"
  by (subst radix.simps) simp

lemma radix_length_le_iff:
  assumes "2 \<le> b" "0 < k"
  shows "length (radix b n) \<le> k \<longleftrightarrow> n < b ^ k"
  using assms(2)
proof (induction k arbitrary: n rule: nat_induct_non_zero)
  case 1
  show ?case
  proof (cases "n < b")
    case True
    then show ?thesis by (simp add: radix_small)
  next
    case False
    then show ?thesis using assms(1) radix_length_pos [of b "n div b"]
      by (simp add: radix_step)
  qed
next
  case (Suc k)
  show ?case
  proof (cases "n < b")
    case True
    then have "n < b ^ Suc k" using assms(1)
      by (metis less_le_trans mult.right_neutral mult_le_mono2 one_le_numeral one_le_power power_Suc
          order_trans)
    with True show ?thesis by (simp add: radix_small)
  next
    case False
    have "n div b < b ^ k \<longleftrightarrow> n < b ^ Suc k" using assms(1)
      by (simp add: div_less_iff_less_mult mult.commute)
    with False Suc.IH [of "n div b"] assms(1) show ?thesis by (simp add: radix_step)
  qed
qed

lemma hex_nat_length_less_iff: "length (hex_nat n) < 8 \<longleftrightarrow> n < 2 ^ 28"
proof -
  have "length (radix 16 n) \<le> 7 \<longleftrightarrow> n < 16 ^ 7" by (rule radix_length_le_iff) simp_all
  then show ?thesis by (auto simp: hex_nat_def)
qed

text \<open>Reading the digits back: \<open>radix\<close> is the positional representation.\<close>

definition digit_val :: "char \<Rightarrow> nat" where
  "digit_val c = (let n = of_char c in if n < 58 then n - 48 else n - 87)"

definition radix_val :: "nat \<Rightarrow> string \<Rightarrow> nat" where
  "radix_val b s = foldl (\<lambda>acc c. acc * b + digit_val c) 0 s"

lemma digit_val_char: "d < 16 \<Longrightarrow> digit_val (digit_char d) = d"
  by (auto simp: digit_val_def digit_char_def of_char_of Let_def take_bit_eq_mod)

lemma radix_val_radix: "2 \<le> b \<Longrightarrow> b \<le> 16 \<Longrightarrow> radix_val b (radix b n) = n"
proof (induction b n rule: radix.induct)
  case (1 b n)
  show ?case
  proof (cases "n < b")
    case True
    with "1.prems" show ?thesis by (simp add: radix_small radix_val_def digit_val_char)
  next
    case False
    then have "radix_val b (radix b (n div b)) = n div b"
      using "1.IH" "1.prems" by simp
    moreover have "n mod b < b" using "1.prems" by simp
    then have "n mod b < 16" using "1.prems" by linarith
    ultimately show ?thesis using False "1.prems"
      by (simp add: radix_step radix_val_def digit_val_char)
  qed
qed

lemma dec_nat_inject: "dec_nat m = dec_nat n \<longleftrightarrow> m = n"
proof
  assume "dec_nat m = dec_nat n"
  then have "radix_val 10 (radix 10 m) = radix_val 10 (radix 10 n)" by (simp add: dec_nat_def)
  then show "m = n" by (simp add: radix_val_radix)
qed simp

section \<open>Hexadecimal encoding of bytes\<close>

definition hex_byte :: "8 word \<Rightarrow> string" where
  "hex_byte w = [digit_char (unat w div 16), digit_char (unat w mod 16)]"

text \<open>\<open>hex.EncodeToString\<close>.\<close>

definition EncodeToString :: "8 word list \<Rightarrow> string" where
  "EncodeToString bs = concat (map hex_byte bs)"

lemma EncodeToString_length [simp]: "length (EncodeToString bs) = 2 * length bs"
  by (induction bs) (auto simp: EncodeToString_def hex_byte_def)

section \<open>Splitting, joining, replacing\<close>

text \<open>\<open>strings.Join\<close>.\<close>

fun Join :: "string list \<Rightarrow> string \<Rightarrow> string" where
  "Join [] sep = []"
| "Join [s] sep = s"
| "Join (s # t # ss) sep = s @ sep @ Join (t # ss) sep"

text \<open>\<open>strings.ReplaceAll\<close> where the replaced text is one byte.\<close>

definition ReplaceAll :: "string \<Rightarrow> char \<Rightarrow> string \<Rightarrow> string" where
  "ReplaceAll s c r = concat (map (\<lambda>x. if x = c then r else [x]) s)"

lemma ReplaceAll_Nil [simp]: "ReplaceAll [] c r = []"
  by (simp add: ReplaceAll_def)

lemma ReplaceAll_Cons: "ReplaceAll (x # s) c r = (if x = c then r else [x]) @ ReplaceAll s c r"
  by (simp add: ReplaceAll_def)

lemma ReplaceAll_append: "ReplaceAll (s @ t) c r = ReplaceAll s c r @ ReplaceAll t c r"
  by (simp add: ReplaceAll_def)

text \<open>
  \<open>strings.SplitN(s, sep, 2)\<close> for a one-byte separator: the parts around its first
  occurrence, or the whole string.
\<close>

definition SplitN2 :: "string \<Rightarrow> char \<Rightarrow> string list" where
  "SplitN2 s c =
     (case dropWhile (\<lambda>x. x \<noteq> c) s of
        [] \<Rightarrow> [s]
      | _ # rest \<Rightarrow> [takeWhile (\<lambda>x. x \<noteq> c) s, rest])"

lemma SplitN2_first: "c \<notin> set a \<Longrightarrow> SplitN2 (a @ c # b) c = [a, b]"
proof -
  assume "c \<notin> set a"
  then have "\<forall>x \<in> set a. x \<noteq> c" by blast
  then show ?thesis by (simp add: SplitN2_def takeWhile_append2 dropWhile_append2)
qed

text \<open>\<open>strings.Split\<close> for a one-byte separator: the parts between its occurrences, at least one.\<close>

fun Split :: "string \<Rightarrow> char \<Rightarrow> string list" where
  "Split [] c = [[]]"
| "Split (x # s) c = (if x = c then [] # Split s c else (x # hd (Split s c)) # tl (Split s c))"

lemma Split_not_Nil [simp]: "Split s c \<noteq> []"
  by (cases s) auto

lemma Join_Cons: "ps \<noteq> [] \<Longrightarrow> Join (p # ps) sep = p @ sep @ Join ps sep"
  by (cases ps) auto

lemma Join_Split: "Join (Split s c) [c] = s"
proof (induction s)
  case (Cons x s)
  obtain p ps where "Split s c = p # ps" by (cases "Split s c") auto
  with Cons show ?case by (cases "ps = []") (auto simp: Join_Cons)
qed simp

lemma Split_inject: "Split s c = Split t c \<longleftrightarrow> s = t"
  by (metis Join_Split)

section \<open>Slicing\<close>

text \<open>\<open>s[:n]\<close>: a Go slice expression panics beyond the length of the string.\<close>

definition slice_to :: "string \<Rightarrow> nat \<Rightarrow> string outcome" where
  "slice_to s n =
     (if n \<le> length s then Ret (take n s)
      else Panic (''slice bounds out of range [:'' @ dec_nat n @ ''] with length '' @ dec_nat (length s)))"

section \<open>Quoting\<close>

text \<open>
  \<open>%q\<close> (\<open>strconv.Quote\<close>) on ASCII: the quote and the backslash are escaped, the
  control characters get their mnemonic or a \<open>\x\<close> escape. Bytes from 128 on are copied,
  which is what Go does for the UTF-8 encoding of a printable character.
\<close>

definition quote_char :: "char \<Rightarrow> string" where
  "quote_char c =
     (let n = (of_char c :: nat) in
      if n = 34 then [char_of (92 :: nat), c]
      else if n = 92 then [c, c]
      else if n = 7 then [char_of (92 :: nat), CHR ''a'']
      else if n = 8 then [char_of (92 :: nat), CHR ''b'']
      else if n = 12 then [char_of (92 :: nat), CHR ''f'']
      else if n = 10 then [char_of (92 :: nat), CHR ''n'']
      else if n = 13 then [char_of (92 :: nat), CHR ''r'']
      else if n = 9 then [char_of (92 :: nat), CHR ''t'']
      else if n = 11 then [char_of (92 :: nat), CHR ''v'']
      else if n < 32 \<or> n = 127 then
        [char_of (92 :: nat), CHR ''x'', digit_char (n div 16), digit_char (n mod 16)]
      else [c])"

definition Quote :: "string \<Rightarrow> string" where
  "Quote s = [char_of (34 :: nat)] @ concat (map quote_char s) @ [char_of (34 :: nat)]"

end
