(* ===== verification/Go_Float.thy ===== *)
theory Go_Float
  imports Go_Text
begin

text \<open>
  \<open>strconv.FormatFloat(v, 'f', -1, 64)\<close>, which \<open>flattenValue\<close> uses for numbers: the
  shortest decimal that reads back as \<open>v\<close>, written without an exponent. A \<open>float64\<close> is
  its 64 bits. The digits are found by exact integer arithmetic: the neighbours of \<open>v\<close>
  bound an interval of decimals that round to \<open>v\<close>, and the search goes from coarse to
  fine powers of ten until the interval holds a multiple.
\<close>

section \<open>Reading the bits\<close>

type_synonym float64 = "64 word"

definition f64_negative :: "float64 \<Rightarrow> bool" where
  "f64_negative w = (2 ^ 63 \<le> unat w)"

definition f64_exponent :: "float64 \<Rightarrow> nat" where
  "f64_exponent w = (unat w div 2 ^ 52) mod 2048"

definition f64_fraction :: "float64 \<Rightarrow> nat" where
  "f64_fraction w = unat w mod 2 ^ 52"

text \<open>The value is \<open>mantissa * 2 ^ f64_scale\<close>.\<close>

definition f64_mantissa :: "float64 \<Rightarrow> nat" where
  "f64_mantissa w = (if f64_exponent w = 0 then f64_fraction w else f64_fraction w + 2 ^ 52)"

definition f64_scale :: "float64 \<Rightarrow> int" where
  "f64_scale w = (if f64_exponent w = 0 then - 1074 else int (f64_exponent w) - 1075)"

text \<open>
  The value and the bounds of its rounding interval, in quarters of the last place, as
  fractions with one denominator \<open>f64_den\<close>.
\<close>

definition f64_num :: "float64 \<Rightarrow> nat \<Rightarrow> nat" where
  "f64_num w n = n * 2 ^ nat (f64_scale w - 2)"

definition f64_den :: "float64 \<Rightarrow> nat" where
  "f64_den w = 2 ^ nat (2 - f64_scale w)"

definition f64_lo :: "float64 \<Rightarrow> nat" where
  "f64_lo w = f64_num w (4 * f64_mantissa w -
     (if f64_fraction w = 0 \<and> 1 < f64_exponent w then 1 else 2))"

definition f64_mid :: "float64 \<Rightarrow> nat" where
  "f64_mid w = f64_num w (4 * f64_mantissa w)"

definition f64_hi :: "float64 \<Rightarrow> nat" where
  "f64_hi w = f64_num w (4 * f64_mantissa w + 2)"

section \<open>The shortest digits\<close>

text \<open>
  \<open>pick_digits w k\<close> is the multiple \<open>q\<close> of \<open>10 ^ k\<close> that prints \<open>w\<close>, if the rounding
  interval holds one next to the value: the value itself, else the nearer of its two
  neighbours (ties to even) when both lie inside, else the one that does.
\<close>

definition pick_digits :: "float64 \<Rightarrow> int \<Rightarrow> nat option" where
  "pick_digits w k =
     (let up = 10 ^ nat (- k); unit = 10 ^ nat k * f64_den w;
          mid = f64_mid w * up; q = mid div unit; r = mid mod unit;
          inclusive = even (f64_mantissa w);
          okdown = (if inclusive then f64_lo w * up \<le> q * unit else f64_lo w * up < q * unit);
          okup = (if inclusive then Suc q * unit \<le> f64_hi w * up else Suc q * unit < f64_hi w * up)
      in if r = 0 then Some q
         else if okdown \<and> okup then
           Some (if 2 * r < unit then q else if unit < 2 * r then Suc q
                 else if even q then q else Suc q)
         else if okdown then Some q
         else if okup then Some (Suc q)
         else None)"

text \<open>
  The search over \<open>k\<close>, downwards. Its last power of ten divides the value exactly, so the
  fuel is enough: see \<open>pick_digits_exact\<close>.
\<close>

fun shortest :: "nat \<Rightarrow> float64 \<Rightarrow> int \<Rightarrow> nat \<times> int" where
  "shortest 0 w k = (the (pick_digits w k), k)"
| "shortest (Suc fuel) w k =
     (case pick_digits w k of Some q \<Rightarrow> (q, k) | None \<Rightarrow> shortest fuel w (k - 1))"

definition start_power :: "float64 \<Rightarrow> int" where
  "start_power w = int (length (dec_nat (f64_hi w div f64_den w)))"

definition last_power :: "float64 \<Rightarrow> int" where
  "last_power w = min 0 (f64_scale w - 2)"

definition f64_digits :: "float64 \<Rightarrow> nat \<times> int" where
  "f64_digits w = shortest (nat (start_power w - last_power w)) w (start_power w)"

definition pad_zeros :: "nat \<Rightarrow> string \<Rightarrow> string" where
  "pad_zeros n s = replicate (n - length s) (CHR ''0'') @ s"

fun fixed_notation :: "nat \<times> int \<Rightarrow> string" where
  "fixed_notation (q, k) =
     (if 0 \<le> k then dec_nat q @ replicate (nat k) (CHR ''0'')
      else dec_nat (q div 10 ^ nat (- k)) @ ''.'' @ pad_zeros (nat (- k)) (dec_nat (q mod 10 ^ nat (- k))))"

definition FormatFloat :: "float64 \<Rightarrow> string" where
  "FormatFloat w =
     (if f64_exponent w = 2047 then
        (if f64_fraction w \<noteq> 0 then ''NaN'' else if f64_negative w then ''-Inf'' else ''+Inf'')
      else (if f64_negative w then ''-'' else '''') @
        (if f64_mantissa w = 0 then ''0'' else fixed_notation (f64_digits w)))"

section \<open>The search ends\<close>

lemma f64_den_pos: "0 < f64_den w"
  by (simp add: f64_den_def)

lemma pick_digits_dvd:
  "10 ^ nat k * f64_den w dvd f64_mid w * 10 ^ nat (- k) \<Longrightarrow>
   pick_digits w k = Some (f64_mid w * 10 ^ nat (- k) div (10 ^ nat k * f64_den w))"
  by (auto simp: pick_digits_def Let_def)

lemma pick_digits_exact: "\<exists>q. pick_digits w (last_power w) = Some q"
proof (cases "f64_scale w \<le> 2")
  case True
  define n where "n = nat (2 - f64_scale w)"
  have k: "nat (last_power w) = 0" "nat (- last_power w) = n" "f64_den w = 2 ^ n"
    using True by (auto simp: last_power_def n_def f64_den_def)
  have "(2::nat) ^ n dvd 10 ^ n" by (rule dvd_power_same) simp
  then have "10 ^ nat (last_power w) * f64_den w dvd f64_mid w * 10 ^ nat (- last_power w)"
    unfolding k by (simp add: dvd_mult)
  from pick_digits_dvd [OF this] show ?thesis by blast
next
  case False
  then have "f64_den w = 1" "last_power w = 0" by (auto simp: f64_den_def last_power_def)
  then have "10 ^ nat (last_power w) * f64_den w dvd f64_mid w * 10 ^ nat (- last_power w)" by simp
  from pick_digits_dvd [OF this] show ?thesis by blast
qed

text \<open>
  What the search returns was picked at its power of ten, and nothing was picked at a
  coarser one.
\<close>

lemma shortest_picked:
  assumes "pick_digits w (k - int fuel) \<noteq> None"
  shows "(case shortest fuel w k of (q, j) \<Rightarrow> pick_digits w j = Some q \<and> k - int fuel \<le> j \<and> j \<le> k \<and>
           (\<forall>i. j < i \<longrightarrow> i \<le> k \<longrightarrow> pick_digits w i = None))"
  using assms
proof (induction fuel arbitrary: k)
  case 0
  then show ?case by auto
next
  case (Suc fuel)
  show ?case
  proof (cases "pick_digits w k")
    case None
    have "pick_digits w (k - 1 - int fuel) \<noteq> None" using Suc.prems by (simp add: algebra_simps)
    from Suc.IH [OF this] None show ?thesis
      by (auto split: prod.splits)
  qed auto
qed

lemma last_le_start: "last_power w \<le> start_power w"
  by (simp add: last_power_def start_power_def)

lemma f64_digits_picked:
  "(case f64_digits w of (q, j) \<Rightarrow> pick_digits w j = Some q \<and> last_power w \<le> j \<and> j \<le> start_power w \<and>
      (\<forall>i. j < i \<longrightarrow> i \<le> start_power w \<longrightarrow> pick_digits w i = None))"
proof -
  let ?fuel = "nat (start_power w - last_power w)"
  have fuel: "start_power w - int ?fuel = last_power w" using last_le_start [of w] by simp
  then have "pick_digits w (start_power w - int ?fuel) \<noteq> None" using pick_digits_exact [of w] by auto
  from shortest_picked [OF this] show ?thesis unfolding f64_digits_def fuel .
qed

section \<open>What is printed lies in the rounding interval\<close>

text \<open>
  The decimal \<open>q * 10 ^ k\<close> lies between the bounds of the interval of \<open>w\<close>, so reading it
  back rounds to \<open>w\<close> again.
\<close>

definition in_interval :: "float64 \<Rightarrow> nat \<Rightarrow> int \<Rightarrow> bool" where
  "in_interval w q k \<longleftrightarrow>
     f64_lo w * 10 ^ nat (- k) \<le> q * (10 ^ nat k * f64_den w) \<and>
     q * (10 ^ nat k * f64_den w) \<le> f64_hi w * 10 ^ nat (- k)"

lemma f64_lo_le_mid: "f64_lo w \<le> f64_mid w" and f64_mid_le_hi: "f64_mid w \<le> f64_hi w"
  by (auto simp: f64_lo_def f64_mid_def f64_hi_def f64_num_def)

lemma pick_digits_in_interval:
  assumes "pick_digits w k = Some q"
  shows "in_interval w q k"
proof -
  define lo where "lo = f64_lo w * 10 ^ nat (- k)"
  define mid where "mid = f64_mid w * 10 ^ nat (- k)"
  define hi where "hi = f64_hi w * 10 ^ nat (- k)"
  define unit where "unit = 10 ^ nat k * f64_den w"
  define d where "d = mid div unit"
  have bounds: "lo \<le> mid" "mid \<le> hi"
    by (simp_all add: lo_def mid_def hi_def f64_lo_le_mid f64_mid_le_hi)
  have unit: "0 < unit" by (simp add: unit_def f64_den_pos)
  have below: "d * unit \<le> mid" unfolding d_def by simp
  have above: "mid \<le> Suc d * unit" unfolding d_def
    using unit by (metis dividend_less_div_times less_imp_le mult_Suc)
  have "(q = d \<and> mid = d * unit) \<or> (q = d \<and> lo \<le> d * unit) \<or> (q = Suc d \<and> Suc d * unit \<le> hi)"
    using assms
    unfolding pick_digits_def Let_def lo_def [symmetric] mid_def [symmetric] hi_def [symmetric]
      unit_def [symmetric] d_def [symmetric]
    by (auto split: if_splits simp: d_def)
  then have "lo \<le> q * unit \<and> q * unit \<le> hi"
    using bounds below above by (elim disjE conjE) simp_all
  then show ?thesis unfolding in_interval_def lo_def hi_def unit_def .
qed

lemma f64_digits_in_interval: "f64_digits w = (q, k) \<Longrightarrow> in_interval w q k"
  using f64_digits_picked [of w] by (auto intro: pick_digits_in_interval)

section \<open>Integers print as integers\<close>

lemma radix_append_zero: "2 \<le> b \<Longrightarrow> 0 < q \<Longrightarrow> radix b (q * b) = radix b q @ [digit_char 0]"
  by (simp add: radix_step)

lemma dec_nat_shift: "0 < q \<Longrightarrow> dec_nat q @ replicate n (CHR ''0'') = dec_nat (q * 10 ^ n)"
proof (induction n)
  case 0
  then show ?case by simp
next
  case (Suc n)
  have zero: "digit_char 0 = CHR ''0''" by (rule digit_char_table)
  have "dec_nat (q * 10 ^ n * 10) = dec_nat (q * 10 ^ n) @ [CHR ''0'']"
    using Suc.prems by (simp only: dec_nat_def zero [symmetric]) (rule radix_append_zero, simp_all)
  then show ?case using Suc by (simp add: replicate_append_same [symmetric] ac_simps)
qed

lemma fixed_notation_integer: "0 \<le> k \<Longrightarrow> 0 < q \<Longrightarrow> fixed_notation (q, k) = dec_nat (q * 10 ^ nat k)"
  by (simp add: dec_nat_shift)

text \<open>
  \<open>f64_is_nat w n\<close>: the value of \<open>w\<close>, without its sign, is the natural number \<open>n\<close>.
\<close>

definition f64_is_nat :: "float64 \<Rightarrow> nat \<Rightarrow> bool" where
  "f64_is_nat w n \<longleftrightarrow> f64_exponent w \<noteq> 2047 \<and> f64_mid w = n * f64_den w"

lemma small_integer_scale:
  assumes "f64_is_nat w n" "n < 2 ^ 53"
  shows "f64_scale w \<le> 0"
proof (rule ccontr)
  assume pos: "\<not> f64_scale w \<le> 0"
  have "2 ^ 52 \<le> f64_mantissa w" using pos by (auto simp: f64_mantissa_def f64_scale_def split: if_splits)
  then have mid: "4 * 2 ^ 52 * 2 ^ nat (f64_scale w - 2) \<le> f64_mid w"
    unfolding f64_mid_def f64_num_def by (intro mult_le_mono) simp_all
  show False
  proof (cases "f64_scale w = 1")
    case True
    then show ?thesis using assms mid by (simp add: f64_is_nat_def f64_den_def)
  next
    case False
    then have "f64_den w = 1" using pos by (simp add: f64_den_def)
    moreover have "(1::nat) \<le> 2 ^ nat (f64_scale w - 2)" by simp
    ultimately have "4 * 2 ^ 52 \<le> n" using assms(1) mid
      by (metis f64_is_nat_def mult.right_neutral mult_le_mono2 order_trans)
    with assms(2) show ?thesis by simp
  qed
qed

lemma integer_in_interval:
  assumes n: "f64_is_nat w n" "n < 2 ^ 53" and q: "in_interval w q k" and k: "0 \<le> k"
  shows "q * 10 ^ nat k = n"
proof -
  have "f64_scale w \<le> 0" by (rule small_integer_scale [OF n])
  then have scale: "nat (f64_scale w - 2) = 0" "2 \<le> nat (2 - f64_scale w)" by linarith+
  then have "(2::nat) ^ 2 \<le> f64_den w" unfolding f64_den_def by (intro power_increasing) simp_all
  then have den: "4 \<le> f64_den w" by simp
  have mid: "4 * f64_mantissa w = n * f64_den w"
    using n(1) scale(1) by (simp add: f64_is_nat_def f64_mid_def f64_num_def)
  let ?x = "q * 10 ^ nat k"
  have "f64_lo w \<le> ?x * f64_den w" "?x * f64_den w \<le> f64_hi w"
    using q k by (simp_all add: in_interval_def mult.assoc)
  then have "n * f64_den w - 2 \<le> ?x * f64_den w" "?x * f64_den w \<le> n * f64_den w + 2"
    using scale(1) mid by (auto simp: f64_lo_def f64_hi_def f64_num_def split: if_splits)
  then have near: "n * f64_den w < Suc ?x * f64_den w" "?x * f64_den w < Suc n * f64_den w"
    using den by auto
  from near(1) have "n < Suc ?x" by (rule mult_less_cancel2 [THEN iffD1, THEN conjunct2])
  moreover from near(2) have "?x < Suc n" by (rule mult_less_cancel2 [THEN iffD1, THEN conjunct2])
  ultimately show ?thesis by simp
qed

lemma FormatFloat_integer:
  assumes "f64_is_nat w n" "0 < n" "n < 2 ^ 53"
  shows "FormatFloat w = (if f64_negative w then ''-'' else '''') @ dec_nat n"
proof -
  obtain q k where digits: "f64_digits w = (q, k)" by fastforce
  have scale: "f64_scale w \<le> 0" by (rule small_integer_scale [OF assms(1,3)])
  have "pick_digits w 0 \<noteq> None"
    using assms(1) pick_digits_dvd [of 0 w] by (simp add: f64_is_nat_def)
  moreover have "0 \<le> start_power w" by (simp add: start_power_def)
  ultimately have k: "0 \<le> k" using f64_digits_picked [of w] digits by (auto simp: not_less [symmetric])
  have "in_interval w q k" by (rule f64_digits_in_interval [OF digits])
  from integer_in_interval [OF assms(1,3) this k] have qk: "q * 10 ^ nat k = n" .
  then have "0 < q" using assms(2) by (cases q) auto
  have "f64_mantissa w \<noteq> 0"
  proof
    assume "f64_mantissa w = 0"
    then show False using assms f64_den_pos [of w] by (simp add: f64_is_nat_def f64_mid_def f64_num_def)
  qed
  with digits \<open>0 < q\<close> k qk assms(1) show ?thesis
    by (simp add: FormatFloat_def f64_is_nat_def fixed_notation_integer del: fixed_notation.simps)
qed

end
