(* ===== verification/Go_Errors.thy ===== *)
theory Go_Errors
  imports Go_Text
begin

text \<open>
  Go error values. The constructors are the ways the source makes an error:
  \<open>errors.New\<close> and \<open>fmt.Errorf\<close> without \<open>%w\<close> (\<open>ErrorString\<close>), \<open>fmt.Errorf\<close> ending in
  \<open>: %w\<close> (\<open>WrapError\<close> with the text before the wrapped error), the sentinel of
  \<open>internal/values/fetch.go\<close> (\<open>ErrNotFound\<close>), and the four error types of
  \<open>internal/registry/client.go\<close>. Errors that come from outside the repository are
  \<open>StatusError\<close> (a reason and a message, as the Kubernetes API machinery reports them),
  \<open>ErrorString\<close>, or any of these wrapped.
\<close>

datatype err =
    ErrorString string
  | WrapError string err
  | StatusError string string
  | ErrNotFound
  | NotModifiedError
  | NetworkError err
  | AuthError err
  | NotFoundError err

text \<open>The \<open>Error()\<close> methods; \<open>%v\<close> of an error prints this text.\<close>

fun Error :: "err \<Rightarrow> string" where
  "Error (ErrorString msg) = msg"
| "Error (WrapError prefix e) = prefix @ Error e"
| "Error (StatusError reason msg) = msg"
| "Error ErrNotFound = ''resource not found''"
| "Error NotModifiedError = ''registry returned 304 Not Modified (cached response is valid)''"
| "Error (NetworkError e) = ''network error: '' @ Error e"
| "Error (AuthError e) = ''authentication error: '' @ Error e"
| "Error (NotFoundError e) = ''repository not found: '' @ Error e"

text \<open>The \<open>Unwrap()\<close> methods.\<close>

fun Unwrap :: "err \<Rightarrow> err option" where
  "Unwrap (WrapError prefix e) = Some e"
| "Unwrap (NetworkError e) = Some e"
| "Unwrap (AuthError e) = Some e"
| "Unwrap (NotFoundError e) = Some e"
| "Unwrap _ = None"

text \<open>
  \<open>errors.As\<close> and \<open>errors.Is\<close> walk the chain of wrapped errors and stop at the first one
  that matches.
\<close>

fun chain_any :: "(err \<Rightarrow> bool) \<Rightarrow> err \<Rightarrow> bool" where
  "chain_any p (WrapError prefix e) = (p (WrapError prefix e) \<or> chain_any p e)"
| "chain_any p (NetworkError e) = (p (NetworkError e) \<or> chain_any p e)"
| "chain_any p (AuthError e) = (p (AuthError e) \<or> chain_any p e)"
| "chain_any p (NotFoundError e) = (p (NotFoundError e) \<or> chain_any p e)"
| "chain_any p e = p e"

text \<open>\<open>errors.As(err, &notModified)\<close> with \<open>*registry.NotModifiedError\<close>.\<close>

definition errors_As_NotModified :: "err \<Rightarrow> bool" where
  "errors_As_NotModified e = chain_any (\<lambda>x. x = NotModifiedError) e"

text \<open>\<open>errors.Is(err, ErrNotFound)\<close> with the sentinel of \<open>internal/values\<close>.\<close>

definition errors_Is_ErrNotFound :: "err \<Rightarrow> bool" where
  "errors_Is_ErrNotFound e = chain_any (\<lambda>x. x = ErrNotFound) e"

lemma chain_any_unfold:
  "chain_any p e = (p e \<or> (case Unwrap e of None \<Rightarrow> False | Some e' \<Rightarrow> chain_any p e'))"
  by (cases e) auto

lemma errors_As_NotModified_wrap [simp]:
  "errors_As_NotModified (WrapError prefix e) = errors_As_NotModified e"
  by (simp add: errors_As_NotModified_def)

lemma errors_Is_ErrNotFound_wrap [simp]:
  "errors_Is_ErrNotFound (WrapError prefix e) = errors_Is_ErrNotFound e"
  by (simp add: errors_Is_ErrNotFound_def)

lemma errors_Is_ErrNotFound_self [simp]: "errors_Is_ErrNotFound ErrNotFound"
  by (simp add: errors_Is_ErrNotFound_def)

lemma errors_As_NotModified_self [simp]: "errors_As_NotModified NotModifiedError"
  by (simp add: errors_As_NotModified_def)

end
