(* ===== verification/Val_Yaml.thy ===== *)
theory Val_Yaml
  imports Go_Float Go_Errors "HOL-Library.Multiset"
begin

text \<open>
  \<open>internal/values/yaml.go\<close>: parsing a YAML document and flattening it into dotted keys.
  \<open>yaml.Unmarshal\<close> (package \<open>sigs.k8s.io/yaml\<close>) is not part of the repository: it is the
  parameter \<open>unmarshal\<close>. What it yields, a Go \<open>interface{}\<close>, is a \<open>YamlValue\<close>, with one
  constructor for each case of the type switch in \<open>flattenValue\<close>. A Go map has no fixed
  iteration order: the entries of a \<open>YMap\<close> stand in the order in which one run of the
  \<open>range\<close> loop visits them, and the theorems say what does not depend on that order.
\<close>

section \<open>The model\<close>

datatype YamlValue =
    YMap "(string \<times> YamlValue) list"
  | YSlice "YamlValue list"
  | YString string
  | YInt int64
  | YInt64 int64
  | YFloat64 float64
  | YBool bool
  | YNil
  | YOther string

fun FormatBool :: "bool \<Rightarrow> string" where
  "FormatBool True = ''true''"
| "FormatBool False = ''false''"

text \<open>The key of an entry below \<open>prefix\<close>, and of an array element.\<close>

definition map_prefix :: "string \<Rightarrow> string \<Rightarrow> string" where
  "map_prefix prefix key = (if prefix \<noteq> '''' then prefix @ ''.'' @ key else key)"

definition slice_prefix :: "string \<Rightarrow> nat \<Rightarrow> string" where
  "slice_prefix prefix i = prefix @ ''['' @ dec_nat i @ '']''"

text \<open>
  \<open>flattenValue\<close> and its two loops. The result map that the Go code updates in place is
  passed on and returned.
\<close>

fun flattenValue :: "string \<Rightarrow> YamlValue \<Rightarrow> gomap \<Rightarrow> gomap"
  and flattenMap :: "string \<Rightarrow> (string \<times> YamlValue) list \<Rightarrow> gomap \<Rightarrow> gomap"
  and flattenSlice :: "string \<Rightarrow> nat \<Rightarrow> YamlValue list \<Rightarrow> gomap \<Rightarrow> gomap"
where
  "flattenValue prefix (YMap kvs) result = flattenMap prefix kvs result"
| "flattenValue prefix (YSlice vs) result = flattenSlice prefix 0 vs result"
| "flattenValue prefix (YString v) result = put prefix v result"
| "flattenValue prefix (YInt v) result = put prefix (dec_int (sint v)) result"
| "flattenValue prefix (YInt64 v) result = put prefix (dec_int (sint v)) result"
| "flattenValue prefix (YFloat64 v) result = put prefix (FormatFloat v) result"
| "flattenValue prefix (YBool v) result = put prefix (FormatBool v) result"
| "flattenValue prefix YNil result = put prefix '''' result"
| "flattenValue prefix (YOther v) result = put prefix v result"
| "flattenMap prefix [] result = result"
| "flattenMap prefix ((key, val) # kvs) result =
     flattenMap prefix kvs (flattenValue (map_prefix prefix key) val result)"
| "flattenSlice prefix i [] result = result"
| "flattenSlice prefix i (val # vs) result =
     flattenSlice prefix (Suc i) vs (flattenValue (slice_prefix prefix i) val result)"

definition parseYAML :: "(string \<Rightarrow> err + YamlValue) \<Rightarrow> string \<Rightarrow> err + gomap" where
  "parseYAML unmarshal yamlData =
     (if yamlData = '''' then Inr []
      else case unmarshal yamlData of
             Inl e \<Rightarrow> Inl (WrapError ''failed to parse YAML: '' e)
           | Inr data \<Rightarrow> Inr (flattenValue '''' data []))"

section \<open>The specification: the list of leaves\<close>

text \<open>The leaves of a value with their full paths, in visiting order.\<close>

fun leaves :: "string \<Rightarrow> YamlValue \<Rightarrow> (string \<times> string) list"
  and map_leaves :: "string \<Rightarrow> (string \<times> YamlValue) list \<Rightarrow> (string \<times> string) list"
  and slice_leaves :: "string \<Rightarrow> nat \<Rightarrow> YamlValue list \<Rightarrow> (string \<times> string) list"
where
  "leaves prefix (YMap kvs) = map_leaves prefix kvs"
| "leaves prefix (YSlice vs) = slice_leaves prefix 0 vs"
| "leaves prefix (YString v) = [(prefix, v)]"
| "leaves prefix (YInt v) = [(prefix, dec_int (sint v))]"
| "leaves prefix (YInt64 v) = [(prefix, dec_int (sint v))]"
| "leaves prefix (YFloat64 v) = [(prefix, FormatFloat v)]"
| "leaves prefix (YBool v) = [(prefix, FormatBool v)]"
| "leaves prefix YNil = [(prefix, '''')]"
| "leaves prefix (YOther v) = [(prefix, v)]"
| "map_leaves prefix [] = []"
| "map_leaves prefix ((key, val) # kvs) = leaves (map_prefix prefix key) val @ map_leaves prefix kvs"
| "slice_leaves prefix i [] = []"
| "slice_leaves prefix i (val # vs) = leaves (slice_prefix prefix i) val @ slice_leaves prefix (Suc i) vs"

definition put_all :: "(string \<times> string) list \<Rightarrow> gomap \<Rightarrow> gomap" where
  "put_all kvs m = fold (\<lambda>(k, v). put k v) kvs m"

lemma put_all_Nil [simp]: "put_all [] m = m"
  by (simp add: put_all_def)

lemma put_all_Cons [simp]: "put_all ((k, v) # kvs) m = put_all kvs (put k v m)"
  by (simp add: put_all_def)

lemma put_all_append [simp]: "put_all (xs @ ys) m = put_all ys (put_all xs m)"
  by (simp add: put_all_def)

lemma put_all_wf: "wf_map m \<Longrightarrow> wf_map (put_all kvs m)"
  by (induction kvs arbitrary: m) auto

text \<open>The last write to a key wins.\<close>

lemma put_all_lookup: "map_of (put_all kvs m) = map_of m ++ map_of (rev kvs)"
  by (induction kvs arbitrary: m) (auto simp: gomap_simps map_add_def split: option.splits)

lemma put_all_lookup_distinct:
  "wf_map kvs \<Longrightarrow> map_of (put_all kvs m) = map_of m ++ map_of kvs"
  by (simp add: put_all_lookup wf_map_def)
    (metis distinct_rev map_of_inject_set rev_map set_rev)

text \<open>The accumulating recursion writes exactly the leaves, in order.\<close>

lemma flatten_eq_leaves:
  "flattenValue prefix v result = put_all (leaves prefix v) result"
  "flattenMap prefix kvs result = put_all (map_leaves prefix kvs) result"
  "flattenSlice prefix i vs result = put_all (slice_leaves prefix i vs) result"
  by (induction prefix v result and prefix kvs result and prefix i vs result
      rule: flattenValue_flattenMap_flattenSlice.induct) auto

lemma flattenValue_wf: "wf_map result \<Longrightarrow> wf_map (flattenValue prefix v result)"
  by (simp add: flatten_eq_leaves put_all_wf)

section \<open>Independence of the map iteration order\<close>

text \<open>\<open>reordered v w\<close>: the values differ only in the order of their map entries.\<close>

inductive reordered :: "YamlValue \<Rightarrow> YamlValue \<Rightarrow> bool" where
  same: "reordered v v"
| compose: "reordered u v \<Longrightarrow> reordered v w \<Longrightarrow> reordered u w"
| permute: "mset kvs = mset kvs' \<Longrightarrow> reordered (YMap kvs) (YMap kvs')"
| entry: "reordered v w \<Longrightarrow> reordered (YMap (xs @ (k, v) # ys)) (YMap (xs @ (k, w) # ys))"
| element: "reordered v w \<Longrightarrow> reordered (YSlice (xs @ v # ys)) (YSlice (xs @ w # ys))"

lemma map_leaves_append: "map_leaves prefix (xs @ ys) = map_leaves prefix xs @ map_leaves prefix ys"
  by (induction xs) auto

lemma slice_leaves_append:
  "slice_leaves prefix i (xs @ ys) = slice_leaves prefix i xs @ slice_leaves prefix (i + length xs) ys"
  by (induction xs arbitrary: i) auto

lemma mset_map_leaves:
  "mset (map_leaves prefix kvs) = (\<Sum>(k, v) \<in># mset kvs. mset (leaves (map_prefix prefix k) v))"
  by (induction kvs) auto

lemma reordered_leaves: "reordered v w \<Longrightarrow> mset (leaves prefix v) = mset (leaves prefix w)"
proof (induction arbitrary: prefix rule: reordered.induct)
  case (permute kvs kvs')
  then show ?case by (simp add: mset_map_leaves)
qed (simp_all add: map_leaves_append slice_leaves_append)

text \<open>No path is written twice.\<close>

definition collision_free :: "YamlValue \<Rightarrow> bool" where
  "collision_free v \<longleftrightarrow> wf_map (leaves '''' v)"

lemma wf_map_mset: "mset xs = mset ys \<Longrightarrow> wf_map xs \<Longrightarrow> wf_map ys"
  unfolding wf_map_def by (metis mset_eq_imp_distinct_iff mset_map)

lemma flattenValue_reordered:
  assumes "reordered v w" "collision_free v"
  shows "map_of (flattenValue '''' v []) = map_of (flattenValue '''' w [])"
proof -
  let ?xs = "leaves '''' v" and ?ys = "leaves '''' w"
  have mset: "mset ?xs = mset ?ys" by (rule reordered_leaves [OF assms(1)])
  have xs: "wf_map ?xs" using assms(2) by (simp add: collision_free_def)
  have ys: "wf_map ?ys" by (rule wf_map_mset [OF mset xs])
  have "map_of ?xs = map_of ?ys" by (rule wf_map_perm_lookup [OF xs ys mset_eq_setD [OF mset]])
  then show ?thesis by (simp add: flatten_eq_leaves put_all_lookup_distinct xs ys)
qed

section \<open>Plain keys never collide\<close>

text \<open>
  A value whose map keys are non-empty, free of dots and opening brackets, and distinct in
  each map, flattens without collision: a path can be read back to its keys.
\<close>

definition plain_key :: "string \<Rightarrow> bool" where
  "plain_key k \<longleftrightarrow> k \<noteq> '''' \<and> CHR ''.'' \<notin> set k \<and> CHR ''['' \<notin> set k"

fun plain :: "YamlValue \<Rightarrow> bool" where
  "plain (YMap kvs) = (wf_map kvs \<and> (\<forall>(k, v) \<in> set kvs. plain_key k \<and> plain v))"
| "plain (YSlice vs) = (\<forall>v \<in> set vs. plain v)"
| "plain _ = True"

text \<open>What may follow the path of a value in the paths of its leaves.\<close>

definition path_tail :: "string \<Rightarrow> bool" where
  "path_tail t \<longleftrightarrow> (case t of [] \<Rightarrow> True | c # _ \<Rightarrow> c = CHR ''.'' \<or> c = CHR ''['')"

lemma path_tail_Nil [simp]: "path_tail []"
  by (simp add: path_tail_def)

lemma path_tail_Cons [simp]: "path_tail (c # t) \<longleftrightarrow> c = CHR ''.'' \<or> c = CHR ''[''"
  by (simp add: path_tail_def)

definition under :: "string \<Rightarrow> string \<Rightarrow> bool" where
  "under prefix path \<longleftrightarrow> (\<exists>t. path = prefix @ t \<and> path_tail t)"

lemma under_refl [simp]: "under p p"
  by (simp add: under_def)

lemma under_tail: "under (p @ c # q) path \<Longrightarrow> c = CHR ''.'' \<or> c = CHR ''['' \<Longrightarrow> under p path"
  by (auto simp: under_def)

lemma under_map: "under (map_prefix p key) path \<Longrightarrow> p \<noteq> '''' \<Longrightarrow> under p path"
  by (auto simp: map_prefix_def intro: under_tail [where c = "CHR ''.''"])

lemma under_slice: "under (slice_prefix p i) path \<Longrightarrow> under p path"
  by (auto simp: slice_prefix_def intro: under_tail [where c = "CHR ''[''"])

lemma map_prefix_nonempty: "key \<noteq> '''' \<Longrightarrow> map_prefix p key \<noteq> ''''"
  by (simp add: map_prefix_def)

lemma slice_prefix_nonempty: "slice_prefix p i \<noteq> ''''"
  by (simp add: slice_prefix_def)

lemma leaves_under:
  "prefix \<noteq> '''' \<Longrightarrow> path \<in> fst ` set (leaves prefix v) \<Longrightarrow> under prefix path"
  "prefix \<noteq> '''' \<Longrightarrow> path \<in> fst ` set (map_leaves prefix kvs) \<Longrightarrow> under prefix path"
  "prefix \<noteq> '''' \<Longrightarrow> path \<in> fst ` set (slice_leaves prefix i vs) \<Longrightarrow> under prefix path"
proof (induction prefix v and prefix kvs and prefix i vs rule: leaves_map_leaves_slice_leaves.induct)
  case (11 prefix key val kvs)
  have "map_prefix prefix key \<noteq> ''''" using "11.prems"(1) by (simp add: map_prefix_def)
  with 11 show ?case by (auto simp: image_Un intro: under_map)
next
  case (13 prefix i val vs)
  then show ?case by (auto simp: image_Un slice_prefix_nonempty intro: under_slice)
qed auto

text \<open>Two paths under different plain keys, or under different indices, differ.\<close>

lemma plain_key_split:
  assumes "plain_key k" "plain_key l" "path_tail t" "path_tail u" "k @ t = l @ u"
  shows "k = l"
proof -
  let ?d = "\<lambda>c. c \<noteq> CHR ''.'' \<and> c \<noteq> CHR ''[''"
  have cut: "takeWhile ?d (x @ y) = x" if "plain_key x" "path_tail y" for x y
  proof -
    have "\<forall>c \<in> set x. ?d c" using that(1) by (auto simp: plain_key_def)
    moreover have "takeWhile ?d y = []" using that(2) by (cases y) auto
    ultimately show ?thesis by (simp add: takeWhile_append2)
  qed
  show ?thesis using cut [OF assms(1,3)] cut [OF assms(2,4)] assms(5) by simp
qed

lemma map_paths_differ:
  assumes "plain_key k" "plain_key l" "under (map_prefix p k) path" "under (map_prefix p l) path"
  shows "k = l"
  using assms by (auto simp: under_def map_prefix_def split: if_splits dest: plain_key_split)

lemma radix_bracket: "b = 10 \<Longrightarrow> CHR '']'' \<notin> set (radix b n)"
proof (induction b n rule: radix.induct)
  case (1 b n)
  have digit: "d < 10 \<Longrightarrow> digit_char d \<noteq> CHR '']''" for d
    by (auto simp: digit_char_def dest!: arg_cong [where f = "of_char :: char \<Rightarrow> nat"])
  show ?case
  proof (cases "n < b")
    case True
    then show ?thesis using digit [of n] "1.prems" by (simp add: radix_small eq_commute)
  next
    case False
    then show ?thesis using digit [of "n mod b"] "1.prems" "1.IH"
      by (simp add: radix_step eq_commute [of "CHR '']''"])
  qed
qed

lemma slice_paths_differ:
  assumes "under (slice_prefix p i) path" "under (slice_prefix p j) path"
  shows "i = j"
proof -
  obtain t u where "dec_nat i @ '']'' @ t = dec_nat j @ '']'' @ u"
    using assms by (auto simp: under_def slice_prefix_def)
  then have "SplitN2 (dec_nat i @ CHR '']'' # t) (CHR '']'') = SplitN2 (dec_nat j @ CHR '']'' # u) (CHR '']'')"
    by simp
  moreover have "CHR '']'' \<notin> set (dec_nat n)" for n by (simp add: dec_nat_def radix_bracket)
  ultimately show ?thesis by (simp add: SplitN2_first dec_nat_inject)
qed

lemma slice_leaves_index:
  "path \<in> fst ` set (slice_leaves prefix i vs) \<Longrightarrow> \<exists>j \<ge> i. under (slice_prefix prefix j) path"
proof (induction vs arbitrary: i)
  case (Cons v vs)
  then consider "path \<in> fst ` set (leaves (slice_prefix prefix i) v)"
    | "path \<in> fst ` set (slice_leaves prefix (Suc i) vs)" by auto
  then show ?case
  proof cases
    case 1
    then show ?thesis using leaves_under(1) slice_prefix_nonempty by blast
  next
    case 2
    then show ?thesis using Cons.IH Suc_leD by blast
  qed
qed simp

lemma map_leaves_key:
  "\<forall>(k, v) \<in> set kvs. plain_key k \<Longrightarrow> path \<in> fst ` set (map_leaves prefix kvs) \<Longrightarrow>
   \<exists>k \<in> fst ` set kvs. under (map_prefix prefix k) path"
proof (induction kvs)
  case (Cons kv kvs)
  obtain k v where kv: "kv = (k, v)" by (cases kv)
  have "map_prefix prefix k \<noteq> ''''" using Cons.prems(1) kv by (auto simp: plain_key_def map_prefix_def)
  with Cons kv show ?case by (auto simp: image_Un dest: leaves_under(1))
qed simp

lemma wf_map_append:
  "wf_map (xs @ ys) \<longleftrightarrow> wf_map xs \<and> wf_map ys \<and> fst ` set xs \<inter> fst ` set ys = {}"
  by (simp add: wf_map_def)

lemma plain_leaves_distinct:
  "plain v \<Longrightarrow> wf_map (leaves prefix v)"
  "plain (YMap kvs) \<Longrightarrow> wf_map (map_leaves prefix kvs)"
  "\<forall>v \<in> set vs. plain v \<Longrightarrow> wf_map (slice_leaves prefix i vs)"
proof (induction prefix v and prefix kvs and prefix i vs rule: leaves_map_leaves_slice_leaves.induct)
  case (11 prefix key val kvs)
  have keys: "plain_key key" "\<forall>(k, v) \<in> set kvs. plain_key k" "key \<notin> fst ` set kvs"
    using "11.prems" by (auto simp: wf_map_Cons)
  have "fst ` set (leaves (map_prefix prefix key) val) \<inter> fst ` set (map_leaves prefix kvs) = {}"
  proof (rule ccontr)
    assume "\<not> ?thesis"
    then obtain path where path: "path \<in> fst ` set (leaves (map_prefix prefix key) val)"
      "path \<in> fst ` set (map_leaves prefix kvs)" by blast
    from map_leaves_key [OF keys(2) path(2)] obtain l
      where l: "l \<in> fst ` set kvs" "under (map_prefix prefix l) path" by blast
    have "under (map_prefix prefix key) path"
      using leaves_under(1) [OF _ path(1)] keys(1) by (auto simp: plain_key_def map_prefix_def)
    moreover have "plain_key l" using l(1) keys(2) by auto
    ultimately show False using map_paths_differ [OF keys(1)] l keys(3) by metis
  qed
  then show ?case using 11 by (simp add: wf_map_append wf_map_Cons)
next
  case (13 prefix i val vs)
  have "fst ` set (leaves (slice_prefix prefix i) val) \<inter> fst ` set (slice_leaves prefix (Suc i) vs) = {}"
    using slice_leaves_index [of _ prefix "Suc i" vs] leaves_under(1) [OF slice_prefix_nonempty]
    by (auto dest: slice_paths_differ) (metis Suc_n_not_le_n image_eqI fst_conv slice_paths_differ)
  then show ?case using 13 by (simp add: wf_map_append)
qed (auto simp: wf_map_def)

lemma plain_collision_free: "plain v \<Longrightarrow> collision_free v"
  by (simp add: collision_free_def plain_leaves_distinct)

section \<open>Properties\<close>


text \<open>
  C38: the flattened map does not depend on the order in which Go iterates over the YAML
  maps, when the keys are plain (non-empty, no dot and no opening bracket).
\<close>

theorem flatten_any_order:
  assumes "plain v" "reordered v w"
  shows "map_of (flattenValue '''' v []) = map_of (flattenValue '''' w [])"
  by (rule flattenValue_reordered [OF assms(2) plain_collision_free [OF assms(1)]])

lemma flatten_any_order_witness:
  "map_of (flattenValue '''' (YMap [(''a'', YSlice [YBool True]), (''b'', YNil)]) [])
   = map_of (flattenValue '''' (YMap [(''b'', YNil), (''a'', YSlice [YBool True])]) [])"
  by (rule flatten_any_order)
    (auto simp: wf_map_def plain_key_def intro!: reordered.permute)

text \<open>
  A YAML float that is a whole number below 2^53 becomes its decimal digits, never an
  exponent and never a fraction.
\<close>

lemma flatten_whole_float:
  assumes "f64_is_nat w n" "0 < n" "n < 2 ^ 53"
  shows "flattenValue prefix (YFloat64 w) m
    = put prefix ((if f64_negative w then ''-'' else '''') @ dec_nat n) m"
  by (simp add: FormatFloat_integer [OF assms])

lemma flatten_whole_float_witness:
  "flattenValue ''replicas'' (YFloat64 0x4059000000000000) [] = [(''replicas'', ''100'')]"
proof -
  have "f64_is_nat 0x4059000000000000 100"
    by (simp add: f64_is_nat_def f64_exponent_def f64_mid_def f64_num_def f64_den_def f64_mantissa_def
        f64_scale_def f64_fraction_def)
  from flatten_whole_float [OF this, of "''replicas''" "[]"] show ?thesis
    by (simp add: f64_negative_def dec_nat_def radix_step radix_small put_def)
qed

end
