(* ===== verification/Val_Merge.thy ===== *)
theory Val_Merge
  imports Val_Yaml
begin

text \<open>
  \<open>internal/values/merge.go\<close>: merging string maps, later maps overriding earlier ones.
\<close>

definition mergeMaps :: "gomap list \<Rightarrow> gomap" where
  "mergeMaps maps = fold (\<lambda>m result. fold (\<lambda>(k, v) result. put k v result) m result) maps []"

lemma mergeMaps_eq_put_all: "mergeMaps maps = put_all (concat maps) []"
proof -
  have "fold (\<lambda>m result. fold (\<lambda>(k, v) result. put k v result) m result) maps r = put_all (concat maps) r" for r
    by (induction maps arbitrary: r) (auto simp: put_all_def)
  then show ?thesis by (simp add: mergeMaps_def)
qed

lemma mergeMaps_wf: "wf_map (mergeMaps maps)"
  by (simp add: mergeMaps_eq_put_all put_all_wf)

text \<open>The abstract merge: right-biased union of finite maps.\<close>

definition merge_spec :: "(string \<rightharpoonup> string) list \<Rightarrow> (string \<rightharpoonup> string)" where
  "merge_spec ms = foldl (++) Map.empty ms"

lemma put_all_concat_lookup:
  "\<forall>m \<in> set maps. wf_map m \<Longrightarrow> map_of (put_all (concat maps) r) = foldl (++) (map_of r) (map map_of maps)"
  by (induction maps arbitrary: r) (auto simp: put_all_lookup_distinct)

lemma mergeMaps_lookup:
  "\<forall>m \<in> set maps. wf_map m \<Longrightarrow> map_of (mergeMaps maps) = merge_spec (map map_of maps)"
  by (simp add: mergeMaps_eq_put_all put_all_concat_lookup merge_spec_def)

lemma foldl_map_add: "foldl (++) m ms = m ++ merge_spec ms"
proof (induction ms arbitrary: m)
  case Nil
  then show ?case by (simp add: merge_spec_def)
next
  case (Cons n ms)
  have "foldl (++) n ms = n ++ merge_spec ms" by (rule Cons.IH)
  then have "merge_spec (n # ms) = n ++ merge_spec ms" by (simp add: merge_spec_def)
  with Cons.IH [of "m ++ n"] show ?case by simp
qed

lemma merge_spec_append: "merge_spec (xs @ ys) = merge_spec xs ++ merge_spec ys"
  by (simp add: merge_spec_def [of "xs @ ys"] foldl_map_add)

text \<open>A key that the last maps lack comes from the map before them.\<close>

lemma merge_spec_last:
  assumes "\<forall>n \<in> set ns. n k = None" "m k = Some v"
  shows "merge_spec (ms @ m # ns) k = Some v"
proof -
  have "merge_spec ns k = None" using assms(1)
  proof (induction ns)
    case Nil
    then show ?case by (simp add: merge_spec_def)
  next
    case (Cons n ns)
    have "merge_spec (n # ns) = merge_spec [n] ++ merge_spec ns" using merge_spec_append [of "[n]" ns] by simp
    with Cons show ?case by (simp add: merge_spec_def)
  qed
  moreover have "merge_spec (ms @ m # ns) = merge_spec ms ++ (m ++ merge_spec ns)"
    using merge_spec_append [of ms "m # ns"] merge_spec_append [of "[m]" ns] by (simp add: merge_spec_def)
  ultimately show ?thesis using assms(2) by (simp add: map_add_def)
qed

lemma dom_merge_spec: "dom (merge_spec ms) = (\<Union>m \<in> set ms. dom m)"
proof (induction ms)
  case Nil
  then show ?case by (simp add: merge_spec_def)
next
  case (Cons m ms)
  have "merge_spec (m # ms) = m ++ merge_spec ms"
    using merge_spec_append [of "[m]" ms] by (simp add: merge_spec_def)
  with Cons show ?case by (simp add: Un_commute)
qed

text \<open>Maps with disjoint keys can be merged in any order.\<close>

lemma mergeMaps_disjoint_order:
  assumes "mset maps = mset maps'" "wf_map (concat maps)"
  shows "map_of (mergeMaps maps) = map_of (mergeMaps maps')"
proof -
  have mset: "mset (concat maps) = mset (concat maps')"
    using assms(1) by (metis mset_concat mset_map sum_mset_sum_list)
  have "wf_map (concat maps')" by (rule wf_map_mset [OF mset assms(2)])
  with assms(2) show ?thesis
    by (simp add: mergeMaps_eq_put_all put_all_lookup_distinct
        wf_map_perm_lookup [OF assms(2) _ mset_eq_setD [OF mset]])
qed

section \<open>Properties\<close>

text \<open>
  C18: in a merge the last source that defines a key decides its value, and the keys of the
  result are exactly those of the sources.
\<close>

theorem merge_last_wins:
  assumes "\<forall>m \<in> set maps. wf_map m"
  shows "dom (map_of (mergeMaps maps)) = (\<Union>m \<in> set maps. fst ` set m) \<and>
    (\<forall>before m after k v. maps = before @ m # after \<longrightarrow> map_of m k = Some v \<longrightarrow>
       (\<forall>n \<in> set after. k \<notin> fst ` set n) \<longrightarrow> map_of (mergeMaps maps) k = Some v)"
proof (intro conjI allI impI)
  show "dom (map_of (mergeMaps maps)) = (\<Union>m \<in> set maps. fst ` set m)"
    by (simp add: mergeMaps_lookup [OF assms] dom_merge_spec dom_map_of_conv_image_fst)
  fix before m after k v
  assume split: "maps = before @ m # after" and "map_of m k = Some v" "\<forall>n \<in> set after. k \<notin> fst ` set n"
  then have "merge_spec (map map_of before @ map_of m # map map_of after) k = Some v"
    by (intro merge_spec_last) (auto simp: map_of_eq_None_iff)
  then show "map_of (mergeMaps maps) k = Some v" 
    using mergeMaps_lookup [OF assms] by (simp add: split)
qed

lemma merge_last_wins_witness:
  "map_of (mergeMaps [[(''image'', ''a''), (''port'', ''80'')], [(''image'', ''b'')], [(''tag'', ''1'')]]) ''image'' = Some ''b''"
proof -
  have "\<forall>m \<in> set [[(''image'', ''a''), (''port'', ''80'')], [(''image'', ''b'')], [(''tag'', ''1'')]]. wf_map m"
    by (simp add: wf_map_def)
  from merge_last_wins [OF this, THEN conjunct2, rule_format, of "[[(''image'', ''a''), (''port'', ''80'')]]"
      "[(''image'', ''b'')]" "[[(''tag'', ''1'')]]" "''image''" "''b''"] show ?thesis by simp
qed

end
