(* ===== verification/Api_Types.thy ===== *)
theory Api_Types
  imports Go_Errors
begin

text \<open>
  The API types of \<open>api/v1alpha1/werfbundle_types.go\<close>: the spec and status of a
  WerfBundle, its phase and job status constants, and the validation of cross-namespace
  deployments. Go structs are records with the fields' names; a pointer field is an
  \<open>option\<close>; a \<open>corev1.LocalObjectReference\<close> is the name it holds. Of
  \<open>metav1.ObjectMeta\<close> the record \<open>WerfBundle\<close> keeps what the source reads or writes: name,
  namespace, UID, deletion time stamp and finalizers.
\<close>

definition PhaseSyncing :: string where "PhaseSyncing = ''Syncing''"
definition PhaseSynced :: string where "PhaseSynced = ''Synced''"
definition PhaseFailed :: string where "PhaseFailed = ''Failed''"

definition JobStatusRunning :: string where "JobStatusRunning = ''Running''"
definition JobStatusSucceeded :: string where "JobStatusSucceeded = ''Succeeded''"
definition JobStatusFailed :: string where "JobStatusFailed = ''Failed''"

lemmas phase_defs = PhaseSyncing_def PhaseSynced_def PhaseFailed_def
lemmas job_status_defs = JobStatusRunning_def JobStatusSucceeded_def JobStatusFailed_def

record RegistryConfig =
  URL :: string
  RegistrySecretRef :: "string option"
  PollInterval :: string

record ResourceLimitsConfig =
  CPU :: string
  Memory :: string

record ValuesSource =
  ConfigMapRef :: "string option"
  SecretRef :: "string option"
  Optional :: bool

record ConvergeConfig =
  ServiceAccountName :: string
  TargetNamespace :: string
  ResourceLimits :: "ResourceLimitsConfig option"
  LogRetentionDays :: "int32 option"
  ValuesFrom :: "ValuesSource list"

record WerfBundleSpec =
  Registry :: RegistryConfig
  Converge :: ConvergeConfig

record WerfBundleStatus =
  Phase :: string
  LastAppliedTag :: string
  LastSyncTime :: "time option"
  LastErrorMessage :: string
  LastETag :: string
  ConsecutiveFailures :: int32
  LastErrorTime :: "time option"
  ActiveJobName :: string
  LastJobStatus :: string
  LastJobLogs :: string
  ResolvedTargetNamespace :: string

record WerfBundle =
  Name :: string
  Namespace :: string
  UID :: string
  DeletionTimestamp :: "time option"
  Finalizers :: "string list"
  Spec :: WerfBundleSpec
  Status :: WerfBundleStatus

text \<open>\<open>ValidateCrossNamespaceDeployment\<close>: \<open>None\<close> is Go's nil error.\<close>

definition ValidateCrossNamespaceDeployment :: "WerfBundle \<Rightarrow> err option" where
  "ValidateCrossNamespaceDeployment wb =
     (let targetNs = TargetNamespace (Converge (Spec wb));
          bundleNs = Namespace wb;
          saName = ServiceAccountName (Converge (Spec wb))
      in if targetNs = '''' \<or> targetNs = bundleNs then None
         else if saName = '''' then
           Some (ErrorString (''serviceAccountName is required for cross-namespace deployment from ''
                  @ bundleNs @ '' to '' @ targetNs))
         else None)"

text \<open>The status a freshly created object has: every field at its zero value.\<close>

definition zero_status :: WerfBundleStatus where
  "zero_status = \<lparr>Phase = '''', LastAppliedTag = '''', LastSyncTime = None, LastErrorMessage = '''',
     LastETag = '''', ConsecutiveFailures = 0, LastErrorTime = None, ActiveJobName = '''',
     LastJobStatus = '''', LastJobLogs = '''', ResolvedTargetNamespace = ''''\<rparr>"

end
