(* ===== verification/Val_Flags.thy ===== *)
theory Val_Flags
  imports Val_Merge Api_Types
begin

text \<open>
  \<open>internal/values/cli.go\<close> and \<open>internal/values/helpers.go\<close>: escaping a value for a
  \<open>--set\<close> flag, the flags of a resolved map in sorted key order, and the target namespace
  of a deployment. \<open>ExtractSetFlags\<close> of \<open>internal/testing/values.go\<close> reads the flags back.
\<close>

section \<open>Escaping\<close>

abbreviation backslash :: char where "backslash \<equiv> CHR 0x5C"

text \<open>The five replacements in the order of the code: backslashes first.\<close>

definition escapeValue :: "string \<Rightarrow> string" where
  "escapeValue s =
     (let result = ReplaceAll s backslash [backslash, backslash];
          result = ReplaceAll result (CHR '','') [backslash, CHR '',''];
          result = ReplaceAll result (CHR ''='') [backslash, CHR ''=''];
          result = ReplaceAll result (CHR ''['') [backslash, CHR ''['']
      in ReplaceAll result (CHR '']'') [backslash, CHR '']''])"

definition special :: "char \<Rightarrow> bool" where
  "special c \<longleftrightarrow> c = backslash \<or> c = CHR '','' \<or> c = CHR ''='' \<or> c = CHR ''['' \<or> c = CHR '']''"

text \<open>The specification: one pass that puts a backslash before each special character.\<close>

definition escape_char :: "char \<Rightarrow> string" where
  "escape_char c = (if special c then [backslash, c] else [c])"

lemma escapeValue_one_pass: "escapeValue s = concat (map escape_char s)"
proof (induction s)
  case Nil
  then show ?case by (simp add: escapeValue_def Let_def)
next
  case (Cons c s)
  have "escapeValue (c # s) = escape_char c @ escapeValue s"
    by (simp add: escapeValue_def Let_def ReplaceAll_Cons ReplaceAll_append escape_char_def special_def)
  with Cons show ?case by simp
qed

text \<open>Removing one level of backslash escapes, as a \<open>--set\<close> parser does.\<close>

fun unescape :: "string \<Rightarrow> string" where
  "unescape [] = []"
| "unescape [c] = [c]"
| "unescape (c # d # s) = (if c = backslash then d # unescape s else c # unescape (d # s))"

text \<open>The characters of a string that no backslash escapes.\<close>

fun unescaped :: "string \<Rightarrow> string" where
  "unescaped [] = []"
| "unescaped [c] = [c]"
| "unescaped (c # d # s) = (if c = backslash then unescaped s else c # unescaped (d # s))"

lemma unescape_Cons: "c \<noteq> backslash \<Longrightarrow> unescape (c # s) = c # unescape s"
  by (cases s) auto

lemma unescaped_Cons: "c \<noteq> backslash \<Longrightarrow> unescaped (c # s) = c # unescaped s"
  by (cases s) auto

lemma unescape_escapeValue: "unescape (escapeValue s) = s"
  unfolding escapeValue_one_pass
  by (induction s) (auto simp: escape_char_def unescape_Cons special_def)

lemma unescaped_escapeValue: "unescaped (escapeValue s) = filter (\<lambda>c. \<not> special c) s"
  unfolding escapeValue_one_pass
  by (induction s) (auto simp: escape_char_def unescaped_Cons special_def)

lemma escapeValue_inject: "escapeValue s = escapeValue t \<longleftrightarrow> s = t"
  by (metis unescape_escapeValue)

lemma escapeValue_plain: "\<forall>c \<in> set s. \<not> special c \<Longrightarrow> escapeValue s = s"
  unfolding escapeValue_one_pass by (induction s) (auto simp: escape_char_def)

section \<open>The target namespace\<close>

definition GetTargetNamespace :: "ConvergeConfig \<Rightarrow> string \<Rightarrow> string" where
  "GetTargetNamespace convergeConfig bundleNamespace =
     (if TargetNamespace convergeConfig \<noteq> '''' then TargetNamespace convergeConfig else bundleNamespace)"

section \<open>The \<open>--set\<close> flags\<close>

definition set_flag :: "gomap \<Rightarrow> string \<Rightarrow> string list" where
  "set_flag vals key = [''--set'', key @ ''='' @ escapeValue (the (map_of vals key))]"

definition GenerateSetFlags :: "gomap \<Rightarrow> string list" where
  "GenerateSetFlags vals =
     (if length vals = 0 then []
      else let keys = sort (map fst vals)
           in fold (\<lambda>key flags. flags @ set_flag vals key) keys [])"

lemma fold_append_concat: "fold (\<lambda>x acc. acc @ f x) xs ys = ys @ concat (map f xs)"
  by (induction xs arbitrary: ys) auto

lemma GenerateSetFlags_eq: "GenerateSetFlags vals = concat (map (set_flag vals) (sort (map fst vals)))"
  by (simp add: GenerateSetFlags_def fold_append_concat)

text \<open>The flags as a function of the map alone.\<close>

definition flags_of :: "(string \<rightharpoonup> string) \<Rightarrow> string list" where
  "flags_of vals = concat (map (\<lambda>k. [''--set'', k @ ''='' @ escapeValue (the (vals k))]) (sorted_list_of_set (dom vals)))"

lemma GenerateSetFlags_of: "wf_map m \<Longrightarrow> GenerateSetFlags m = flags_of (map_of m)"
proof -
  assume "wf_map m"
  then have "sort (map fst m) = sorted_list_of_set (dom (map_of m))"
    by (simp add: wf_map_def dom_map_of_conv_image_fst sorted_list_of_set_sort_remdups
        distinct_remdups_id flip: set_map)
  then show ?thesis by (simp add: GenerateSetFlags_eq flags_of_def set_flag_def cong: map_cong)
qed

lemma GenerateSetFlags_length: "length (GenerateSetFlags m) = 2 * length m"
proof -
  have "length (concat (map (set_flag m) ks)) = 2 * length ks" for ks
    by (induction ks) (auto simp: set_flag_def)
  then show ?thesis by (simp add: GenerateSetFlags_eq)
qed

section \<open>Reading the flags back\<close>

text \<open>The loop of \<open>ExtractSetFlags\<close> over the arguments of the job's container.\<close>

fun ExtractSetFlags :: "string list \<Rightarrow> gomap \<Rightarrow> gomap" where
  "ExtractSetFlags [] result = result"
| "ExtractSetFlags [arg] result = result"
| "ExtractSetFlags (arg # next_arg # args) result =
     (if arg = ''--set'' then
        (case SplitN2 next_arg (CHR ''='') of
           [k, v] \<Rightarrow> ExtractSetFlags args (put k v result)
         | _ \<Rightarrow> ExtractSetFlags args result)
      else ExtractSetFlags (next_arg # args) result)"

lemma ExtractSetFlags_skip: "arg \<noteq> ''--set'' \<Longrightarrow> ExtractSetFlags (arg # args) r = ExtractSetFlags args r"
  by (cases args) auto

lemma ExtractSetFlags_flags:
  assumes "\<forall>k \<in> set ks. CHR ''='' \<notin> set k"
  shows "ExtractSetFlags (concat (map (set_flag m) ks)) r
         = put_all (map (\<lambda>k. (k, escapeValue (the (map_of m k)))) ks) r"
  using assms
proof (induction ks arbitrary: r)
  case (Cons k ks)
  have "SplitN2 (k @ CHR ''='' # escapeValue (the (map_of m k))) (CHR ''='')
        = [k, escapeValue (the (map_of m k))]"
    using Cons.prems by (intro SplitN2_first) simp
  then show ?case using Cons by (simp add: set_flag_def)
qed simp

lemma ExtractSetFlags_GenerateSetFlags:
  assumes "wf_map m" "\<forall>k \<in> fst ` set m. CHR ''='' \<notin> set k"
  shows "map_of (ExtractSetFlags (GenerateSetFlags m) []) = map_option escapeValue \<circ> map_of m"
proof
  fix k
  let ?ks = "sort (map fst m)" and ?f = "\<lambda>k. escapeValue (the (map_of m k))"
  have keys: "set ?ks = dom (map_of m)" by (simp add: dom_map_of_conv_image_fst)
  have "wf_map (map (\<lambda>k. (k, ?f k)) ?ks)"
    using assms(1) by (simp add: wf_map_def comp_def)
  moreover have "ExtractSetFlags (GenerateSetFlags m) [] = put_all (map (\<lambda>k. (k, ?f k)) ?ks) []"
    using assms(2) by (simp add: GenerateSetFlags_eq ExtractSetFlags_flags)
  ultimately have "map_of (ExtractSetFlags (GenerateSetFlags m) []) = map_of (map (\<lambda>k. (k, ?f k)) ?ks)"
    by (simp add: put_all_lookup_distinct)
  then have "map_of (ExtractSetFlags (GenerateSetFlags m) []) k = map_of (map (\<lambda>k. (k, ?f k)) ?ks) k"
    by simp
  also have "\<dots> = (map_option escapeValue \<circ> map_of m) k"
    using keys by (cases "map_of m k") (auto simp: map_of_map_restrict restrict_map_def dom_def)
  finally show "map_of (ExtractSetFlags (GenerateSetFlags m) []) k = (map_option escapeValue \<circ> map_of m) k" .
qed

section \<open>Properties\<close>

text \<open>
  the \<open>--set\<close> flags of a map do not depend on Go's iteration order: they list every
  key once, in increasing order, as \<open>key=escaped value\<close>.
\<close>

theorem flags_any_order:
  assumes "wf_map m" "wf_map m'" "map_of m = map_of m'"
  shows "GenerateSetFlags m = GenerateSetFlags m' \<and>
    GenerateSetFlags m = concat (map (\<lambda>k. [''--set'', k @ ''='' @ escapeValue (the (map_of m k))])
      (sorted_list_of_set (dom (map_of m))))"
  using GenerateSetFlags_of [OF assms(1)] GenerateSetFlags_of [OF assms(2)] assms(3)
  by (simp add: flags_of_def)

lemma flags_any_order_witness:
  "GenerateSetFlags [(''b'', ''x,y''), (''a'', ''1'')] = GenerateSetFlags [(''a'', ''1''), (''b'', ''x,y'')]"
  using flags_any_order [of "[(''b'', ''x,y''), (''a'', ''1'')]" "[(''a'', ''1''), (''b'', ''x,y'')]"]
  by (simp add: wf_map_def fun_upd_twist)



text \<open>
  C37: escaping is exact. No backslash, comma, equals sign or bracket of an escaped value is
  left unescaped, removing one level of backslashes gives the value back, and different
  values stay different.
\<close>

theorem escape_exact:
  "unescape (escapeValue s) = s \<and>
   unescaped (escapeValue s) = filter (\<lambda>c. c \<notin> {backslash, CHR '','', CHR ''='', CHR ''['', CHR '']''}) s \<and>
   (escapeValue s = escapeValue t \<longleftrightarrow> s = t)"
  by (auto simp: unescape_escapeValue unescaped_escapeValue escapeValue_inject special_def intro!: filter_cong)

end
