(* ===== verification/Kube_Env.thy ===== *)
theory Kube_Env
  imports Val_Flags
begin

text \<open>
  What the operator calls and does not contain: the Kubernetes API through
  \<open>client.Client\<close> and the pod log endpoint, the registry behind \<open>registry.Client\<close>, helper
  functions of apimachinery and controller-runtime, the YAML parser, the clock and the
  random sources. They are the fields of a record \<open>Env\<close>, a parameter of every effectful
  definition; \<open>'k\<close> is the state of that outside world, and nothing is known about it
  except where a theorem names a hypothesis. The programs run on a \<open>world\<close>: that state
  together with a ghost trace of the calls made so far and of how they were answered.
\<close>

section \<open>Kubernetes objects the operator builds or reads\<close>

record NamespacedName =
  NName :: string
  NNamespace :: string

abbreviation key :: "string \<Rightarrow> string \<Rightarrow> NamespacedName" where
  "key name namespace \<equiv> \<lparr>NName = name, NNamespace = namespace\<rparr>"

text \<open>A parsed \<open>resource.Quantity\<close>, known by its canonical text.\<close>

datatype Quantity = Quantity string

record Container =
  ContainerName :: string
  Image :: string
  Args :: "string list"
  Requests :: "(string \<times> Quantity) list"
  Limits :: "(string \<times> Quantity) list"

record OwnerReference =
  APIVersion :: string
  Kind :: string
  OwnerName :: string
  OwnerUID :: string
  IsController :: "bool option"

record Job =
  JobName :: string
  JobNamespace :: string
  JobLabels :: gomap
  BackoffLimit :: int32
  TTLSecondsAfterFinished :: int32
  PodLabels :: gomap
  RestartPolicy :: string
  PodServiceAccountName :: string
  Containers :: "Container list"
  OwnerReferences :: "OwnerReference list"
  Succeeded :: int32
  Failed :: int32

record ConfigMap =
  CmName :: string
  CmNamespace :: string
  CmData :: gomap
  CmOwner :: "OwnerReference option"

record Pod =
  PodName :: string
  PodContainers :: "string list"

text \<open>A registered kind: the text of its \<open>GroupVersion()\<close> and its \<open>Kind\<close>.\<close>

record GroupVersionKind =
  GroupVersion :: string
  GVKKind :: string

section \<open>The environment\<close>

text \<open>An authenticator of go-containerregistry; the operator always passes nil.\<close>

datatype Authenticator = Authenticator string

record 'k Env =
  IsNotFound :: "err \<Rightarrow> bool"
  IsAlreadyExists :: "err \<Rightarrow> bool"
  ContainsFinalizer :: "string list \<Rightarrow> string \<Rightarrow> bool"
  AddFinalizer :: "string list \<Rightarrow> string \<Rightarrow> string list"
  RemoveFinalizer :: "string list \<Rightarrow> string \<Rightarrow> string list"
  ParseQuantity :: "string \<Rightarrow> err + Quantity"
  ObjectKinds :: "WerfBundle \<Rightarrow> err + GroupVersionKind list"
  SetControllerReference :: "WerfBundle \<Rightarrow> ConfigMap \<Rightarrow> err + ConfigMap"
  Unmarshal :: "string \<Rightarrow> err + YamlValue"
  FractionNanos :: "nat \<Rightarrow> nat \<Rightarrow> int \<Rightarrow> int"
  GetBundle :: "NamespacedName \<Rightarrow> 'k \<Rightarrow> (err + WerfBundle) \<times> 'k"
  UpdateBundle :: "WerfBundle \<Rightarrow> 'k \<Rightarrow> (err + WerfBundle) \<times> 'k"
  UpdateBundleStatus :: "WerfBundle \<Rightarrow> 'k \<Rightarrow> (err + WerfBundle) \<times> 'k"
  GetServiceAccount :: "NamespacedName \<Rightarrow> 'k \<Rightarrow> err option \<times> 'k"
  GetConfigMap :: "NamespacedName \<Rightarrow> 'k \<Rightarrow> (err + gomap) \<times> 'k"
  GetSecret :: "NamespacedName \<Rightarrow> 'k \<Rightarrow> (err + (string \<times> 8 word list) list) \<times> 'k"
  GetJob :: "NamespacedName \<Rightarrow> 'k \<Rightarrow> (err + Job) \<times> 'k"
  CreateJob :: "Job \<Rightarrow> 'k \<Rightarrow> err option \<times> 'k"
  CreateConfigMap :: "ConfigMap \<Rightarrow> 'k \<Rightarrow> err option \<times> 'k"
  UpdateConfigMap :: "ConfigMap \<Rightarrow> 'k \<Rightarrow> err option \<times> 'k"
  ListPods :: "string \<Rightarrow> gomap \<Rightarrow> 'k \<Rightarrow> (err + Pod list) \<times> 'k"
  StreamPodLogs :: "string \<Rightarrow> string \<Rightarrow> string \<Rightarrow> int64 \<Rightarrow> 'k \<Rightarrow> (err + err + string) \<times> 'k"
  RegistryListTags :: "string \<Rightarrow> Authenticator option \<Rightarrow> string \<Rightarrow> 'k \<Rightarrow> (string list \<times> string \<times> err option) \<times> 'k"
  Now :: "'k \<Rightarrow> time \<times> 'k"
  RandIntn :: "int \<Rightarrow> 'k \<Rightarrow> int \<times> 'k"
  RandRead :: "nat \<Rightarrow> 'k \<Rightarrow> (err + 8 word list) \<times> 'k"

section \<open>Calls and the trace\<close>

text \<open>The calls that matter for ordering and safety, each with its answer.\<close>

datatype event =
    EvGetBundle NamespacedName "err + WerfBundle"
  | EvUpdateBundle WerfBundle "err + WerfBundle"
  | EvUpdateStatus WerfBundle "err option"
  | EvGetServiceAccount NamespacedName "err option"
  | EvPoll string string "string list" "err option"
  | EvGetConfigMap NamespacedName
  | EvGetSecret NamespacedName
  | EvGetJob NamespacedName "err + Job"
  | EvCreateJob Job "err option"
  | EvListPods string string
  | EvPodLogs string string string
  | EvCreateConfigMap ConfigMap "err option"
  | EvUpdateConfigMap ConfigMap "err option"

record 'k world =
  cluster :: 'k
  trace :: "event list"

fun left :: "'e + 'a \<Rightarrow> 'e option" where
  "left (Inl e) = Some e"
| "left (Inr a) = None"

lemma left_None_iff: "left r = None \<longleftrightarrow> (\<exists>a. r = Inr a)"
  by (cases r) auto

lemma left_Some_iff [simp]: "left r = Some e \<longleftrightarrow> r = Inl e"
  by (cases r) auto

definition call :: "('k \<Rightarrow> 'a \<times> 'k) \<Rightarrow> ('a \<Rightarrow> event list) \<Rightarrow> ('k world, 'a) state" where
  "call f ev = State (\<lambda>w. case f (cluster w) of
     (a, k) \<Rightarrow> (a, w\<lparr>cluster := k, trace := trace w @ ev a\<rparr>))"

lemma wp_call [wp_simps]:
  "wp (call f ev) Q w = (case f (cluster w) of (a, k) \<Rightarrow> Q a (w\<lparr>cluster := k, trace := trace w @ ev a\<rparr>))"
  by (simp add: call_def wp_def split: prod.splits)

definition get_bundle :: "'k Env \<Rightarrow> NamespacedName \<Rightarrow> ('k world, err + WerfBundle) state" where
  "get_bundle env k = call (GetBundle env k) (\<lambda>r. [EvGetBundle k r])"

definition update_bundle :: "'k Env \<Rightarrow> WerfBundle \<Rightarrow> ('k world, err + WerfBundle) state" where
  "update_bundle env wb = call (UpdateBundle env wb) (\<lambda>r. [EvUpdateBundle wb r])"

definition update_status :: "'k Env \<Rightarrow> WerfBundle \<Rightarrow> ('k world, err + WerfBundle) state" where
  "update_status env wb = call (UpdateBundleStatus env wb) (\<lambda>r. [EvUpdateStatus wb (left r)])"

definition get_service_account :: "'k Env \<Rightarrow> NamespacedName \<Rightarrow> ('k world, err option) state" where
  "get_service_account env k = call (GetServiceAccount env k) (\<lambda>r. [EvGetServiceAccount k r])"

definition get_configmap :: "'k Env \<Rightarrow> NamespacedName \<Rightarrow> ('k world, err + gomap) state" where
  "get_configmap env k = call (GetConfigMap env k) (\<lambda>r. [EvGetConfigMap k])"

definition get_secret :: "'k Env \<Rightarrow> NamespacedName \<Rightarrow> ('k world, err + (string \<times> 8 word list) list) state" where
  "get_secret env k = call (GetSecret env k) (\<lambda>r. [EvGetSecret k])"

definition get_job :: "'k Env \<Rightarrow> NamespacedName \<Rightarrow> ('k world, err + Job) state" where
  "get_job env k = call (GetJob env k) (\<lambda>r. [EvGetJob k r])"

definition create_job :: "'k Env \<Rightarrow> Job \<Rightarrow> ('k world, err option) state" where
  "create_job env j = call (CreateJob env j) (\<lambda>r. [EvCreateJob j r])"

definition create_configmap :: "'k Env \<Rightarrow> ConfigMap \<Rightarrow> ('k world, err option) state" where
  "create_configmap env cm = call (CreateConfigMap env cm) (\<lambda>r. [EvCreateConfigMap cm r])"

definition update_configmap :: "'k Env \<Rightarrow> ConfigMap \<Rightarrow> ('k world, err option) state" where
  "update_configmap env cm = call (UpdateConfigMap env cm) (\<lambda>r. [EvUpdateConfigMap cm r])"

definition list_pods :: "'k Env \<Rightarrow> string \<Rightarrow> string \<Rightarrow> ('k world, err + Pod list) state" where
  "list_pods env namespace jobName =
     call (ListPods env namespace [(''batch.kubernetes.io/job-name'', jobName)])
       (\<lambda>r. [EvListPods namespace jobName])"

text \<open>
  Opening and reading a pod's log: the first error is that of \<open>Stream\<close>, the second that of
  reading the stream.
\<close>

definition stream_pod_logs :: "'k Env \<Rightarrow> string \<Rightarrow> string \<Rightarrow> string \<Rightarrow> int64 \<Rightarrow> ('k world, err + err + string) state" where
  "stream_pod_logs env namespace pod container tailLines =
     call (StreamPodLogs env namespace pod container tailLines) (\<lambda>r. [EvPodLogs namespace pod container])"

definition poll_registry :: "'k Env \<Rightarrow> string \<Rightarrow> string \<Rightarrow> ('k world, string list \<times> string \<times> err option) state" where
  "poll_registry env url lastETag =
     call (RegistryListTags env url None lastETag) (\<lambda>(tags, etag, e). [EvPoll url lastETag tags e])"

definition now :: "'k Env \<Rightarrow> ('k world, time) state" where
  "now env = call (Now env) (\<lambda>_. [])"

definition rand_intn :: "'k Env \<Rightarrow> int \<Rightarrow> ('k world, int) state" where
  "rand_intn env n = call (RandIntn env n) (\<lambda>_. [])"

definition rand_read :: "'k Env \<Rightarrow> nat \<Rightarrow> ('k world, err + 8 word list) state" where
  "rand_read env n = call (RandRead env n) (\<lambda>_. [])"

lemmas client_defs = get_bundle_def update_bundle_def update_status_def get_service_account_def
  get_configmap_def get_secret_def get_job_def create_job_def create_configmap_def
  update_configmap_def list_pods_def stream_pod_logs_def poll_registry_def now_def rand_intn_def
  rand_read_def

section \<open>What a program emits\<close>

text \<open>
  \<open>emits m P\<close>: whatever the environment answers, running \<open>m\<close> extends the trace by
  some events \<open>es\<close> and returns some \<open>a\<close> with \<open>P a es\<close>.
\<close>

definition emits :: "('k world, 'a) state \<Rightarrow> ('a \<Rightarrow> event list \<Rightarrow> bool) \<Rightarrow> bool" where
  "emits m P \<longleftrightarrow> (\<forall>w. wp m (\<lambda>a w'. \<exists>es. trace w' = trace w @ es \<and> P a es) w)"

named_theorems emits_intros \<open>rules that reduce emits to its parts\<close>

lemma emitsI:
  "(\<And>w a w'. run_state m w = (a, w') \<Longrightarrow> \<exists>es. trace w' = trace w @ es \<and> P a es) \<Longrightarrow> emits m P"
  by (auto simp: emits_def wp_def split: prod.splits)

lemma emits_return [emits_intros]: "P a [] \<Longrightarrow> emits (State_Monad.return a) P"
  by (simp add: emits_def wp_simps)

lemma emits_call: "(\<And>a. P a (ev a)) \<Longrightarrow> emits (call f ev) P"
  by (auto simp: emits_def wp_simps split: prod.splits)

lemma emits_mono: "emits m P \<Longrightarrow> (\<And>a es. P a es \<Longrightarrow> Q a es) \<Longrightarrow> emits m Q"
  unfolding emits_def by (blast intro: wp_mono)

lemma emits_bind:
  fixes m :: "('k world, 'a) state"
  assumes "emits m R" "\<And>a es. R a es \<Longrightarrow> emits (f a) (\<lambda>b es'. P b (es @ es'))"
  shows "emits (State_Monad.bind m f) P"
  unfolding emits_def
proof
  fix w :: "'k world"
  have "wp m (\<lambda>a w'. \<exists>es. trace w' = trace w @ es \<and> R a es) w" using assms(1) by (simp add: emits_def)
  then show "wp (State_Monad.bind m f) (\<lambda>b w'. \<exists>es. trace w' = trace w @ es \<and> P b es) w"
  proof (rule wp_weaken_bind)
    fix a and w' :: "'k world"
    assume "\<exists>es. trace w' = trace w @ es \<and> R a es"
    then obtain es where es: "trace w' = trace w @ es" "R a es" by blast
    have "wp (f a) (\<lambda>b w''. \<exists>es'. trace w'' = trace w' @ es' \<and> P b (es @ es')) w'"
      using assms(2) [OF es(2)] by (simp add: emits_def)
    then show "wp (f a) (\<lambda>b w''. \<exists>es. trace w'' = trace w @ es \<and> P b es) w'"
      by (rule wp_mono) (auto simp: es(1))
  qed
qed

lemma emits_call_bind:
  "(\<And>a. emits (f a) (\<lambda>b es. P b (ev a @ es))) \<Longrightarrow> emits (State_Monad.bind (call g ev) f) P"
  by (rule emits_bind [where R = "\<lambda>a es. es = ev a"]) (auto intro: emits_call)

text \<open>The same with what the environment's answer satisfies.\<close>

lemma emits_call_answer: "(\<And>k a k'. g k = (a, k') \<Longrightarrow> P a (ev a)) \<Longrightarrow> emits (call g ev) P"
  by (simp add: emits_def wp_simps split: prod.splits)

lemma emits_call_answer_bind:
  "(\<And>k a k'. g k = (a, k') \<Longrightarrow> emits (f a) (\<lambda>b es. P b (ev a @ es))) \<Longrightarrow>
   emits (State_Monad.bind (call g ev) f) P"
  by (rule emits_bind [where R = "\<lambda>a es. es = ev a \<and> (\<exists>k k'. g k = (a, k'))"])
    (auto intro: emits_call_answer)

lemma emits_if [emits_intros]:
  "(b \<Longrightarrow> emits m P) \<Longrightarrow> (\<not> b \<Longrightarrow> emits n P) \<Longrightarrow> emits (if b then m else n) P"
  by simp

lemma emits_case_sum [emits_intros]:
  "(\<And>e. x = Inl e \<Longrightarrow> emits (f e) P) \<Longrightarrow> (\<And>a. x = Inr a \<Longrightarrow> emits (g a) P) \<Longrightarrow>
   emits (case x of Inl e \<Rightarrow> f e | Inr a \<Rightarrow> g a) P"
  by (cases x) auto

lemma emits_case_option [emits_intros]:
  "(x = None \<Longrightarrow> emits m P) \<Longrightarrow> (\<And>a. x = Some a \<Longrightarrow> emits (f a) P) \<Longrightarrow>
   emits (case x of None \<Rightarrow> m | Some a \<Rightarrow> f a) P"
  by (cases x) auto

lemma emits_case_prod [emits_intros]:
  "(\<And>a b. x = (a, b) \<Longrightarrow> emits (f a b) P) \<Longrightarrow> emits (case x of (a, b) \<Rightarrow> f a b) P"
  by (cases x) auto

lemma emits_case_outcome [emits_intros]:
  "(\<And>a. x = Ret a \<Longrightarrow> emits (f a) P) \<Longrightarrow> (\<And>msg. x = Panic msg \<Longrightarrow> emits (g msg) P) \<Longrightarrow>
   emits (case x of Ret a \<Rightarrow> f a | Panic msg \<Rightarrow> g msg) P"
  by (cases x) auto

lemma emits_run: "emits m P \<Longrightarrow> run_state m w = (a, w') \<Longrightarrow> \<exists>es. trace w' = trace w @ es \<and> P a es"
  unfolding emits_def by (blast dest: wp_run)

lemma emits_conj:
  assumes "emits m P" "emits m Q"
  shows "emits m (\<lambda>a es. P a es \<and> Q a es)"
  unfolding emits_def
proof
  fix w
  have "wp m (\<lambda>a w'. (\<exists>es. trace w' = trace w @ es \<and> P a es) \<and> (\<exists>es. trace w' = trace w @ es \<and> Q a es)) w"
    using assms by (intro wp_conj) (simp_all add: emits_def)
  then show "wp m (\<lambda>a w'. \<exists>es. trace w' = trace w @ es \<and> P a es \<and> Q a es) w"
    by (rule wp_mono) auto
qed

end
