(* ===== verification/Ctl_Status.thy ===== *)
theory Ctl_Status
  imports Kube_Env
begin

text \<open>
  The status writers of \<open>internal/controllers/werfbundle_controller.go\<close>. Go mutates the
  bundle and lets \<open>Status().Update\<close> overwrite it with the server's answer; here a writer
  returns that answer, or the error after which every caller drops the bundle. The locale
  \<open>status_writer\<close> is what the three writers share.
\<close>

section \<open>The model\<close>

definition updateStatusSyncing :: "'k Env \<Rightarrow> WerfBundle \<Rightarrow> string \<Rightarrow> ('k world, err + WerfBundle) state" where
  "updateStatusSyncing env wb tag =
     (let st = (Status wb)\<lparr>Phase := PhaseSyncing\<rparr>;
          st = (if tag \<noteq> '''' then st\<lparr>LastAppliedTag := tag\<rparr> else st);
          st = st\<lparr>LastErrorMessage := '''', LastSyncTime := None\<rparr>
      in update_status env (wb\<lparr>Status := st\<rparr>))"

definition updateStatusSynced :: "'k Env \<Rightarrow> WerfBundle \<Rightarrow> string \<Rightarrow> ('k world, err + WerfBundle) state" where
  "updateStatusSynced env wb tag =
     do {
       t \<leftarrow> now env;
       let st = (Status wb)\<lparr>Phase := PhaseSynced, LastAppliedTag := tag, LastErrorMessage := '''',
             LastSyncTime := Some t\<rparr>;
       update_status env (wb\<lparr>Status := st\<rparr>)
     }"

definition updateStatusFailed :: "'k Env \<Rightarrow> WerfBundle \<Rightarrow> string \<Rightarrow> ('k world, err + WerfBundle) state" where
  "updateStatusFailed env wb errMsg =
     update_status env (wb\<lparr>Status := (Status wb)\<lparr>Phase := PhaseFailed, LastErrorMessage := errMsg\<rparr>\<rparr>)"

section \<open>The API server\<close>

text \<open>
  Documented behaviour of the API server and of controller-runtime: a get returns the
  object of that key; a successful update returns the object as written, where an update of
  the object leaves its status to the server and an update of the status changes the status
  only; setting the controller reference changes nothing but the owner.
\<close>

definition same_object :: "WerfBundle \<Rightarrow> WerfBundle \<Rightarrow> bool" where
  "same_object wb wb' \<longleftrightarrow> Name wb' = Name wb \<and> Namespace wb' = Namespace wb \<and> UID wb' = UID wb
     \<and> Spec wb' = Spec wb"

definition server_keeps :: "'k Env \<Rightarrow> bool" where
  "server_keeps env \<longleftrightarrow>
     (\<forall>nk k wb k'. GetBundle env nk k = (Inr wb, k') \<longrightarrow> Name wb = NName nk \<and> Namespace wb = NNamespace nk) \<and>
     (\<forall>wb k wb' k'. UpdateBundle env wb k = (Inr wb', k') \<longrightarrow> same_object wb wb') \<and>
     (\<forall>wb k wb' k'. UpdateBundleStatus env wb k = (Inr wb', k') \<longrightarrow> same_object wb wb' \<and> Status wb' = Status wb) \<and>
     (\<forall>nk k job k'. GetJob env nk k = (Inr job, k') \<longrightarrow> JobName job = NName nk \<and> JobNamespace job = NNamespace nk) \<and>
     (\<forall>wb cm cm'. SetControllerReference env wb cm = Inr cm' \<longrightarrow>
        CmName cm' = CmName cm \<and> CmNamespace cm' = CmNamespace cm \<and> CmData cm' = CmData cm)"

lemma server_keepsD:
  assumes "server_keeps env"
  shows "GetBundle env nk k = (Inr wb, k') \<Longrightarrow> Name wb = NName nk \<and> Namespace wb = NNamespace nk"
    and "UpdateBundle env wb k = (Inr wb', k') \<Longrightarrow> same_object wb wb'"
    and "UpdateBundleStatus env wb k = (Inr wb', k') \<Longrightarrow> same_object wb wb' \<and> Status wb' = Status wb"
    and "GetJob env nk k = (Inr job, k') \<Longrightarrow> JobName job = NName nk \<and> JobNamespace job = NNamespace nk"
    and "SetControllerReference env wb cm = Inr cm' \<Longrightarrow>
      CmName cm' = CmName cm \<and> CmNamespace cm' = CmNamespace cm \<and> CmData cm' = CmData cm"
  using assms unfolding server_keeps_def by blast+

lemma same_object_refl [simp]: "same_object wb wb"
  by (simp add: same_object_def)

lemma same_object_status [simp]: "same_object (wb\<lparr>Status := st\<rparr>) wb' = same_object wb wb'"
  "same_object wb (wb'\<lparr>Status := st\<rparr>) = same_object wb wb'"
  by (simp_all add: same_object_def)

lemma same_object_finalizers [simp]: "same_object (wb\<lparr>Finalizers := fs\<rparr>) wb' = same_object wb wb'"
  by (simp add: same_object_def)

lemma same_object_trans: "same_object a b \<Longrightarrow> same_object b c \<Longrightarrow> same_object a c"
  by (simp add: same_object_def)

text \<open>A status update: one event; the answer is the bundle that was written.\<close>

lemma update_status_emits:
  assumes "server_keeps env"
  shows "emits (update_status env wb) (\<lambda>r es. es = [EvUpdateStatus wb (left r)] \<and>
    (\<forall>wb'. r = Inr wb' \<longrightarrow> same_object wb wb' \<and> Status wb' = Status wb))"
  unfolding update_status_def using server_keepsD(3) [OF assms] by (intro emits_call_answer) blast

section \<open>The interface\<close>

text \<open>The part of a status that no writer touches.\<close>

definition status_frame :: "WerfBundleStatus \<Rightarrow> WerfBundleStatus \<Rightarrow> bool" where
  "status_frame st st' \<longleftrightarrow>
     LastETag st' = LastETag st \<and> ConsecutiveFailures st' = ConsecutiveFailures st \<and>
     LastErrorTime st' = LastErrorTime st \<and> ActiveJobName st' = ActiveJobName st \<and>
     LastJobStatus st' = LastJobStatus st \<and> LastJobLogs st' = LastJobLogs st \<and>
     ResolvedTargetNamespace st' = ResolvedTargetNamespace st"

text \<open>What a writer of the given phase writes over the status of a bundle.\<close>

definition written :: "string \<Rightarrow> WerfBundle \<Rightarrow> WerfBundleStatus \<Rightarrow> bool" where
  "written phase wb st \<longleftrightarrow> Phase st = phase \<and> status_frame (Status wb) st"

locale status_writer =
  fixes put_status :: "'k Env \<Rightarrow> WerfBundle \<Rightarrow> string \<Rightarrow> ('k world, err + WerfBundle) state"
    and phase :: string and tag_of :: "string \<Rightarrow> string \<Rightarrow> string" and message_of :: "string \<Rightarrow> string"
  assumes writes: "server_keeps env \<Longrightarrow> emits (put_status env wb arg) (\<lambda>r es. \<exists>st.
      es = [EvUpdateStatus (wb\<lparr>Status := st\<rparr>) (left r)] \<and> written phase wb st \<and>
      LastAppliedTag st = tag_of arg (LastAppliedTag (Status wb)) \<and>
      LastErrorMessage st = message_of arg \<and>
      (\<forall>wb'. r = Inr wb' \<longrightarrow> same_object wb wb' \<and> Status wb' = st))"
begin

text \<open>
  How a caller goes on: with the error and nothing else, or with the same object whose
  status is what was written.
\<close>

lemma write_then:
  assumes "server_keeps env"
    and "\<And>st e. written phase wb st \<Longrightarrow>
      LastAppliedTag st = tag_of arg (LastAppliedTag (Status wb)) \<Longrightarrow> LastErrorMessage st = message_of arg \<Longrightarrow>
      emits (f (Inl e)) (\<lambda>b es. P b (EvUpdateStatus (wb\<lparr>Status := st\<rparr>) (Some e) # es))"
    and "\<And>st wb'. written phase wb st \<Longrightarrow>
      LastAppliedTag st = tag_of arg (LastAppliedTag (Status wb)) \<Longrightarrow> LastErrorMessage st = message_of arg \<Longrightarrow>
      same_object wb wb' \<Longrightarrow> Status wb' = st \<Longrightarrow>
      emits (f (Inr wb')) (\<lambda>b es. P b (EvUpdateStatus (wb\<lparr>Status := st\<rparr>) None # es))"
  shows "emits (State_Monad.bind (put_status env wb arg) f) P"
proof (rule emits_bind [OF writes [OF assms(1)]])
  fix r :: "err + WerfBundle" and es
  assume "\<exists>st. es = [EvUpdateStatus (wb\<lparr>Status := st\<rparr>) (left r)] \<and> written phase wb st \<and>
      LastAppliedTag st = tag_of arg (LastAppliedTag (Status wb)) \<and> LastErrorMessage st = message_of arg \<and>
      (\<forall>wb'. r = Inr wb' \<longrightarrow> same_object wb wb' \<and> Status wb' = st)"
  then show "emits (f r) (\<lambda>b es'. P b (es @ es'))"
    using assms(2,3) by (cases r) fastforce+
qed

end

interpretation syncing: status_writer updateStatusSyncing PhaseSyncing
  "\<lambda>tag old. if tag \<noteq> '''' then tag else old" "\<lambda>tag. ''''"
  unfolding updateStatusSyncing_def Let_def
  by unfold_locales
    (rule emits_mono [OF update_status_emits], assumption, auto simp: written_def status_frame_def)

interpretation synced: status_writer updateStatusSynced PhaseSynced "\<lambda>tag old. tag" "\<lambda>tag. ''''"
  unfolding updateStatusSynced_def Let_def now_def
  by unfold_locales
    (rule emits_call_bind, simp, rule emits_mono [OF update_status_emits], assumption,
      auto simp: written_def status_frame_def)

interpretation failed: status_writer updateStatusFailed PhaseFailed "\<lambda>msg old. old" "\<lambda>msg. msg"
  unfolding updateStatusFailed_def Let_def
  by unfold_locales
    (rule emits_mono [OF update_status_emits], assumption, auto simp: written_def status_frame_def)

end
