(* ===== verification/Go_Time.thy ===== *)
theory Go_Time
  imports Go_Text
begin

text \<open>
  \<open>time.ParseDuration\<close> of Go's standard library, which \<open>Reconcile\<close> applies to the
  \<open>pollInterval\<close> of a bundle. The error text is only logged there, so a failure is
  \<open>None\<close>. The one step in floating point, the fraction of a unit, is the parameter
  \<open>frac\<close>: the nanoseconds of \<open>f / 10 ^ k\<close> of a unit.
\<close>

definition is_digit :: "char \<Rightarrow> bool" where
  "is_digit c = (48 \<le> (of_char c :: nat) \<and> (of_char c :: nat) \<le> 57)"

definition is_number_char :: "char \<Rightarrow> bool" where
  "is_number_char c = (c = CHR ''.'' \<or> is_digit c)"

text \<open>\<open>unitMap\<close>; the micro sign and the Greek letter mu are two bytes each.\<close>

definition unit_nanos :: "string \<Rightarrow> int option" where
  "unit_nanos u =
     (if u = ''ns'' then Some 1
      else if u = ''us'' \<or> u = [CHR 0xC2, CHR 0xB5, CHR ''s''] \<or> u = [CHR 0xCE, CHR 0xBC, CHR ''s'']
        then Some 1000
      else if u = ''ms'' then Some 1000000
      else if u = ''s'' then Some second
      else if u = ''m'' then Some minute
      else if u = ''h'' then Some hour
      else None)"

text \<open>
  \<open>leadingFraction\<close>: the digits after the point, as far as they fit, and how many those
  are; \<open>stop\<close> is its overflow flag.
\<close>

fun leading_fraction :: "string \<Rightarrow> nat \<Rightarrow> nat \<Rightarrow> bool \<Rightarrow> nat \<times> nat" where
  "leading_fraction [] x k stop = (x, k)"
| "leading_fraction (c # cs) x k stop =
     (if stop then leading_fraction cs x k True
      else if (2 ^ 63 - 1) div 10 < x then leading_fraction cs x k True
      else let y = x * 10 + digit_val c
           in if 2 ^ 63 < y then leading_fraction cs x k True else leading_fraction cs y (Suc k) False)"

text \<open>One turn of the loop: the nanoseconds of the next number and unit, and the rest.\<close>

definition next_term :: "(nat \<Rightarrow> nat \<Rightarrow> int \<Rightarrow> int) \<Rightarrow> string \<Rightarrow> (int \<times> string) option" where
  "next_term frac s =
     (if s = [] \<or> \<not> is_number_char (hd s) then None
      else let digits = takeWhile is_digit s; s1 = dropWhile is_digit s; v = radix_val 10 digits
      in if 2 ^ 63 < v then None
      else let after = (case s1 of c # r \<Rightarrow> if c = CHR ''.'' then Some r else None | [] \<Rightarrow> None);
               post = (case after of Some r \<Rightarrow> takeWhile is_digit r | None \<Rightarrow> []);
               s2 = (case after of Some r \<Rightarrow> dropWhile is_digit r | None \<Rightarrow> s1)
      in if digits = [] \<and> post = [] then None
      else let u = takeWhile (\<lambda>c. \<not> is_number_char c) s2;
               s3 = dropWhile (\<lambda>c. \<not> is_number_char c) s2
      in if u = [] then None
      else (case unit_nanos u of
              None \<Rightarrow> None
            | Some unit \<Rightarrow>
                if 2 ^ 63 div unit < int v then None
                else (case leading_fraction post 0 0 False of (f, k) \<Rightarrow>
                  let v' = int v * unit + (if 0 < f then frac f k unit else 0)
                  in if 0 < f \<and> 2 ^ 63 < v' then None else Some (v', s3))))"

lemma next_term_shorter: "next_term frac s = Some (v, s') \<Longrightarrow> length s' < length s"
proof -
  assume some: "next_term frac s = Some (v, s')"
  define s1 where "s1 = dropWhile is_digit s"
  define after where "after = (case s1 of c # r \<Rightarrow> if c = CHR ''.'' then Some r else None | [] \<Rightarrow> None)"
  define s2 where "s2 = (case after of Some r \<Rightarrow> dropWhile is_digit r | None \<Rightarrow> s1)"
  have "length s1 \<le> length s" by (simp add: s1_def length_dropWhile_le)
  moreover have "length s2 \<le> length s1"
    by (auto simp: s2_def after_def split: list.splits option.splits if_splits
        intro: le_SucI length_dropWhile_le)
  moreover have "s' = dropWhile (\<lambda>c. \<not> is_number_char c) s2" "takeWhile (\<lambda>c. \<not> is_number_char c) s2 \<noteq> []"
    using some unfolding next_term_def Let_def s2_def after_def s1_def
    by (auto split: if_splits option.splits prod.splits)
  moreover have "length (takeWhile P xs) + length (dropWhile P xs) = length xs" for P and xs :: string
    by (metis length_append takeWhile_dropWhile_id)
  ultimately show ?thesis by (metis add_less_same_cancel1 length_greater_0_conv less_le_trans
        add.commute less_add_same_cancel1)
qed

function parse_terms :: "(nat \<Rightarrow> nat \<Rightarrow> int \<Rightarrow> int) \<Rightarrow> string \<Rightarrow> int \<Rightarrow> int option" where
  "parse_terms frac s d =
     (if s = [] then Some d
      else case next_term frac s of
             None \<Rightarrow> None
           | Some (v, s') \<Rightarrow>
               let d' = (d + v) mod 2 ^ 64
               in if 2 ^ 63 < d' then None else parse_terms frac s' d')"
  by pat_completeness auto
termination
  by (relation "measure (\<lambda>(frac, s, d). length s)") (auto dest: next_term_shorter)

declare parse_terms.simps [simp del]

definition ParseDuration :: "(nat \<Rightarrow> nat \<Rightarrow> int \<Rightarrow> int) \<Rightarrow> string \<Rightarrow> duration option" where
  "ParseDuration frac s =
     (let neg = (s \<noteq> [] \<and> hd s = CHR ''-'');
          s = (if s \<noteq> [] \<and> (hd s = CHR ''-'' \<or> hd s = CHR ''+'') then tl s else s)
      in if s = ''0'' then Some 0
         else if s = [] then None
         else (case parse_terms frac s 0 of
                 None \<Rightarrow> None
               | Some d \<Rightarrow>
                   if neg then Some (word_of_int (- d))
                   else if 2 ^ 63 - 1 < d then None
                   else Some (word_of_int d)))"

section \<open>A number with a unit\<close>

lemma digit_char_is_digit: "d < 10 \<Longrightarrow> is_digit (digit_char d)"
  by (simp add: is_digit_def digit_char_def of_char_of take_bit_eq_mod)

lemma radix_digits: "b = 10 \<Longrightarrow> c \<in> set (radix b n) \<Longrightarrow> is_digit c"
proof (induction b n rule: radix.induct)
  case (1 b n)
  then show ?case
    by (cases "n < b") (auto simp: radix_small radix_step digit_char_is_digit)
qed

lemma dec_nat_digits: "c \<in> set (dec_nat n) \<Longrightarrow> is_digit c"
  by (simp add: dec_nat_def radix_digits)

lemma dec_nat_nonempty: "dec_nat n \<noteq> []"
  by (metis dec_nat_def length_greater_0_conv radix_length_pos)

definition duration_units :: "string list" where
  "duration_units = [''ns'', ''us'', ''ms'', ''s'', ''m'', ''h'']"

lemma duration_unit_chars:
  "u \<in> set duration_units \<Longrightarrow> u \<noteq> [] \<and> (\<forall>c \<in> set u. \<not> is_number_char c) \<and> unit_nanos u \<noteq> None"
  by (auto simp: duration_units_def is_number_char_def is_digit_def unit_nanos_def)

lemma unit_nanos_pos: "unit_nanos u = Some unit \<Longrightarrow> 0 < unit"
  by (auto simp: unit_nanos_def split: if_splits)

lemma next_term_number:
  assumes u: "u \<in> set duration_units" "unit_nanos u = Some unit" and fits: "int n * unit < 2 ^ 63"
  shows "next_term frac (dec_nat n @ u) = Some (int n * unit, [])"
proof -
  have chars: "u \<noteq> []" "\<forall>c \<in> set u. \<not> is_number_char c" using duration_unit_chars [OF u(1)] by auto
  then have nodigit: "\<forall>c \<in> set u. \<not> is_digit c" "\<forall>c \<in> set u. c \<noteq> CHR ''.''" by (auto simp: is_number_char_def)
  have digits: "\<forall>c \<in> set (dec_nat n). is_digit c" using dec_nat_digits by blast
  have split: "takeWhile is_digit (dec_nat n @ u) = dec_nat n" "dropWhile is_digit (dec_nat n @ u) = u"
    using digits nodigit(1) chars(1) by (cases u; simp add: takeWhile_append2 dropWhile_append2)+
  have u_split: "takeWhile (\<lambda>c. \<not> is_number_char c) u = u" "dropWhile (\<lambda>c. \<not> is_number_char c) u = []"
    using chars(2) by (simp_all add: takeWhile_eq_all_conv)
  have after: "(case u of [] \<Rightarrow> None | c # r \<Rightarrow> if c = CHR ''.'' then Some r else None) = None"
    using nodigit(2) by (cases u) auto
  have val: "radix_val 10 (dec_nat n) = n" by (simp add: dec_nat_def radix_val_radix)
  have unit: "0 < unit" by (rule unit_nanos_pos [OF u(2)])
  have hd: "is_number_char (hd (dec_nat n @ u))" using digits dec_nat_nonempty [of n]
    by (simp add: is_number_char_def hd_append)
  have "int n \<le> int n * unit" using unit by (simp add: mult_le_cancel_left1)
  then have small: "\<not> 2 ^ 63 < n" using fits by simp
  have "int n * unit div unit \<le> 2 ^ 63 div unit" using fits unit by (intro zdiv_mono1) simp_all
  then have bound: "\<not> 2 ^ 63 div unit < int n" using unit by simp
  show ?thesis
    unfolding next_term_def Let_def split val after u_split
    using hd small bound chars(1) u(2) dec_nat_nonempty [of n] by (simp add: after u_split)
qed

lemma ParseDuration_number:
  assumes u: "u \<in> set duration_units" "unit_nanos u = Some unit" and fits: "int n * unit < 2 ^ 63"
  shows "ParseDuration frac (dec_nat n @ u) = Some (word_of_int (int n * unit))"
proof -
  let ?s = "dec_nat n @ u"
  have "is_digit (hd ?s)" using dec_nat_digits [of "hd (dec_nat n)" n] dec_nat_nonempty [of n] by (simp add: hd_append)
  then have sign: "hd ?s \<noteq> CHR ''-''" "hd ?s \<noteq> CHR ''+''" by (auto simp: is_digit_def)
  have "last ?s = last u" using duration_unit_chars [OF u(1)] by simp
  moreover have "last u \<noteq> CHR ''0''" using u(1) by (auto simp: duration_units_def)
  ultimately have zero: "?s \<noteq> ''0''" by force
  have "0 \<le> int n * unit" using unit_nanos_pos [OF u(2)] by simp
  then have "parse_terms frac ?s 0 = Some (int n * unit)"
    using next_term_number [OF assms] fits dec_nat_nonempty [of n]
    by (simp add: parse_terms.simps [of frac ?s] parse_terms.simps [of frac "[]"])
  then show ?thesis using sign zero fits dec_nat_nonempty [of n] by (simp add: ParseDuration_def Let_def)
qed

end
