(* ===== verification/Reg_Backoff.thy ===== *)
theory Reg_Backoff
  imports Kube_Env Go_Time
begin

text \<open>
  \<open>internal/registry/backoff.go\<close>: the delay before the next registry poll after
  consecutive failures, and the random jitter of the poll interval. Both compute with
  64-bit signed durations, so the model keeps the width.
\<close>

section \<open>Exponential backoff\<close>

definition baseDuration :: duration where "baseDuration = duration_of (30 * second)"
definition maxDuration :: duration where "maxDuration = duration_of (8 * minute)"

definition CalculateBackoff :: "int32 \<Rightarrow> duration" where
  "CalculateBackoff consecutiveFailures =
     (if sint consecutiveFailures \<le> 0 then baseDuration
      else let multiplier = push_bit (nat (sint consecutiveFailures)) (1 :: int64);
               dur = baseDuration * multiplier
           in if sint maxDuration < sint dur then maxDuration else dur)"

text \<open>The intended schedule, over the integers.\<close>

definition backoff_spec :: "nat \<Rightarrow> int" where
  "backoff_spec f = min (30 * 2 ^ f) 480 * second"

lemma baseDuration_sint: "sint baseDuration = 30 * second"
  by (simp add: baseDuration_def)

lemma maxDuration_sint: "sint maxDuration = 480 * second"
  by (simp add: maxDuration_def)

lemma backoff_product:
  assumes "f \<le> 28"
  shows "sint (baseDuration * push_bit f (1 :: int64)) = 30 * 2 ^ f * second"
proof -
  have product: "baseDuration * push_bit f (1 :: int64) = word_of_int (30 * 2 ^ f * second)"
    by (simp add: baseDuration_def push_bit_eq_mult)
  have "(2::int) ^ f \<le> 2 ^ 28" using assms by (intro power_increasing) simp_all
  then have "30 * 2 ^ f * second < 2 ^ 63" by simp
  moreover have "- (2 ^ 63) \<le> 30 * 2 ^ f * second" by (rule order_trans [of _ 0]) simp_all
  ultimately show ?thesis unfolding product by (intro sint_word_of_int_64)
qed

lemma CalculateBackoff_small:
  assumes "0 \<le> sint f" "sint f \<le> 28"
  shows "sint (CalculateBackoff f) = backoff_spec (nat (sint f))"
proof (cases "sint f = 0")
  case True
  then show ?thesis by (simp add: CalculateBackoff_def baseDuration_sint backoff_spec_def)
next
  case False
  have "sint (baseDuration * push_bit (nat (sint f)) (1 :: int64)) = 30 * 2 ^ nat (sint f) * second"
    using assms by (intro backoff_product) simp
  with False assms show ?thesis
    by (simp add: CalculateBackoff_def Let_def maxDuration_sint backoff_spec_def min_def)
qed

lemma backoff_spec_mono: "f \<le> g \<Longrightarrow> backoff_spec f \<le> backoff_spec g"
  unfolding backoff_spec_def
  by (intro mult_right_mono min.mono) (simp_all add: power_increasing)

lemma backoff_spec_bounds: "30 * second \<le> backoff_spec f \<and> backoff_spec f \<le> 8 * minute"
proof -
  have "(1::int) \<le> 2 ^ f" by simp
  then show ?thesis by (simp add: backoff_spec_def min_def)
qed

section \<open>Jitter\<close>

text \<open>\<open>interval / 10\<close>; the interval is positive there, so rounding does not matter.\<close>

definition jitter_amount :: "duration \<Rightarrow> duration" where
  "jitter_amount interval = word_of_int (sint interval div 10)"

text \<open>\<open>rand.Intn\<close> panics unless its argument is positive.\<close>

definition AddJitter :: "'k Env \<Rightarrow> duration \<Rightarrow> ('k world, duration outcome) state" where
  "AddJitter env interval =
     (if sint interval \<le> 0 then State_Monad.return (Ret interval)
      else let jitterAmount = jitter_amount interval; n = sint (2 * jitterAmount)
           in if n \<le> 0 then State_Monad.return (Panic ''invalid argument to Intn'')
              else do {
                r \<leftarrow> rand_intn env n;
                State_Monad.return (Ret (interval + (word_of_int r - jitterAmount)))
              })"

text \<open>Documented behaviour of \<open>rand.Intn\<close>.\<close>

definition rand_in_range :: "'k Env \<Rightarrow> bool" where
  "rand_in_range env \<longleftrightarrow> (\<forall>n k. 0 < n \<longrightarrow> 0 \<le> fst (RandIntn env n k) \<and> fst (RandIntn env n k) < n)"

lemma jitter_amount_sint:
  assumes "0 < sint interval"
  shows "sint (jitter_amount interval) = sint interval div 10"
    and "sint (2 * jitter_amount interval) = 2 * (sint interval div 10)"
proof -
  have range: "sint interval < 2 ^ 63" using sint_range_64 by blast
  have j: "0 \<le> sint interval div 10" "sint interval div 10 < 2 ^ 60" using assms range by simp_all
  then show "sint (jitter_amount interval) = sint interval div 10"
    unfolding jitter_amount_def by (intro sint_word_of_int_64) simp_all
  have double: "2 * jitter_amount interval = word_of_int (2 * (sint interval div 10))"
    by (simp add: jitter_amount_def)
  show "sint (2 * jitter_amount interval) = 2 * (sint interval div 10)"
    unfolding double using j by (intro sint_word_of_int_64) simp_all
qed

lemma AddJitter_range:
  assumes rand: "rand_in_range env" and lo: "10 \<le> sint interval" and hi: "11 * sint interval < 10 * 2 ^ 63"
  shows "wp (AddJitter env interval) (\<lambda>r w'. \<exists>d. r = Ret d \<and>
    sint interval - sint interval div 10 \<le> sint d \<and> sint d < sint interval + sint interval div 10) w"
proof -
  let ?j = "sint interval div 10"
  have j: "sint (2 * jitter_amount interval) = 2 * ?j" "1 \<le> ?j" using jitter_amount_sint [of interval] lo by auto
  obtain r k where r: "RandIntn env (2 * ?j) (cluster w) = (r, k)" by fastforce
  have r_range: "0 \<le> r" "r < 2 * ?j" using rand j(2) r unfolding rand_in_range_def
    by (metis fst_conv linorder_not_less mult_2 not_one_le_zero zero_less_double_add_iff_zero_less_single_add
        less_le_trans zero_less_one)+
  have "interval + (word_of_int r - jitter_amount interval) = word_of_int (sint interval + (r - ?j))"
    by (simp add: jitter_amount_def)
  moreover have "- (2 ^ 63) \<le> sint interval + (r - ?j)" "sint interval + (r - ?j) < 2 ^ 63"
    using r_range lo hi by simp_all
  ultimately have "sint (interval + (word_of_int r - jitter_amount interval)) = sint interval + (r - ?j)"
    by (simp only: sint_word_of_int_64)
  then show ?thesis using lo j r r_range
    by (simp add: AddJitter_def Let_def rand_intn_def wp_simps)
qed

text \<open>Within a tenth of the interval, if the random source keeps its range and nothing wraps around.\<close>

definition near_interval :: "'k Env \<Rightarrow> duration \<Rightarrow> duration \<Rightarrow> bool" where
  "near_interval env i d \<longleftrightarrow>
     (rand_in_range env \<longrightarrow> 10 \<le> sint i \<longrightarrow> 11 * sint i < 10 * 2 ^ 63 \<longrightarrow>
        sint i - sint i div 10 \<le> sint d \<and> sint d < sint i + sint i div 10)"

lemma AddJitter_emits:
  "emits (AddJitter env interval) (\<lambda>r es. es = [] \<and>
     (case r of Panic msg \<Rightarrow> 0 < sint interval \<and> sint interval < 10
      | Ret d \<Rightarrow> \<not> (0 < sint interval \<and> sint interval < 10) \<and> near_interval env interval d))"
proof -
  have "emits (AddJitter env interval) (\<lambda>r es. es = [] \<and>
     (case r of Panic msg \<Rightarrow> 0 < sint interval \<and> sint interval < 10 | Ret d \<Rightarrow> \<not> (0 < sint interval \<and> sint interval < 10)))"
    unfolding AddJitter_def Let_def rand_intn_def
    by (intro emits_intros emits_call_bind) (auto simp: jitter_amount_sint)
  moreover have "emits (AddJitter env interval) (\<lambda>r es. es = [] \<and> (\<forall>d. r = Ret d \<longrightarrow> near_interval env interval d))"
  proof (cases "rand_in_range env \<and> 10 \<le> sint interval \<and> 11 * sint interval < 10 * 2 ^ 63")
    case True
    show ?thesis
    proof (rule emitsI)
      fix w r w'
      assume run: "run_state (AddJitter env interval) w = (r, w')"
      from emits_run [OF calculation this] obtain es where es: "trace w' = trace w @ es" "es = []" by blast
      from wp_run [OF AddJitter_range run] True have "\<forall>d. r = Ret d \<longrightarrow> near_interval env interval d"
        by (auto simp: near_interval_def)
      with es show "\<exists>es. trace w' = trace w @ es \<and> es = [] \<and> (\<forall>d. r = Ret d \<longrightarrow> near_interval env interval d)" by blast
    qed
  next
    case False
    then show ?thesis by (intro emits_mono [OF calculation]) (auto simp: near_interval_def)
  qed
  ultimately show ?thesis
    by (rule emits_mono [OF emits_conj]) (auto split: outcome.splits)
qed

section \<open>Properties\<close>

text \<open>
  C34: up to 28 consecutive failures the delay is the intended schedule: half a minute doubled
  for every failure and capped at eight minutes; it never shrinks with more failures. Beyond
  that the 64-bit product wraps around: the delay after 29 failures is negative, and from 54
  failures on it is zero.
\<close>

theorem backoff_schedule:
  "(0 \<le> sint f \<and> sint f \<le> 28 \<longrightarrow>
      sint (CalculateBackoff f) = min (30 * 2 ^ nat (sint f)) 480 * second) \<and>
   (m \<le> n \<longrightarrow> backoff_spec m \<le> backoff_spec n \<and> 30 * second \<le> backoff_spec m \<and> backoff_spec n \<le> 8 * minute) \<and>
   sint (CalculateBackoff 29) < 0 \<and> (54 \<le> sint f \<longrightarrow> CalculateBackoff f = 0)"
proof (intro conjI impI)
  assume "0 \<le> sint f \<and> sint f \<le> 28"
  then show "sint (CalculateBackoff f) = min (30 * 2 ^ nat (sint f)) 480 * second"
    using CalculateBackoff_small [of f] by (simp add: backoff_spec_def)
next
  assume "m \<le> n"
  then show "backoff_spec m \<le> backoff_spec n" "30 * second \<le> backoff_spec m" "backoff_spec n \<le> 8 * minute"
    using backoff_spec_mono backoff_spec_bounds by blast+
next
  show "sint (CalculateBackoff 29) < 0"
    by (simp add: CalculateBackoff_def baseDuration_def maxDuration_def push_bit_eq_mult)
next
  assume f: "54 \<le> sint f"
  define k where "k = nat (sint f) - 54"
  have exp: "nat (sint f) = 54 + k" using f by (simp add: k_def nat_le_iff)
  have "baseDuration * push_bit (nat (sint f)) (1 :: int64) = word_of_int (30 * second * 2 ^ 54) * 2 ^ k"
    by (simp add: baseDuration_def push_bit_eq_mult exp power_add)
  also have "(word_of_int (30 * second * 2 ^ 54) :: int64) = 0" by simp
  finally show "CalculateBackoff f = 0" using f by (simp add: CalculateBackoff_def Let_def maxDuration_sint)
qed

lemma backoff_schedule_witness:
  "sint (CalculateBackoff 3) = 240 * second \<and> backoff_spec 2 \<le> backoff_spec 3 \<and> CalculateBackoff 54 = 0"
  using backoff_schedule [of 3 2 3] backoff_schedule [of 54 0 0] by simp

text \<open>
  Adding jitter makes no API call, leaves intervals that are not positive alone, and
  panics exactly for positive intervals under ten nanoseconds, where a tenth of the
  interval is zero.
\<close>

lemma jitter_panics_iff:
  "emits (AddJitter env interval) (\<lambda>r es. es = [] \<and>
     ((\<exists>msg. r = Panic msg) \<longleftrightarrow> 0 < sint interval \<and> sint interval < 10) \<and>
     (if sint interval \<le> 0 then r = Ret interval else True))"
proof (cases "sint interval \<le> 0")
  case True
  then show ?thesis by (auto simp: AddJitter_def intro!: emits_return)
next
  case False
  then show ?thesis by (intro emits_mono [OF AddJitter_emits]) (auto split: outcome.splits)
qed

end
