(* ===== verification/Reg_Transport.thy ===== *)
theory Reg_Transport
  imports Go_Errors
begin

text \<open>
  \<open>internal/registry/etag_transport.go\<close>: the HTTP transport wrapper that adds
  conditional requests, captures ETags and turns HTTP status codes into the registry's
  error types. The wrapped transport is a parameter \<open>base\<close> over a network state \<open>'n\<close>.
\<close>

section \<open>HTTP headers\<close>

text \<open>
  \<open>http.Header\<close>: lists of values under canonical keys. \<open>CanonicalHeaderKey\<close> is applied
  to the two constant keys of the source only.
\<close>

type_synonym Header = "string \<rightharpoonup> string list"

definition to_upper :: "char \<Rightarrow> char" where
  "to_upper c = (let n = (of_char c :: nat) in if 97 \<le> n \<and> n \<le> 122 then char_of (n - 32) else c)"

definition to_lower :: "char \<Rightarrow> char" where
  "to_lower c = (let n = (of_char c :: nat) in if 65 \<le> n \<and> n \<le> 90 then char_of (n + 32) else c)"

fun canonical :: "bool \<Rightarrow> string \<Rightarrow> string" where
  "canonical upper [] = []"
| "canonical upper (c # cs) = (if upper then to_upper c else to_lower c) # canonical (c = CHR ''-'') cs"

definition CanonicalHeaderKey :: "string \<Rightarrow> string" where
  "CanonicalHeaderKey s = canonical True s"

definition Header_Set :: "Header \<Rightarrow> string \<Rightarrow> string \<Rightarrow> Header" where
  "Header_Set h k v = h(CanonicalHeaderKey k \<mapsto> [v])"

definition Header_Get :: "Header \<Rightarrow> string \<Rightarrow> string" where
  "Header_Get h k = (case h (CanonicalHeaderKey k) of Some (v # _) \<Rightarrow> v | _ \<Rightarrow> '''')"

lemma Header_Get_Set_same [simp]: "Header_Get (Header_Set h k v) k = v"
  by (simp add: Header_Get_def Header_Set_def)

lemma Header_Get_Set_other:
  "CanonicalHeaderKey k \<noteq> CanonicalHeaderKey l \<Longrightarrow> Header_Get (Header_Set h k v) l = Header_Get h l"
  by (simp add: Header_Get_def Header_Set_def)

record HttpRequest =
  ReqMethod :: string
  ReqURL :: string
  ReqHeader :: Header

record HttpResponse =
  StatusCode :: int
  RespHeader :: Header
  Body :: string

text \<open>\<open>http.StatusText\<close> of the codes that the transport reports.\<close>

definition StatusText :: "int \<Rightarrow> string" where
  "StatusText code =
     (if code = 401 then ''Unauthorized''
      else if code = 403 then ''Forbidden''
      else if code = 404 then ''Not Found''
      else if code = 500 then ''Internal Server Error''
      else if code = 502 then ''Bad Gateway''
      else if code = 503 then ''Service Unavailable''
      else if code = 504 then ''Gateway Timeout''
      else '''')"

section \<open>The transport\<close>

record etagRoundTripper =
  lastETag :: string
  capturedETag :: string

definition newETagRoundTripper :: "string \<Rightarrow> etagRoundTripper" where
  "newETagRoundTripper prevETag = \<lparr>lastETag = prevETag, capturedETag = ''''\<rparr>"

definition http_error :: "int \<Rightarrow> err" where
  "http_error code = ErrorString (''HTTP '' @ dec_int code @ '': '' @ StatusText code)"

text \<open>The switch on the status code: \<open>None\<close> where the response is passed on.\<close>

definition status_error :: "int \<Rightarrow> err option" where
  "status_error code =
     (if code = 304 then Some NotModifiedError
      else if code = 404 then Some (NotFoundError (http_error code))
      else if code = 401 \<or> code = 403 then Some (AuthError (http_error code))
      else if code = 502 \<or> code = 503 \<or> code = 504 then Some (NetworkError (http_error code))
      else if code = 500 then Some (NetworkError (http_error code))
      else None)"

definition RoundTrip ::
  "(HttpRequest \<Rightarrow> 'n \<Rightarrow> (err + HttpResponse) \<times> 'n) \<Rightarrow> HttpRequest \<Rightarrow>
   (etagRoundTripper \<times> 'n, err + HttpResponse) state" where
  "RoundTrip base req = State (\<lambda>(t, n).
     let req = (if lastETag t \<noteq> ''''
                then req\<lparr>ReqHeader := Header_Set (ReqHeader req) ''If-None-Match'' (lastETag t)\<rparr> else req)
     in case base req n of
          (Inl e, n) \<Rightarrow> (Inl e, (t, n))
        | (Inr resp, n) \<Rightarrow>
            let etag = Header_Get (RespHeader resp) ''ETag'';
                t = (if etag \<noteq> '''' then t\<lparr>capturedETag := etag\<rparr> else t)
            in (case status_error (StatusCode resp) of
                  Some e \<Rightarrow> (Inl e, (t, n))
                | None \<Rightarrow> (Inr resp, (t, n))))"

definition CapturedETag :: "etagRoundTripper \<Rightarrow> string" where
  "CapturedETag t = capturedETag t"

text \<open>The ETag that test clients make for a tag list.\<close>

definition GenerateFakeETag :: "string list \<Rightarrow> string" where
  "GenerateFakeETag tags =
     (if length tags = 0 then [CHR 0x22] @ ''empty'' @ [CHR 0x22]
      else [CHR 0x22] @ ''tags-'' @ dec_nat (length tags) @ ''-'' @ hd tags @ ''-''
        @ tags ! (length tags - 1) @ [CHR 0x22])"

section \<open>What one round trip does\<close>

text \<open>The request that reaches the wrapped transport.\<close>

definition conditional_request :: "string \<Rightarrow> HttpRequest \<Rightarrow> HttpRequest" where
  "conditional_request prevETag req =
     (if prevETag = '''' then req else req\<lparr>ReqHeader := Header_Set (ReqHeader req) ''If-None-Match'' prevETag\<rparr>)"

lemma RoundTrip_eq:
  "run_state (RoundTrip base req) (t, n) =
     (case base (conditional_request (lastETag t) req) n of
        (Inl e, n') \<Rightarrow> (Inl e, (t, n'))
      | (Inr resp, n') \<Rightarrow>
          ((case status_error (StatusCode resp) of Some e \<Rightarrow> Inl e | None \<Rightarrow> Inr resp),
           (t\<lparr>capturedETag := (if Header_Get (RespHeader resp) ''ETag'' = '''' then capturedETag t
               else Header_Get (RespHeader resp) ''ETag'')\<rparr>, n')))"
  by (auto simp: RoundTrip_def conditional_request_def Let_def split: sum.splits prod.splits option.splits)

lemma status_error_None_iff:
  "status_error code = None \<longleftrightarrow> code \<notin> {304, 401, 403, 404, 500, 502, 503, 504}"
  by (auto simp: status_error_def)

lemma status_error_NotModified_iff: "status_error code = Some NotModifiedError \<longleftrightarrow> code = 304"
  by (auto simp: status_error_def)

section \<open>Properties\<close>


definition demo_base :: "HttpRequest \<Rightarrow> unit \<Rightarrow> (err + HttpResponse) \<times> unit" where
  "demo_base req n = (Inr \<lparr>StatusCode = (if Header_Get (ReqHeader req) ''If-None-Match'' = ''v1'' then 304 else 200),
     RespHeader = Header_Set Map.empty ''ETag'' ''v1'', Body = ''''\<rparr>, n)"


end
