(* ===== verification/Reg_Client.thy ===== *)
theory Reg_Client
  imports Reg_Transport Kube_Env
begin

text \<open>
  \<open>internal/registry/client.go\<close>: the OCI registry client. The functions of
  go-containerregistry it calls, \<open>name.NewRepository\<close> and \<open>remote.List\<close>, and
  \<open>http.DefaultTransport\<close> are the fields of the parameter \<open>Remote\<close>. The locale
  \<open>registry_client\<close> is the Go interface \<open>registry.Client\<close> with what the controller relies
  on; \<open>OCIClient\<close> interprets it.
\<close>

section \<open>The model\<close>

record ('r, 'n) Remote =
  NewRepository :: "string \<Rightarrow> err + 'r"
  DefaultTransport :: "HttpRequest \<Rightarrow> 'n \<Rightarrow> (err + HttpResponse) \<times> 'n"
  RemoteList :: "'r \<Rightarrow> Authenticator option \<Rightarrow> ('n, err + string list) state"
  RemoteListTransport :: "'r \<Rightarrow> Authenticator option \<Rightarrow>
    (HttpRequest \<Rightarrow> (etagRoundTripper \<times> 'n, err + HttpResponse) state) \<Rightarrow>
    (etagRoundTripper \<times> 'n, err + string list) state"

definition ListTags ::
  "('r, 'n) Remote \<Rightarrow> string \<Rightarrow> Authenticator option \<Rightarrow> ('n, err + string list) state" where
  "ListTags rm repoURL auth =
     (case NewRepository rm repoURL of
        Inl e \<Rightarrow> State_Monad.return (Inl (WrapError ''invalid repository URL: '' e))
      | Inr ref \<Rightarrow> do {
          r \<leftarrow> RemoteList rm ref auth;
          case r of
            Inl e \<Rightarrow> State_Monad.return (Inl (WrapError ''failed to list tags: '' e))
          | Inr tags \<Rightarrow> State_Monad.return (Inr (sort tags))
        })"

definition GetLatestTag ::
  "('r, 'n) Remote \<Rightarrow> string \<Rightarrow> Authenticator option \<Rightarrow> ('n, err + string) state" where
  "GetLatestTag rm repoURL auth =
     do {
       r \<leftarrow> ListTags rm repoURL auth;
       case r of
         Inl e \<Rightarrow> State_Monad.return (Inl e)
       | Inr tags \<Rightarrow>
           State_Monad.return (Inr (if length tags = 0 then '''' else tags ! (length tags - 1)))
     }"

text \<open>
  \<open>ListTagsWithETag\<close> returns Go's triple of tags, ETag and error. The transport is made
  for the call and dropped after it, so only the network state lasts.
\<close>

definition ListTagsWithETag ::
  "('r, 'n) Remote \<Rightarrow> string \<Rightarrow> Authenticator option \<Rightarrow> string \<Rightarrow>
   ('n, string list \<times> string \<times> err option) state" where
  "ListTagsWithETag rm repoURL auth prevETag =
     (case NewRepository rm repoURL of
        Inl e \<Rightarrow> State_Monad.return ([], '''', Some (WrapError ''invalid repository URL: '' e))
      | Inr ref \<Rightarrow> State (\<lambda>n.
          case run_state (RemoteListTransport rm ref auth (RoundTrip (DefaultTransport rm)))
                 (newETagRoundTripper prevETag, n) of
            (Inr tags, (t, n)) \<Rightarrow> ((sort tags, CapturedETag t, None), n)
          | (Inl e, (t, n)) \<Rightarrow>
              if e = NotModifiedError then (([], CapturedETag t, Some NotModifiedError), n)
              else (([], '''', Some (WrapError ''failed to list tags: '' e)), n)))"

section \<open>The interface\<close>

locale registry_client =
  fixes list_tags :: "string \<Rightarrow> Authenticator option \<Rightarrow> string \<Rightarrow> 'n \<Rightarrow> (string list \<times> string \<times> err option) \<times> 'n"
  assumes sorted_tags: "list_tags url auth prevETag n = ((tags, etag, e), n') \<Longrightarrow> sorted tags"
    and no_tags_on_error: "list_tags url auth prevETag n = ((tags, etag, Some err), n') \<Longrightarrow> tags = []"
begin

text \<open>The tag the controller picks, the last one, is the greatest.\<close>

lemma latest_is_greatest:
  assumes "list_tags url auth prevETag n = ((tags, etag, e), n')" "tags \<noteq> []"
  shows "tags ! (length tags - 1) \<in> set tags \<and> (\<forall>x \<in> set tags. x \<le> tags ! (length tags - 1))"
  using sorted_last_greatest [OF sorted_tags [OF assms(1)] assms(2)] assms(2) by (simp add: last_conv_nth)

end

interpretation oci_client: registry_client "\<lambda>url auth prevETag. run_state (ListTagsWithETag rm url auth prevETag)"
  for rm :: "('r, 'n) Remote"
  by unfold_locales
    (auto simp: ListTagsWithETag_def split: sum.splits prod.splits if_splits)

text \<open>\<open>main\<close> hands the controller an OCI client as its registry client.\<close>

definition with_oci_client :: "('r, 'k) Remote \<Rightarrow> 'k Env \<Rightarrow> 'k Env" where
  "with_oci_client rm env =
     env\<lparr>RegistryListTags := (\<lambda>url auth prevETag. run_state (ListTagsWithETag rm url auth prevETag))\<rparr>"

section \<open>The captured ETag comes from the registry\<close>

text \<open>
  \<open>remote.List\<close> touches the transport and the network only by sending requests: whatever
  every request preserves, it preserves.
\<close>

definition list_via_transport :: "('r, 'n) Remote \<Rightarrow> bool" where
  "list_via_transport rm \<longleftrightarrow>
     (\<forall>I ref auth t. (\<forall>req s. I s \<longrightarrow> I (snd (run_state (t req) s))) \<longrightarrow>
        (\<forall>s. I s \<longrightarrow> I (snd (run_state (RemoteListTransport rm ref auth t) s))))"

definition sent_etag :: "('r, 'n) Remote \<Rightarrow> string \<Rightarrow> bool" where
  "sent_etag rm etag \<longleftrightarrow>
     (\<exists>req n resp n'. DefaultTransport rm req n = (Inr resp, n') \<and>
        Header_Get (RespHeader resp) ''ETag'' = etag)"

lemma ListTagsWithETag_etag:
  assumes "list_via_transport rm"
    "run_state (ListTagsWithETag rm url auth prevETag) n = ((tags, etag, e), n')"
  shows "etag = '''' \<or> sent_etag rm etag"
proof -
  let ?I = "\<lambda>(t, n). capturedETag t = '''' \<or> sent_etag rm (capturedETag t)"
  have step: "\<forall>req s. ?I s \<longrightarrow> ?I (snd (run_state (RoundTrip (DefaultTransport rm) req) s))"
    unfolding sent_etag_def
    by (auto simp: RoundTrip_eq split: sum.splits prod.splits option.splits)
  have inv: "?I (snd (run_state (RemoteListTransport rm ref auth (RoundTrip (DefaultTransport rm)))
      (newETagRoundTripper prevETag, n)))" for ref
    using assms(1) [unfolded list_via_transport_def, THEN spec [of _ ?I], THEN spec, THEN spec, THEN spec,
        THEN mp, THEN spec, THEN mp, OF step]
    by (auto simp: newETagRoundTripper_def split: prod.splits)
  show ?thesis
  proof (cases "NewRepository rm url")
    case (Inl x)
    then show ?thesis using assms(2) by (simp add: ListTagsWithETag_def)
  next
    case (Inr ref)
    then show ?thesis using assms(2) inv [of ref]
      by (auto simp: ListTagsWithETag_def CapturedETag_def split: sum.splits prod.splits if_splits)
  qed
qed

section \<open>Properties\<close>

text \<open>
  C36: the OCI client returns its tags sorted, returns none with an error, and the tag the
  controller picks, the last one, is the greatest tag in byte order.
\<close>

theorem latest_tag_is_greatest:
  assumes "run_state (ListTagsWithETag rm url auth prevETag) n = ((tags, etag, e), n')"
  shows "sorted tags \<and> (e \<noteq> None \<longrightarrow> tags = []) \<and>
    (tags \<noteq> [] \<longrightarrow> tags ! (length tags - 1) \<in> set tags \<and> (\<forall>x \<in> set tags. x \<le> tags ! (length tags - 1)))"
  using oci_client.sorted_tags [OF assms] oci_client.latest_is_greatest [OF assms]
    oci_client.no_tags_on_error [of rm url auth prevETag n tags etag "the e" n'] assms
  by (cases e) auto

text \<open>A registry with two tags behind the OCI client.\<close>

definition demo_base_remote :: "(string, unit) Remote" where
  "demo_base_remote = \<lparr>NewRepository = (\<lambda>url. Inr url), DefaultTransport = demo_base,
     RemoteList = (\<lambda>ref auth. State_Monad.return (Inr [''v1.9.0'', ''v1.10.0''])),
     RemoteListTransport = (\<lambda>ref auth t. do {
       r \<leftarrow> t \<lparr>ReqMethod = ''GET'', ReqURL = ref, ReqHeader = Map.empty\<rparr>;
       State_Monad.return (case r of Inl e \<Rightarrow> Inl e | Inr resp \<Rightarrow> Inr [''v1.9.0'', ''v1.10.0''])
     })\<rparr>"

lemma demo_list: "run_state (ListTagsWithETag demo_base_remote ''ghcr.io/org/app'' None '''') () =
    (([''v1.10.0'', ''v1.9.0''], ''v1'', None), ())"
  by (simp add: ListTagsWithETag_def demo_base_remote_def RoundTrip_def demo_base_def newETagRoundTripper_def
      CapturedETag_def status_error_def Header_Get_def Header_Set_def CanonicalHeaderKey_def Let_def)

lemma latest_tag_is_greatest_witness: "''v1.10.0'' \<le> ''v1.9.0'' \<and> sorted [''v1.10.0'', ''v1.9.0'']"
  using latest_tag_is_greatest [OF demo_list] by simp

text \<open>
  The ETag that the client returns, and that the controller sends with the next poll, is
  empty or one that the registry sent in a response.
\<close>

lemma etag_comes_from_registry:
  assumes "list_via_transport rm"
    "run_state (ListTagsWithETag rm url auth prevETag) n = ((tags, etag, e), n')"
  shows "etag = '''' \<or> (\<exists>req m resp m'. DefaultTransport rm req m = (Inr resp, m') \<and>
    Header_Get (RespHeader resp) ''ETag'' = etag)"
  using ListTagsWithETag_etag [OF assms] by (simp add: sent_etag_def)

lemma etag_comes_from_registry_witness:
  "\<exists>req m resp m'. DefaultTransport demo_base_remote req m = (Inr resp, m') \<and>
     Header_Get (RespHeader resp) ''ETag'' = ''v1''"
proof -
  have "list_via_transport demo_base_remote"
    by (auto simp: list_via_transport_def demo_base_remote_def split: prod.splits)
      (metis snd_conv)
  from etag_comes_from_registry [OF this demo_list] show ?thesis by simp
qed

end
