(* ===== verification/Ctl_Registry.thy ===== *)
theory Ctl_Registry
  imports Ctl_Status Reg_Backoff Reg_Client
begin

text \<open>
  \<open>handleRegistryError\<close> of the controller: what one failed registry poll does to the
  bundle. A reconcile result is Go's pair of \<open>RequeueAfter\<close> and error, or a panic.
\<close>

section \<open>The model\<close>

type_synonym reconcile_result = "(duration \<times> err option) outcome"

definition requeue :: "duration \<Rightarrow> ('k world, reconcile_result) state" where
  "requeue d = State_Monad.return (Ret (d, None))"

abbreviation finish :: "('k world, reconcile_result) state" where
  "finish \<equiv> State_Monad.return (Ret (0, None))"

definition fail_with :: "err \<Rightarrow> ('k world, reconcile_result) state" where
  "fail_with e = State_Monad.return (Ret (0, Some e))"

lemmas result_defs = requeue_def fail_with_def

definition requeue_jittered :: "'k Env \<Rightarrow> duration \<Rightarrow> ('k world, reconcile_result) state" where
  "requeue_jittered env pollInterval =
     do {
       d \<leftarrow> AddJitter env pollInterval;
       case d of Panic msg \<Rightarrow> State_Monad.return (Panic msg) | Ret d \<Rightarrow> requeue d
     }"

definition defaultPollInterval :: duration where "defaultPollInterval = duration_of (15 * minute)"
definition maxConsecutiveFailures :: int32 where "maxConsecutiveFailures = 5"

text \<open>The bundle with one more failure at time \<open>t\<close>.\<close>

definition count_failure :: "WerfBundle \<Rightarrow> time \<Rightarrow> WerfBundle" where
  "count_failure wb t = wb\<lparr>Status := (Status wb)\<lparr>ConsecutiveFailures := ConsecutiveFailures (Status wb) + 1,
     LastErrorTime := Some t\<rparr>\<rparr>"

definition handleRegistryError ::
  "'k Env \<Rightarrow> WerfBundle \<Rightarrow> err \<Rightarrow> duration \<Rightarrow> ('k world, reconcile_result) state" where
  "handleRegistryError env wb registryErr pollInterval =
     (if errors_As_NotModified registryErr then requeue_jittered env pollInterval
      else do {
        t \<leftarrow> now env;
        let wb = count_failure wb t;
        let failures = ConsecutiveFailures (Status wb);
        if sint maxConsecutiveFailures < sint failures then do {
          r \<leftarrow> updateStatusFailed env wb (''Registry error after ''
                @ dec_int (sint maxConsecutiveFailures) @ '' retries: '' @ Error registryErr);
          case r of Inl e \<Rightarrow> fail_with e | Inr wb \<Rightarrow> finish
        } else do {
          let backoff = CalculateBackoff failures;
          r \<leftarrow> updateStatusSyncing env wb (''Registry error (attempt '' @ dec_int (sint failures) @ ''/''
                @ dec_int (sint maxConsecutiveFailures) @ ''): '' @ Error registryErr);
          case r of Inl e \<Rightarrow> fail_with e | Inr wb \<Rightarrow> requeue backoff
        }
      })"

section \<open>What a failed poll does\<close>

text \<open>A requeue after the jittered interval, or the panic of an interval under ten nanoseconds.\<close>

definition jittered :: "'k Env \<Rightarrow> duration \<Rightarrow> reconcile_result \<Rightarrow> bool" where
  "jittered env i r \<longleftrightarrow> (case r of
     Panic msg \<Rightarrow> 0 < sint i \<and> sint i < 10
| Ret (d, e) \<Rightarrow> \<not> (0 < sint i \<and> sint i < 10) \<and> near_interval env i d \<and> e = None)"

lemma requeue_jittered_emits: "emits (requeue_jittered env i) (\<lambda>r es. es = [] \<and> jittered env i r)"
  unfolding requeue_jittered_def result_defs
  by (rule emits_bind [OF AddJitter_emits])
    (auto simp: jittered_def intro!: emits_intros split: outcome.splits)

text \<open>
  The outcome of a real failure, when the bundle carries \<open>failures\<close> failures with the new
  one: up to the maximum the bundle stays in phase Syncing and the poll is repeated after the
  backoff; beyond it the bundle is Failed with the error as its message, and nothing is
  requeued.
\<close>

definition failure_step :: "WerfBundle \<Rightarrow> err \<Rightarrow> WerfBundleStatus \<Rightarrow> reconcile_result \<Rightarrow> err option \<Rightarrow> bool" where
  "failure_step wb e st r upd \<longleftrightarrow>
     (let failures = ConsecutiveFailures (Status wb) + 1 in
      ConsecutiveFailures st = failures \<and> LastErrorTime st \<noteq> None \<and>
      LastETag st = LastETag (Status wb) \<and> ActiveJobName st = ActiveJobName (Status wb) \<and>
      LastJobStatus st = LastJobStatus (Status wb) \<and>
      (if sint maxConsecutiveFailures < sint failures
       then Phase st = PhaseFailed \<and> LastAppliedTag st = LastAppliedTag (Status wb) \<and>
         LastErrorMessage st = ''Registry error after 5 retries: '' @ Error e \<and>
         r = Ret (0, upd)
       else Phase st = PhaseSyncing \<and> LastErrorMessage st = '''' \<and>
         LastAppliedTag st = ''Registry error (attempt '' @ dec_int (sint failures) @ ''/5): '' @ Error e \<and>
         r = (case upd of None \<Rightarrow> Ret (CalculateBackoff failures, None) | Some x \<Rightarrow> Ret (0, Some x))))"

lemma failure_stepD:
  "failure_step wb e st r upd \<Longrightarrow>
   let failures = ConsecutiveFailures (Status wb) + 1 in
      ConsecutiveFailures st = failures \<and> LastErrorTime st \<noteq> None \<and>
      (if 5 < sint failures
       then Phase st = PhaseFailed \<and> LastAppliedTag st = LastAppliedTag (Status wb) \<and>
         LastErrorMessage st = ''Registry error after 5 retries: '' @ Error e \<and> r = Ret (0, upd)
       else Phase st = PhaseSyncing \<and> LastErrorMessage st = '''' \<and>
         LastAppliedTag st = ''Registry error (attempt '' @ dec_int (sint failures) @ ''/5): '' @ Error e \<and>
         r = (case upd of None \<Rightarrow> Ret (CalculateBackoff failures, None) | Some x \<Rightarrow> Ret (0, Some x)))"
  by (simp add: failure_step_def Let_def maxConsecutiveFailures_def)

lemma dec_5: "dec_int (sint maxConsecutiveFailures) = ''5''"
  by (simp add: maxConsecutiveFailures_def dec_int_def dec_nat_def radix_small)

lemma handleRegistryError_emits:
  assumes "server_keeps env" "\<not> errors_As_NotModified e"
  shows "emits (handleRegistryError env wb e i) (\<lambda>r es. \<exists>st upd.
    es = [EvUpdateStatus (wb\<lparr>Status := st\<rparr>) upd] \<and> failure_step wb e st r upd)"
proof -
  have "emits
     (if sint maxConsecutiveFailures < sint (ConsecutiveFailures (Status (count_failure wb t))) then do {
          r \<leftarrow> updateStatusFailed env (count_failure wb t) (''Registry error after ''
                @ dec_int (sint maxConsecutiveFailures) @ '' retries: '' @ Error e);
          case r of Inl e \<Rightarrow> fail_with e | Inr wb \<Rightarrow> finish
        } else do {
          r \<leftarrow> updateStatusSyncing env (count_failure wb t) (''Registry error (attempt ''
                @ dec_int (sint (ConsecutiveFailures (Status (count_failure wb t)))) @ ''/''
                @ dec_int (sint maxConsecutiveFailures) @ ''): '' @ Error e);
          case r of Inl e \<Rightarrow> fail_with e
          | Inr wb' \<Rightarrow> requeue (CalculateBackoff (ConsecutiveFailures (Status (count_failure wb t))))
        })
     (\<lambda>r es. \<exists>st upd. es = [EvUpdateStatus (wb\<lparr>Status := st\<rparr>) upd] \<and> failure_step wb e st r upd)" for t
    unfolding result_defs
    by (intro emits_intros failed.write_then [OF assms(1)] syncing.write_then [OF assms(1)])
      (auto simp: failure_step_def Let_def dec_5 count_failure_def written_def status_frame_def sum.case
        intro!: emits_return)
  then show ?thesis using assms(2) unfolding handleRegistryError_def now_def Let_def
    by (auto intro!: emits_call_bind)
qed

end
