(* ===== verification/Val_Fetch.thy ===== *)
theory Val_Fetch
  imports Kube_Env
begin

text \<open>
  \<open>internal/values/fetch.go\<close>: reading a ConfigMap or a Secret from the bundle namespace,
  then from the target namespace, and parsing every value it holds as YAML. The two fetch
  functions differ in the object they get; the locale \<open>two_namespace_fetch\<close> states what
  they share and is interpreted for both.
\<close>

section \<open>Parsing the data of one object\<close>

text \<open>
  The loop of \<open>parseAndMergeConfigMapData\<close> over the entries, in iteration order, stops at
  the first entry that does not parse.
\<close>

fun parse_entries :: "(string \<Rightarrow> err + YamlValue) \<Rightarrow> gomap \<Rightarrow> gomap list \<Rightarrow> err + gomap list" where
  "parse_entries unmarshal [] maps = Inr maps"
| "parse_entries unmarshal ((k, yamlData) # data) maps =
     (case parseYAML unmarshal yamlData of
        Inl e \<Rightarrow> Inl (WrapError (''failed to parse YAML from ConfigMap key '' @ Quote k @ '': '') e)
      | Inr parsed \<Rightarrow> parse_entries unmarshal data (maps @ [parsed]))"

definition parseAndMergeConfigMapData :: "(string \<Rightarrow> err + YamlValue) \<Rightarrow> gomap \<Rightarrow> err + gomap" where
  "parseAndMergeConfigMapData unmarshal data =
     (case parse_entries unmarshal data [] of
        Inl e \<Rightarrow> Inl e
      | Inr maps \<Rightarrow> Inr (mergeMaps maps))"

definition bytes_to_string :: "8 word list \<Rightarrow> string" where
  "bytes_to_string bs = map (\<lambda>b. char_of (unat b)) bs"

definition secretDataToStringMap :: "(string \<times> 8 word list) list \<Rightarrow> gomap" where
  "secretDataToStringMap data = fold (\<lambda>(k, v) result. put k (bytes_to_string v) result) data []"

definition parseAndMergeSecretData ::
  "(string \<Rightarrow> err + YamlValue) \<Rightarrow> (string \<times> 8 word list) list \<Rightarrow> err + gomap" where
  "parseAndMergeSecretData unmarshal data =
     parseAndMergeConfigMapData unmarshal (secretDataToStringMap data)"

section \<open>The two fetch functions\<close>

definition fetchConfigMap ::
  "'k Env \<Rightarrow> string \<Rightarrow> string \<Rightarrow> string \<Rightarrow> ('k world, err + gomap) state" where
  "fetchConfigMap env name bundleNamespace targetNamespace =
     do {
       r \<leftarrow> get_configmap env (key name bundleNamespace);
       case r of
         Inr data \<Rightarrow> State_Monad.return (parseAndMergeConfigMapData (Unmarshal env) data)
       | Inl e \<Rightarrow>
           (if \<not> IsNotFound env e then
              State_Monad.return (Inl (WrapError (''failed to get ConfigMap '' @ Quote name
                @ '' from namespace '' @ Quote bundleNamespace @ '': '') e))
            else if targetNamespace \<noteq> '''' \<and> targetNamespace \<noteq> bundleNamespace then
              do {
                r' \<leftarrow> get_configmap env (key name targetNamespace);
                case r' of
                  Inr data \<Rightarrow> State_Monad.return (parseAndMergeConfigMapData (Unmarshal env) data)
                | Inl e' \<Rightarrow>
                    (if \<not> IsNotFound env e' then
                       State_Monad.return (Inl (WrapError (''failed to get ConfigMap '' @ Quote name
                         @ '' from namespace '' @ Quote targetNamespace @ '': '') e'))
                     else
                       State_Monad.return (Inl (WrapError (''configMap '' @ Quote name
                         @ '' not found in namespaces '' @ Quote bundleNamespace
                         @ '' or '' @ Quote targetNamespace @ '': '') ErrNotFound)))
              }
            else
              State_Monad.return (Inl (WrapError (''configMap '' @ Quote name
                @ '' not found in namespace '' @ Quote bundleNamespace @ '': '') ErrNotFound)))
     }"

definition fetchSecret ::
  "'k Env \<Rightarrow> string \<Rightarrow> string \<Rightarrow> string \<Rightarrow> ('k world, err + gomap) state" where
  "fetchSecret env name bundleNamespace targetNamespace =
     do {
       r \<leftarrow> get_secret env (key name bundleNamespace);
       case r of
         Inr data \<Rightarrow> State_Monad.return (parseAndMergeSecretData (Unmarshal env) data)
       | Inl e \<Rightarrow>
           (if \<not> IsNotFound env e then
              State_Monad.return (Inl (WrapError (''failed to get Secret '' @ Quote name
                @ '' from namespace '' @ Quote bundleNamespace @ '': '') e))
            else if targetNamespace \<noteq> '''' \<and> targetNamespace \<noteq> bundleNamespace then
              do {
                r' \<leftarrow> get_secret env (key name targetNamespace);
                case r' of
                  Inr data \<Rightarrow> State_Monad.return (parseAndMergeSecretData (Unmarshal env) data)
                | Inl e' \<Rightarrow>
                    (if \<not> IsNotFound env e' then
                       State_Monad.return (Inl (WrapError (''failed to get Secret '' @ Quote name
                         @ '' from namespace '' @ Quote targetNamespace @ '': '') e'))
                     else
                       State_Monad.return (Inl (WrapError (''secret '' @ Quote name
                         @ '' not found in namespaces '' @ Quote bundleNamespace
                         @ '' or '' @ Quote targetNamespace @ '': '') ErrNotFound)))
              }
            else
              State_Monad.return (Inl (WrapError (''secret '' @ Quote name
                @ '' not found in namespace '' @ Quote bundleNamespace @ '': '') ErrNotFound)))
     }"

section \<open>Facts on parsing\<close>

lemma parseYAML_wf: "parseYAML unmarshal s = Inr m \<Longrightarrow> wf_map m"
  by (auto simp: parseYAML_def flattenValue_wf split: if_splits sum.splits)

text \<open>The maps the loop collects: one per entry, in order.\<close>

lemma parse_entries_Inr:
  "parse_entries unmarshal data maps = Inr ms \<longleftrightarrow>
   (\<exists>ps. ms = maps @ ps \<and> list_all2 (\<lambda>(k, d) p. parseYAML unmarshal d = Inr p) data ps)"
proof (induction unmarshal data maps rule: parse_entries.induct)
  case (2 unmarshal k yamlData data maps)
  show ?case
  proof (cases "parseYAML unmarshal yamlData")
    case (Inl e)
    then show ?thesis by (auto simp: list_all2_Cons1)
  next
    case (Inr parsed)
    then show ?thesis using 2 by (auto simp: list_all2_Cons1)
  qed
qed auto

lemma parse_entries_Inl:
  "parse_entries unmarshal data maps = Inl e \<Longrightarrow>
   \<exists>k d e'. (k, d) \<in> set data \<and> parseYAML unmarshal d = Inl e' \<and>
     e = WrapError (''failed to parse YAML from ConfigMap key '' @ Quote k @ '': '') e'"
  by (induction unmarshal data maps rule: parse_entries.induct) (auto split: sum.splits)

lemma parseAndMergeConfigMapData_wf: "parseAndMergeConfigMapData unmarshal data = Inr m \<Longrightarrow> wf_map m"
  by (auto simp: parseAndMergeConfigMapData_def mergeMaps_wf split: sum.splits)

lemma secretDataToStringMap_lookup:
  assumes "wf_map data"
  shows "map_of (secretDataToStringMap data) = map_option bytes_to_string \<circ> map_of data"
proof -
  have "fold (\<lambda>(k, v) result. put k (bytes_to_string v) result) data r
        = put_all (map (\<lambda>(k, v). (k, bytes_to_string v)) data) r" for r
    by (induction data arbitrary: r) (auto simp: put_all_def)
  moreover have "wf_map (map (\<lambda>(k, v). (k, bytes_to_string v)) data)"
    using assms by (simp add: wf_map_def comp_def case_prod_unfold)
  ultimately show ?thesis
    by (simp add: secretDataToStringMap_def put_all_lookup_distinct map_of_map)
qed

lemma secretDataToStringMap_wf: "wf_map (secretDataToStringMap data)"
proof -
  have "wf_map r \<Longrightarrow> wf_map (fold (\<lambda>(k, v) result. put k (bytes_to_string v) result) data r)" for r
    by (induction data arbitrary: r) auto
  then show ?thesis by (simp add: secretDataToStringMap_def)
qed

section \<open>The lookup contract\<close>

text \<open>The lookup in two namespaces, as a function of the state of the cluster.\<close>

datatype 'd lookup = Found 'd | Absent | Broken err

definition two_lookup ::
  "'k Env \<Rightarrow> (NamespacedName \<Rightarrow> 'k \<Rightarrow> (err + 'd) \<times> 'k) \<Rightarrow> 'k \<Rightarrow> string \<Rightarrow> string \<Rightarrow> string \<Rightarrow> 'd lookup" where
  "two_lookup env get k n b t =
     (case fst (get (key n b) k) of
        Inr d \<Rightarrow> Found d
      | Inl e \<Rightarrow>
          if \<not> IsNotFound env e then Broken e
          else if t \<noteq> '''' \<and> t \<noteq> b then
            (case fst (get (key n t) k) of
               Inr d \<Rightarrow> Found d
             | Inl e' \<Rightarrow> if IsNotFound env e' then Absent else Broken e')
          else Absent)"

lemma two_lookup_Broken:
  "two_lookup env get k n b t = Broken e \<Longrightarrow> \<not> IsNotFound env e \<and> (\<exists>nk. fst (get nk k) = Inl e)"
  by (auto simp: two_lookup_def split: sum.splits if_splits)

text \<open>
  What the caller of a fetch function relies on. \<open>get\<close> is the lookup of one object in one
  namespace, \<open>parse\<close> turns its data into values, \<open>ev\<close> is the trace of one lookup. The
  laws: the bundle namespace is asked first; its answer is final unless it is "not found"
  and there is another target namespace; a failure other than "not found" is passed on
  wrapped; absence everywhere is reported with the sentinel.
\<close>

locale two_namespace_fetch =
  fixes env :: "'k Env"
    and get :: "NamespacedName \<Rightarrow> 'k \<Rightarrow> (err + 'd) \<times> 'k"
    and ev :: "NamespacedName \<Rightarrow> event"
    and parse :: "'d \<Rightarrow> err + gomap"
    and fetch :: "string \<Rightarrow> string \<Rightarrow> string \<Rightarrow> ('k world, err + gomap) state"
  assumes parse_wf: "parse d = Inr m \<Longrightarrow> wf_map m"
    and found: "get (key n bns) (cluster w) = (Inr d, k) \<Longrightarrow>
      run_state (fetch n bns tns) w = (parse d, w\<lparr>cluster := k, trace := trace w @ [ev (key n bns)]\<rparr>)"
    and failed: "get (key n bns) (cluster w) = (Inl e, k) \<Longrightarrow> \<not> IsNotFound env e \<Longrightarrow>
      \<exists>p. run_state (fetch n bns tns) w
        = (Inl (WrapError p e), w\<lparr>cluster := k, trace := trace w @ [ev (key n bns)]\<rparr>)"
    and absent: "get (key n bns) (cluster w) = (Inl e, k) \<Longrightarrow> IsNotFound env e \<Longrightarrow>
      tns = '''' \<or> tns = bns \<Longrightarrow>
      \<exists>p. run_state (fetch n bns tns) w
        = (Inl (WrapError p ErrNotFound), w\<lparr>cluster := k, trace := trace w @ [ev (key n bns)]\<rparr>)"
    and retry: "get (key n bns) (cluster w) = (Inl e, k) \<Longrightarrow> IsNotFound env e \<Longrightarrow>
      tns \<noteq> '''' \<Longrightarrow> tns \<noteq> bns \<Longrightarrow>
      \<exists>p q. run_state (fetch n bns tns) w
        = (case get (key n tns) k of (r, k') \<Rightarrow>
            (case r of Inr d \<Rightarrow> parse d
             | Inl e' \<Rightarrow> if IsNotFound env e' then Inl (WrapError p ErrNotFound) else Inl (WrapError q e'),
             w\<lparr>cluster := k', trace := trace w @ [ev (key n bns), ev (key n tns)]\<rparr>))"
begin

text \<open>Every fetch reads one or two objects, of that name, in those namespaces only.\<close>

lemma reads:
  assumes "run_state (fetch n bns tns) w = (r, w')"
  shows "trace w' = trace w @ [ev (key n bns)] \<or>
    (tns \<noteq> '''' \<and> tns \<noteq> bns \<and> trace w' = trace w @ [ev (key n bns), ev (key n tns)])"
proof (cases "get (key n bns) (cluster w)")
  case (Pair x k)
  show ?thesis
  proof (cases x)
    case (Inr d)
    then show ?thesis using found assms Pair by fastforce
  next
    case (Inl e)
    with Pair have got: "get (key n bns) (cluster w) = (Inl e, k)" by simp
    consider "\<not> IsNotFound env e" | "IsNotFound env e" "tns = '''' \<or> tns = bns"
      | "IsNotFound env e" "tns \<noteq> ''''" "tns \<noteq> bns" by blast
    then show ?thesis
    proof cases
      case 1
      then show ?thesis using failed [OF got 1, of tns] assms by auto
    next
      case 2
      then show ?thesis using absent [OF got 2] assms by auto
    next
      case 3
      then show ?thesis using retry [OF got 3] assms by (cases "get (key n tns) k") auto
    qed
  qed
qed

lemma values_wf:
  assumes "run_state (fetch n bns tns) w = (Inr m, w')"
  shows "wf_map m"
proof (cases "get (key n bns) (cluster w)")
  case (Pair x k)
  show ?thesis
  proof (cases x)
    case (Inr d)
    then show ?thesis using found [of n bns w d k tns] assms Pair parse_wf by auto
  next
    case (Inl e)
    with Pair have got: "get (key n bns) (cluster w) = (Inl e, k)" by simp
    consider "\<not> IsNotFound env e" | "IsNotFound env e" "tns = '''' \<or> tns = bns"
      | "IsNotFound env e" "tns \<noteq> ''''" "tns \<noteq> bns" by blast
    then show ?thesis
    proof cases
      case 1
      then show ?thesis using failed [OF got 1, of tns] assms by auto
    next
      case 2
      then show ?thesis using absent [OF got 2] assms by auto
    next
      case 3
      obtain x' k' where got': "get (key n tns) k = (x', k')" by fastforce
      show ?thesis using retry [OF got 3] assms parse_wf got'
        by (cases x') (auto split: if_splits)
    qed
  qed
qed

lemma fetch_emits:
  "emits (fetch n b t) (\<lambda>r es. (\<forall>m. r = Inr m \<longrightarrow> wf_map m) \<and>
     (es = [ev (key n b)] \<or> es = [ev (key n b), ev (key n t)]))"
proof (rule emitsI)
  fix w r w'
  assume run: "run_state (fetch n b t) w = (r, w')"
  have "\<exists>es. trace w' = trace w @ es \<and> (es = [ev (key n b)] \<or> es = [ev (key n b), ev (key n t)])"
    using reads [OF run] by auto
  moreover have "\<forall>m. r = Inr m \<longrightarrow> wf_map m" using run values_wf by blast
  ultimately show "\<exists>es. trace w' = trace w @ es \<and> (\<forall>m. r = Inr m \<longrightarrow> wf_map m) \<and>
     (es = [ev (key n b)] \<or> es = [ev (key n b), ev (key n t)])" by blast
qed

text \<open>
  When lookups only read, a fetch computes the lookup in the two namespaces.
\<close>

lemma fetch_lookup:
  assumes pure: "\<And>nk k. snd (get nk k) = k"
  shows "\<exists>p es. run_state (fetch n b t) w
    = (case two_lookup env get (cluster w) n b t of
         Found d \<Rightarrow> parse d
       | Absent \<Rightarrow> Inl (WrapError p ErrNotFound)
       | Broken e \<Rightarrow> Inl (WrapError p e), w\<lparr>trace := trace w @ es\<rparr>)"
proof -
  have got: "get nk (cluster w) = (fst (get nk (cluster w)), cluster w)" for nk
    using pure [of nk "cluster w"] by (metis prod.collapse)
  have same: "w\<lparr>cluster := cluster w, trace := x\<rparr> = w\<lparr>trace := x\<rparr>" for x by (cases w) simp
  show ?thesis
  proof (cases "fst (get (key n b) (cluster w))")
    case (Inr d)
    then have g: "get (key n b) (cluster w) = (Inr d, cluster w)" using got [of "key n b"] by simp
    from found [OF g, of t] Inr show ?thesis unfolding same by (auto simp: two_lookup_def)
  next
    case (Inl e)
    then have g: "get (key n b) (cluster w) = (Inl e, cluster w)" using got [of "key n b"] by simp
    consider "\<not> IsNotFound env e" | "IsNotFound env e" "t = '''' \<or> t = b"
      | "IsNotFound env e" "t \<noteq> ''''" "t \<noteq> b" by blast
    then show ?thesis
    proof cases
      case 1
      with failed [OF g 1, of t] Inl show ?thesis unfolding same by (auto simp: two_lookup_def)
    next
      case 2
      with absent [OF g 2] Inl show ?thesis unfolding same by (auto simp: two_lookup_def)
    next
      case 3
      obtain x where g': "get (key n t) (cluster w) = (x, cluster w)" using got by blast
      obtain p q where run: "run_state (fetch n b t) w
        = (case x of Inr d \<Rightarrow> parse d
             | Inl e' \<Rightarrow> if IsNotFound env e' then Inl (WrapError p ErrNotFound) else Inl (WrapError q e'),
             w\<lparr>trace := trace w @ [ev (key n b), ev (key n t)]\<rparr>)"
        using retry [OF g 3] by (auto simp: g' same)
      show ?thesis
        by (cases x; use run Inl 3 g' in \<open>auto simp: two_lookup_def\<close>)
    qed
  qed
qed

end

lemmas fetch_run_simps = client_defs call_def

interpretation config_map_fetch: two_namespace_fetch env "GetConfigMap env" EvGetConfigMap
  "parseAndMergeConfigMapData (Unmarshal env)" "fetchConfigMap env" for env
  by unfold_locales
    (auto simp: fetchConfigMap_def fetch_run_simps parseAndMergeConfigMapData_wf split: sum.splits prod.splits)

interpretation secret_fetch: two_namespace_fetch env "GetSecret env" EvGetSecret
  "parseAndMergeSecretData (Unmarshal env)" "fetchSecret env" for env
  by unfold_locales
    (auto simp: fetchSecret_def fetch_run_simps parseAndMergeSecretData_def
      parseAndMergeConfigMapData_wf split: sum.splits prod.splits)

end
