(* ===== verification/Val_Resolver.thy ===== *)
theory Val_Resolver
  imports Val_Fetch
begin

text \<open>
  \<open>internal/values/implementation.go\<close> and the interface of \<open>internal/values/resolver.go\<close>:
  resolving the \<open>valuesFrom\<close> list of a bundle into one flat map. \<open>resolve_spec\<close> says what
  the result is; the locale \<open>values_resolver\<close> is the \<open>Resolver\<close> interface with what its
  caller, the job builder, relies on.
\<close>

section \<open>The model\<close>

definition isNotFoundError :: "'k Env \<Rightarrow> err \<Rightarrow> bool" where
  "isNotFoundError env e = (IsNotFound env e \<or> errors_Is_ErrNotFound e)"

text \<open>
  The first half of the loop body: the fetch of one source. The outer error is an early
  return of \<open>ResolveValues\<close>, the inner sum is the pair \<open>data, err\<close> of the fetch.
\<close>

definition fetch_source ::
  "'k Env \<Rightarrow> nat \<Rightarrow> ValuesSource \<Rightarrow> string \<Rightarrow> string \<Rightarrow> ('k world, err + err + gomap) state" where
  "fetch_source env i source bundleNamespace targetNamespace =
     (case ConfigMapRef source of
        Some name \<Rightarrow>
          (if name = '''' then
             State_Monad.return (Inl (ErrorString (''source '' @ dec_nat i @ '': ConfigMapRef name is empty'')))
           else do {
             r \<leftarrow> fetchConfigMap env name bundleNamespace targetNamespace;
             State_Monad.return (Inr r)
           })
      | None \<Rightarrow>
          (case SecretRef source of
             Some name \<Rightarrow>
               (if name = '''' then
                  State_Monad.return (Inl (ErrorString (''source '' @ dec_nat i @ '': SecretRef name is empty'')))
                else do {
                  r \<leftarrow> fetchSecret env name bundleNamespace targetNamespace;
                  State_Monad.return (Inr r)
                })
           | None \<Rightarrow>
               State_Monad.return (Inl (ErrorString (''source '' @ dec_nat i
                 @ '': neither ConfigMapRef nor SecretRef is set'')))))"

fun resolve_sources ::
  "'k Env \<Rightarrow> nat \<Rightarrow> ValuesSource list \<Rightarrow> string \<Rightarrow> string \<Rightarrow> gomap list \<Rightarrow>
   ('k world, err + gomap list) state" where
  "resolve_sources env i [] bundleNamespace targetNamespace allMaps = State_Monad.return (Inr allMaps)"
| "resolve_sources env i (source # sources) bundleNamespace targetNamespace allMaps =
     do {
       r \<leftarrow> fetch_source env i source bundleNamespace targetNamespace;
       case r of
         Inl e \<Rightarrow> State_Monad.return (Inl e)
       | Inr d \<Rightarrow>
           (case d of
              Inl e \<Rightarrow>
                (if Optional source \<and> isNotFoundError env e then
                   resolve_sources env (Suc i) sources bundleNamespace targetNamespace allMaps
                 else State_Monad.return (Inl (WrapError (''source '' @ dec_nat i @ '': '') e)))
            | Inr data \<Rightarrow>
                resolve_sources env (Suc i) sources bundleNamespace targetNamespace (allMaps @ [data]))
     }"

definition ResolveValues ::
  "'k Env \<Rightarrow> ValuesSource list \<Rightarrow> string \<Rightarrow> string \<Rightarrow> ('k world, err + gomap) state" where
  "ResolveValues env sources bundleNamespace targetNamespace =
     do {
       r \<leftarrow> resolve_sources env 0 sources bundleNamespace targetNamespace [];
       case r of
         Inl e \<Rightarrow> State_Monad.return (Inl e)
       | Inr allMaps \<Rightarrow> State_Monad.return (Inr (mergeMaps allMaps))
     }"

section \<open>The interface\<close>

text \<open>The events of a resolver: reads of ConfigMaps and Secrets in the given namespaces.\<close>

fun values_read :: "string \<Rightarrow> string \<Rightarrow> event \<Rightarrow> bool" where
  "values_read b t (EvGetConfigMap k) = (NNamespace k = b \<or> NNamespace k = t)"
| "values_read b t (EvGetSecret k) = (NNamespace k = b \<or> NNamespace k = t)"
| "values_read b t _ = False"

locale values_resolver =
  fixes resolve :: "ValuesSource list \<Rightarrow> string \<Rightarrow> string \<Rightarrow> ('k world, err + gomap) state"
  assumes resolved_wf: "emits (resolve ss b t) (\<lambda>r es. \<forall>m. r = Inr m \<longrightarrow> wf_map m)"
    and only_reads: "emits (resolve ss b t) (\<lambda>r es. list_all (values_read b t) es)"
begin

lemma resolves:
  "emits (resolve ss b t) (\<lambda>r es. (\<forall>m. r = Inr m \<longrightarrow> wf_map m) \<and> list_all (values_read b t) es)"
  by (rule emits_conj [OF resolved_wf only_reads])

end

text \<open>The provider: \<open>ResolverImpl\<close> keeps both laws.\<close>

lemma fetch_source_emits:
  "emits (fetch_source env i s b t)
     (\<lambda>r es. (\<forall>m. r = Inr (Inr m) \<longrightarrow> wf_map m) \<and> list_all (values_read b t) es)"
  unfolding fetch_source_def
  by (intro emits_intros emits_bind [OF config_map_fetch.fetch_emits] emits_bind [OF secret_fetch.fetch_emits])
    auto

lemma resolve_sources_emits:
  "list_all wf_map maps \<Longrightarrow>
   emits (resolve_sources env i ss b t maps)
     (\<lambda>r es. (\<forall>ms. r = Inr ms \<longrightarrow> list_all wf_map ms) \<and> list_all (values_read b t) es)"
proof (induction ss arbitrary: i maps)
  case Nil
  then show ?case by (auto intro: emits_intros)
next
  case (Cons s ss)
  show ?case unfolding resolve_sources.simps
  proof (rule emits_bind [OF fetch_source_emits], intro emits_intros)
    fix r :: "err + err + gomap" and es d e
    assume R: "(\<forall>m. r = Inr (Inr m) \<longrightarrow> wf_map m) \<and> list_all (values_read b t) es" "r = Inr d"
    assume "d = Inl e"
    show "emits (resolve_sources env (Suc i) ss b t maps)
        (\<lambda>r es'. (\<forall>ms. r = Inr ms \<longrightarrow> list_all wf_map ms) \<and> list_all (values_read b t) (es @ es'))"
      by (rule emits_mono [OF Cons.IH [OF Cons.prems]]) (use R(1) in auto)
  next
    fix r :: "err + err + gomap" and es d data
    assume R: "(\<forall>m. r = Inr (Inr m) \<longrightarrow> wf_map m) \<and> list_all (values_read b t) es" "r = Inr d" "d = Inr data"
    then have "list_all wf_map (maps @ [data])" using Cons.prems by auto
    from Cons.IH [OF this] show "emits (resolve_sources env (Suc i) ss b t (maps @ [data]))
        (\<lambda>r es'. (\<forall>ms. r = Inr ms \<longrightarrow> list_all wf_map ms) \<and> list_all (values_read b t) (es @ es'))"
      by (rule emits_mono) (use R(1) in auto)
  qed auto
qed

interpretation resolver_impl: values_resolver "ResolveValues env" for env
proof
  fix ss b t
  have emits: "emits (ResolveValues env ss b t)
      (\<lambda>r es. (\<forall>m. r = Inr m \<longrightarrow> wf_map m) \<and> list_all (values_read b t) es)"
    unfolding ResolveValues_def
    by (rule emits_bind [OF resolve_sources_emits]) (auto intro!: emits_intros simp: mergeMaps_wf)
  show "emits (ResolveValues env ss b t) (\<lambda>r es. \<forall>m. r = Inr m \<longrightarrow> wf_map m)"
    by (rule emits_mono [OF emits]) simp
  show "emits (ResolveValues env ss b t) (\<lambda>r es. list_all (values_read b t) es)"
    by (rule emits_mono [OF emits]) simp
qed

section \<open>The specification of the result\<close>

text \<open>
  One source contributes one map, or none when it is optional and absent; \<open>None\<close> means
  that resolution fails there.
\<close>

fun contribution :: "bool \<Rightarrow> ('d \<Rightarrow> err + gomap) \<Rightarrow> 'd lookup \<Rightarrow> gomap list option" where
  "contribution opt parse (Found d) = (case parse d of Inl e \<Rightarrow> None | Inr m \<Rightarrow> Some [m])"
| "contribution opt parse Absent = (if opt then Some [] else None)"
| "contribution opt parse (Broken e) = None"

definition source_spec :: "'k Env \<Rightarrow> 'k \<Rightarrow> string \<Rightarrow> string \<Rightarrow> ValuesSource \<Rightarrow> gomap list option" where
  "source_spec env k b t s =
     (case (ConfigMapRef s, SecretRef s) of
        (Some n, _) \<Rightarrow>
          if n = '''' then None
          else contribution (Optional s) (parseAndMergeConfigMapData (Unmarshal env))
                 (two_lookup env (GetConfigMap env) k n b t)
      | (None, Some n) \<Rightarrow>
          if n = '''' then None
          else contribution (Optional s) (parseAndMergeSecretData (Unmarshal env))
                 (two_lookup env (GetSecret env) k n b t)
      | (None, None) \<Rightarrow> None)"

fun sources_spec :: "'k Env \<Rightarrow> 'k \<Rightarrow> string \<Rightarrow> string \<Rightarrow> ValuesSource list \<Rightarrow> gomap list option" where
  "sources_spec env k b t [] = Some []"
| "sources_spec env k b t (s # ss) =
     (case source_spec env k b t s of
        None \<Rightarrow> None
      | Some ms \<Rightarrow> map_option (\<lambda>rest. ms @ rest) (sources_spec env k b t ss))"

definition resolve_spec ::
  "'k Env \<Rightarrow> 'k \<Rightarrow> string \<Rightarrow> string \<Rightarrow> ValuesSource list \<Rightarrow> (string \<rightharpoonup> string) option" where
  "resolve_spec env k b t ss = map_option (\<lambda>ms. merge_spec (map map_of ms)) (sources_spec env k b t ss)"

text \<open>
  Documented behaviour of the API client: reading an object changes nothing; \<open>IsNotFound\<close>
  looks through wrapped errors; errors of the API and of the YAML parser do not carry the
  sentinel of this package, and a parse error is no "not found".
\<close>

definition reads_pure :: "'k Env \<Rightarrow> bool" where
  "reads_pure env \<longleftrightarrow> (\<forall>nk k. snd (GetConfigMap env nk k) = k) \<and> (\<forall>nk k. snd (GetSecret env nk k) = k)"

definition not_found_laws :: "'k Env \<Rightarrow> bool" where
  "not_found_laws env \<longleftrightarrow>
     (\<forall>p e. IsNotFound env (WrapError p e) = IsNotFound env e) \<and>
     (\<forall>nk k e. fst (GetConfigMap env nk k) = Inl e \<longrightarrow> \<not> errors_Is_ErrNotFound e) \<and>
     (\<forall>nk k e. fst (GetSecret env nk k) = Inl e \<longrightarrow> \<not> errors_Is_ErrNotFound e) \<and>
     (\<forall>s e. Unmarshal env s = Inl e \<longrightarrow> \<not> isNotFoundError env e)"

lemma isNotFoundError_wrap:
  "not_found_laws env \<Longrightarrow> isNotFoundError env (WrapError p e) = isNotFoundError env e"
  by (simp add: isNotFoundError_def not_found_laws_def)

lemma parse_error_not_NotFound:
  assumes "not_found_laws env" "parseAndMergeConfigMapData (Unmarshal env) d = Inl e"
  shows "\<not> isNotFoundError env e"
proof -
  have "parse_entries (Unmarshal env) d [] = Inl e"
    using assms(2) by (auto simp: parseAndMergeConfigMapData_def split: sum.splits)
  from parse_entries_Inl [OF this] obtain p q s e' where "Unmarshal env s = Inl e'"
    "e = WrapError p (WrapError q e')"
    by (auto simp: parseYAML_def split: if_splits sum.splits)
  with assms(1) show ?thesis by (simp add: isNotFoundError_wrap) (simp add: not_found_laws_def)
qed

text \<open>What the loop body does with one source, against the specification.\<close>

lemma fetch_result_contribution:
  assumes laws: "not_found_laws env"
    and parse: "\<And>d e. parse d = Inl e \<Longrightarrow> \<not> isNotFoundError env e"
    and api: "\<And>nk k e. fst (get nk k) = Inl e \<Longrightarrow> \<not> errors_Is_ErrNotFound e"
    and r: "r = (case two_lookup env get k n b t of Found d \<Rightarrow> parse d
       | Absent \<Rightarrow> Inl (WrapError p ErrNotFound) | Broken e \<Rightarrow> Inl (WrapError p e))"
  shows "contribution opt parse (two_lookup env get k n b t)
    = (case r of Inr m \<Rightarrow> Some [m] | Inl e \<Rightarrow> if opt \<and> isNotFoundError env e then Some [] else None)"
proof (cases "two_lookup env get k n b t")
  case (Found d)
  then show ?thesis using r parse by (auto split: sum.splits)
next
  case Absent
  then show ?thesis using r by (simp add: isNotFoundError_def)
next
  case (Broken e)
  have "\<not> isNotFoundError env e"
    using two_lookup_Broken [OF Broken] api by (auto simp: isNotFoundError_def)
  then have "\<not> isNotFoundError env (WrapError p e)" by (simp add: isNotFoundError_wrap [OF laws])
  with Broken r show ?thesis by simp
qed

lemma fetch_source_spec:
  assumes "reads_pure env" "not_found_laws env"
  shows "\<exists>r es. run_state (fetch_source env i s b t) w = (r, w\<lparr>trace := trace w @ es\<rparr>) \<and>
    source_spec env (cluster w) b t s
    = (case r of Inl e \<Rightarrow> None
       | Inr (Inr m) \<Rightarrow> Some [m]
       | Inr (Inl e) \<Rightarrow> if Optional s \<and> isNotFoundError env e then Some [] else None)"
proof -
  have early: ?thesis if "run_state (fetch_source env i s b t) w = (Inl e, w)"
      "source_spec env (cluster w) b t s = None" for e
    using that by (intro exI [of _ "Inl e"] exI [of _ "[]"]) simp
  have fetched: ?thesis if "run_state (fetch_source env i s b t) w = (Inr r, w\<lparr>trace := trace w @ es\<rparr>)"
      "source_spec env (cluster w) b t s
       = (case r of Inr m \<Rightarrow> Some [m] | Inl e \<Rightarrow> if Optional s \<and> isNotFoundError env e then Some [] else None)"
    for r es using that by (intro exI [of _ "Inr r"] exI [of _ es]) (simp split: sum.splits)
  have cm: "\<And>nk k. snd (GetConfigMap env nk k) = k" and sec: "\<And>nk k. snd (GetSecret env nk k) = k"
    using assms(1) by (simp_all add: reads_pure_def)
  have api: "fst (GetConfigMap env nk k) = Inl e \<Longrightarrow> \<not> errors_Is_ErrNotFound e"
    "fst (GetSecret env nk k) = Inl e \<Longrightarrow> \<not> errors_Is_ErrNotFound e" for nk k e
    using assms(2) by (auto simp: not_found_laws_def)
  have parse: "parseAndMergeConfigMapData (Unmarshal env) d = Inl e \<Longrightarrow> \<not> isNotFoundError env e"
    "parseAndMergeSecretData (Unmarshal env) d' = Inl e \<Longrightarrow> \<not> isNotFoundError env e" for d d' e
    by (auto simp: parseAndMergeSecretData_def dest: parse_error_not_NotFound [OF assms(2)])
  show ?thesis
  proof (cases "ConfigMapRef s")
    case (Some n)
    obtain p es where run: "run_state (fetchConfigMap env n b t) w
      = (case two_lookup env (GetConfigMap env) (cluster w) n b t of
           Found d \<Rightarrow> parseAndMergeConfigMapData (Unmarshal env) d
         | Absent \<Rightarrow> Inl (WrapError p ErrNotFound) | Broken e \<Rightarrow> Inl (WrapError p e),
         w\<lparr>trace := trace w @ es\<rparr>)" (is "_ = (?r, _)")
      using config_map_fetch.fetch_lookup [OF cm] by blast
    have spec: "contribution (Optional s) (parseAndMergeConfigMapData (Unmarshal env))
        (two_lookup env (GetConfigMap env) (cluster w) n b t)
      = (case ?r of Inr m \<Rightarrow> Some [m]
         | Inl e \<Rightarrow> if Optional s \<and> isNotFoundError env e then Some [] else None)"
      by (rule fetch_result_contribution [OF assms(2) _ _ refl]) (erule parse(1), erule api(1))
    show ?thesis
    proof (cases "n = ''''")
      case True
      then show ?thesis using Some by (intro early) (simp_all add: fetch_source_def source_spec_def)
    next
      case False
      then show ?thesis using Some run
        by (intro fetched [of ?r es]) (simp_all add: fetch_source_def source_spec_def spec)
    qed
  next
    case None
    show ?thesis
    proof (cases "SecretRef s")
      case (Some n)
      obtain p es where run: "run_state (fetchSecret env n b t) w
        = (case two_lookup env (GetSecret env) (cluster w) n b t of
             Found d \<Rightarrow> parseAndMergeSecretData (Unmarshal env) d
           | Absent \<Rightarrow> Inl (WrapError p ErrNotFound) | Broken e \<Rightarrow> Inl (WrapError p e),
           w\<lparr>trace := trace w @ es\<rparr>)" (is "_ = (?r, _)")
        using secret_fetch.fetch_lookup [OF sec] by blast
      have spec: "contribution (Optional s) (parseAndMergeSecretData (Unmarshal env))
        (two_lookup env (GetSecret env) (cluster w) n b t)
      = (case ?r of Inr m \<Rightarrow> Some [m]
         | Inl e \<Rightarrow> if Optional s \<and> isNotFoundError env e then Some [] else None)"
      by (rule fetch_result_contribution [OF assms(2) _ _ refl]) (erule parse(2), erule api(2))
      show ?thesis
      proof (cases "n = ''''")
        case True
        then show ?thesis using None Some by (intro early) (simp_all add: fetch_source_def source_spec_def)
      next
        case False
        then show ?thesis using None Some run
          by (intro fetched [of ?r es]) (simp_all add: fetch_source_def source_spec_def spec)
      qed
    next
      case None': None
      with None show ?thesis by (intro early) (simp_all add: fetch_source_def source_spec_def)
    qed
  qed
qed

lemma resolve_sources_spec:
  assumes "reads_pure env" "not_found_laws env"
  shows "\<exists>r es. run_state (resolve_sources env i ss b t maps) w = (r, w\<lparr>trace := trace w @ es\<rparr>) \<and>
    (case r of Inl e \<Rightarrow> sources_spec env (cluster w) b t ss = None
     | Inr ms \<Rightarrow> \<exists>new. sources_spec env (cluster w) b t ss = Some new \<and> ms = maps @ new)"
proof (induction ss arbitrary: i maps w)
  case Nil
  show ?case by (intro exI [of _ "Inr maps"] exI [of _ "[]"]) simp
next
  case (Cons s ss)
  obtain r es where src: "run_state (fetch_source env i s b t) w = (r, w\<lparr>trace := trace w @ es\<rparr>)"
    "source_spec env (cluster w) b t s
    = (case r of Inl e \<Rightarrow> None
       | Inr (Inr m) \<Rightarrow> Some [m]
       | Inr (Inl e) \<Rightarrow> if Optional s \<and> isNotFoundError env e then Some [] else None)"
    using fetch_source_spec [OF assms] by blast
  have IH: "\<exists>r' es'. run_state (resolve_sources env (Suc i) ss b t maps') (w\<lparr>trace := trace w @ es\<rparr>)
      = (r', w\<lparr>trace := trace w @ es'\<rparr>) \<and>
    (case r' of Inl e \<Rightarrow> sources_spec env (cluster w) b t ss = None
     | Inr ms \<Rightarrow> \<exists>new. sources_spec env (cluster w) b t ss = Some new \<and> ms = maps' @ new)" for maps'
  proof -
    have cl: "cluster (w\<lparr>trace := trace w @ es\<rparr>) = cluster w" by simp
    obtain r' es0 where "run_state (resolve_sources env (Suc i) ss b t maps') (w\<lparr>trace := trace w @ es\<rparr>)
        = (r', w\<lparr>trace := trace w @ es @ es0\<rparr>)"
      "case r' of Inl e \<Rightarrow> sources_spec env (cluster w) b t ss = None
       | Inr ms \<Rightarrow> \<exists>new. sources_spec env (cluster w) b t ss = Some new \<and> ms = maps' @ new"
      using Cons.IH [of "Suc i" maps' "w\<lparr>trace := trace w @ es\<rparr>"] unfolding cl by auto
    then show ?thesis by (intro exI [of _ r'] exI [of _ "es @ es0"]) auto
  qed
  consider e where "r = Inl e" | m where "r = Inr (Inr m)" | e where "r = Inr (Inl e)"
    by (metis sum.exhaust)
  then show ?case
  proof cases
    case 1
    with src show ?thesis by auto
  next
    case (2 m)
    obtain r' es' where "run_state (resolve_sources env (Suc i) ss b t (maps @ [m])) (w\<lparr>trace := trace w @ es\<rparr>)
        = (r', w\<lparr>trace := trace w @ es'\<rparr>)"
      "case r' of Inl e \<Rightarrow> sources_spec env (cluster w) b t ss = None
       | Inr ms \<Rightarrow> \<exists>new. sources_spec env (cluster w) b t ss = Some new \<and> ms = (maps @ [m]) @ new"
      using IH [of "maps @ [m]"] by blast
    with src 2 show ?thesis by (intro exI [of _ r'] exI [of _ es']) (auto split: sum.splits)
  next
    case (3 e)
    obtain r' es' where "run_state (resolve_sources env (Suc i) ss b t maps) (w\<lparr>trace := trace w @ es\<rparr>)
        = (r', w\<lparr>trace := trace w @ es'\<rparr>)"
      "case r' of Inl e \<Rightarrow> sources_spec env (cluster w) b t ss = None
       | Inr ms \<Rightarrow> \<exists>new. sources_spec env (cluster w) b t ss = Some new \<and> ms = maps @ new"
      using IH [of maps] by blast
    with src 3 show ?thesis
      by (cases "Optional s \<and> isNotFoundError env e") (auto split: sum.splits)
  qed
qed

lemma ResolveValues_spec:
  assumes "reads_pure env" "not_found_laws env"
  shows "\<exists>r es. run_state (ResolveValues env ss b t) w = (r, w\<lparr>trace := trace w @ es\<rparr>) \<and>
    resolve_spec env (cluster w) b t ss = (case r of Inl e \<Rightarrow> None | Inr m \<Rightarrow> Some (map_of m))"
proof -
  obtain r es where run: "run_state (resolve_sources env 0 ss b t []) w = (r, w\<lparr>trace := trace w @ es\<rparr>)"
    and spec: "case r of Inl e \<Rightarrow> sources_spec env (cluster w) b t ss = None
     | Inr ms \<Rightarrow> \<exists>new. sources_spec env (cluster w) b t ss = Some new \<and> ms = [] @ new"
    using resolve_sources_spec [OF assms] by blast
  have wf: "list_all wf_map ms" if "r = Inr ms" for ms
    using emits_run [OF resolve_sources_emits [of "[]" env 0 ss b t] run] that by auto
  show ?thesis using run spec wf
    by (auto simp: ResolveValues_def resolve_spec_def mergeMaps_lookup list_all_iff split: sum.splits)
qed

end
