(* ===== verification/Job_Builder.thy ===== *)
theory Job_Builder
  imports Val_Resolver
begin

text \<open>
  \<open>internal/converge/job.go\<close>: the Kubernetes Job of one werf converge run. The operations
  that can panic return an \<open>outcome\<close>: slicing a short tag hash and parsing a resource
  quantity that the user wrote. \<open>Build\<close> calls the values resolver through the interface
  \<open>values_resolver\<close>, and its contract is proved once for every resolver with these laws.
\<close>

section \<open>The name of a job\<close>

text \<open>\<open>fnv.New32a\<close>, \<open>Write\<close>, \<open>Sum32\<close>.\<close>

definition fnv32a :: "string \<Rightarrow> 32 word" where
  "fnv32a s = foldl (\<lambda>h c. xor h (of_char c) * 16777619) 2166136261 s"

definition tag_hash :: "string \<Rightarrow> string outcome" where
  "tag_hash tag = slice_to (hex_nat (unat (fnv32a tag))) 8"

text \<open>The buffer of \<open>n\<close> zero bytes after \<open>rand.Read\<close> wrote its bytes into it.\<close>

definition fill_buffer :: "nat \<Rightarrow> 8 word list \<Rightarrow> 8 word list" where
  "fill_buffer n bs = take n (bs @ replicate n 0)"

definition full_name :: "string \<Rightarrow> string \<Rightarrow> string \<Rightarrow> string outcome" where
  "full_name name tagHash uuid =
     (let fullName = name @ ''-'' @ tagHash @ ''-'' @ uuid;
          maxBundleLen = 253 - int (length tagHash) - int (length uuid) - 2
      in if length fullName \<le> 253 then Ret fullName
         else if 0 < maxBundleLen then
           bind_outcome (slice_to name (nat maxBundleLen)) (\<lambda>short.
             Ret (short @ ''-'' @ tagHash @ ''-'' @ uuid))
         else Ret (tagHash @ ''-'' @ uuid))"

definition jobName :: "'k Env \<Rightarrow> WerfBundle \<Rightarrow> string \<Rightarrow> ('k world, string outcome) state" where
  "jobName env wb tag =
     (case tag_hash tag of
        Panic msg \<Rightarrow> State_Monad.return (Panic msg)
      | Ret tagHash \<Rightarrow> do {
          r \<leftarrow> rand_read env 4;
          case r of
            Inl e \<Rightarrow> State_Monad.return (Ret (Name wb @ ''-'' @ tagHash))
          | Inr bs \<Rightarrow>
              State_Monad.return (full_name (Name wb) tagHash (EncodeToString (fill_buffer 4 bs)))
        })"

section \<open>Retention and resources\<close>

definition getLogRetentionSeconds :: "WerfBundle \<Rightarrow> int32" where
  "getLogRetentionSeconds wb =
     (let days = (case LogRetentionDays (Converge (Spec wb)) of
                    Some d \<Rightarrow> if 0 < sint d then d else 7
                  | None \<Rightarrow> 7)
      in days * 24 * 60 * 60)"

definition mustParseResource :: "'k Env \<Rightarrow> string \<Rightarrow> Quantity outcome" where
  "mustParseResource env s =
     (case ParseQuantity env s of
        Inl e \<Rightarrow> Panic (''invalid resource quantity '' @ Quote s @ '': '' @ Error e)
      | Inr q \<Rightarrow> Ret q)"

definition resource_text :: "WerfBundle \<Rightarrow> string \<Rightarrow> string" where
  "resource_text wb resourceType =
     (let custom = (case ResourceLimits (Converge (Spec wb)) of
                      None \<Rightarrow> ''''
                    | Some limits \<Rightarrow>
                        if resourceType = ''cpu'' then (if CPU limits \<noteq> '''' then CPU limits else '''')
                        else if resourceType = ''memory'' then (if Memory limits \<noteq> '''' then Memory limits else '''')
                        else '''')
      in if custom = '''' then
           (if resourceType = ''cpu'' then ''1'' else if resourceType = ''memory'' then ''1Gi'' else '''')
         else custom)"

definition getResourceLimit :: "'k Env \<Rightarrow> WerfBundle \<Rightarrow> string \<Rightarrow> Quantity outcome" where
  "getResourceLimit env wb resourceType = mustParseResource env (resource_text wb resourceType)"

section \<open>The builder\<close>

text \<open>A scheme, by its method \<open>ObjectKinds\<close>.\<close>

type_synonym Scheme = "WerfBundle \<Rightarrow> err + GroupVersionKind list"

type_synonym 'k Resolver = "ValuesSource list \<Rightarrow> string \<Rightarrow> string \<Rightarrow> ('k world, err + gomap) state"

record 'k Builder =
  werf :: "WerfBundle option"
  scheme :: "Scheme option"
  valuesResolver :: "'k Resolver option"

definition NewBuilder :: "WerfBundle option \<Rightarrow> 'k Builder" where
  "NewBuilder wb = \<lparr>werf = wb, scheme = None, valuesResolver = None\<rparr>"

definition WithScheme :: "Scheme option \<Rightarrow> 'k Builder \<Rightarrow> 'k Builder" where
  "WithScheme s b = b\<lparr>scheme := s\<rparr>"

definition WithValuesResolver :: "'k Resolver option \<Rightarrow> 'k Builder \<Rightarrow> 'k Builder" where
  "WithValuesResolver r b = b\<lparr>valuesResolver := r\<rparr>"

text \<open>The arguments of the container, with the flags of the resolved values.\<close>

definition build_args :: "'k Builder \<Rightarrow> WerfBundle \<Rightarrow> string \<Rightarrow> ('k world, err + string list) state" where
  "build_args b wb tag =
     (let args = [''converge'', ''--log-color=false'', URL (Registry (Spec wb)) @ '':'' @ tag];
          sources = ValuesFrom (Converge (Spec wb))
      in if 0 < length sources then
           (case valuesResolver b of
              None \<Rightarrow> State_Monad.return
                (Inl (ErrorString ''values resolver required when valuesFrom is configured''))
            | Some resolve \<Rightarrow> do {
                r \<leftarrow> resolve sources (Namespace wb)
                      (GetTargetNamespace (Converge (Spec wb)) (Namespace wb));
                case r of
                  Inl e \<Rightarrow> State_Monad.return (Inl (WrapError ''failed to resolve values: '' e))
                | Inr vals \<Rightarrow> State_Monad.return (Inr (args @ GenerateSetFlags vals))
              })
         else State_Monad.return (Inr args))"

definition job_labels :: "WerfBundle \<Rightarrow> string \<Rightarrow> gomap" where
  "job_labels wb tag =
     [(''app.kubernetes.io/name'', ''werf-operator''),
      (''app.kubernetes.io/instance'', Name wb),
      (''app.kubernetes.io/managed-by'', ''werf-operator''),
      (''werf.io/bundle'', Name wb),
      (''werf.io/tag'', tag)]"

definition owner_reference :: "'k Builder \<Rightarrow> WerfBundle \<Rightarrow> err + OwnerReference" where
  "owner_reference b wb =
     (case scheme b of
        None \<Rightarrow> Inl (ErrorString ''scheme is required to set owner reference and prevent orphaned jobs'')
      | Some object_kinds \<Rightarrow>
          (case object_kinds wb of
             Inl e \<Rightarrow> Inl (WrapError ''failed to get GroupVersionKind for WerfBundle: '' e)
           | Inr [] \<Rightarrow> Inl (ErrorString (''no GroupVersionKind found for WerfBundle ''
               @ ''(scheme may not have WerfBundle registered)''))
           | Inr (gvk # gvks) \<Rightarrow>
               Inr \<lparr>APIVersion = GroupVersion gvk, Kind = GVKKind gvk, OwnerName = Name wb, OwnerUID = UID wb,
                 IsController = None\<rparr>))"

text \<open>The rest of \<open>Build\<close>: quantities, the job object, its owner.\<close>

definition build_job ::
  "'k Env \<Rightarrow> 'k Builder \<Rightarrow> WerfBundle \<Rightarrow> string \<Rightarrow> string \<Rightarrow> string list \<Rightarrow> (err + Job) outcome" where
  "build_job env b wb tag name args =
     bind_outcome (getResourceLimit env wb ''cpu'') (\<lambda>cpuLimit.
     bind_outcome (getResourceLimit env wb ''memory'') (\<lambda>memoryLimit.
     bind_outcome (getResourceLimit env wb ''cpu'') (\<lambda>cpuRequest.
     bind_outcome (getResourceLimit env wb ''memory'') (\<lambda>memoryRequest.
       let job = \<lparr>JobName = name,
             JobNamespace = GetTargetNamespace (Converge (Spec wb)) (Namespace wb),
             JobLabels = job_labels wb tag,
             BackoffLimit = 0,
             TTLSecondsAfterFinished = getLogRetentionSeconds wb,
             PodLabels = job_labels wb tag,
             RestartPolicy = ''Never'',
             PodServiceAccountName = ServiceAccountName (Converge (Spec wb)),
             Containers = [\<lparr>ContainerName = ''werf'', Image = ''ghcr.io/werf/werf:latest'', Args = args,
               Requests = [(''cpu'', cpuRequest), (''memory'', memoryRequest)],
               Limits = [(''cpu'', cpuLimit), (''memory'', memoryLimit)]\<rparr>],
             OwnerReferences = [], Succeeded = 0, Failed = 0\<rparr>
       in case owner_reference b wb of
            Inl e \<Rightarrow> Ret (Inl e)
          | Inr owner \<Rightarrow> Ret (Inr (job\<lparr>OwnerReferences := [owner]\<rparr>))))))"

definition Build :: "'k Env \<Rightarrow> 'k Builder \<Rightarrow> string \<Rightarrow> ('k world, (err + Job) outcome) state" where
  "Build env b tag =
     (case werf b of
        None \<Rightarrow> State_Monad.return (Ret (Inl (ErrorString ''WerfBundle is nil'')))
      | Some wb \<Rightarrow> do {
          n \<leftarrow> jobName env wb tag;
          case n of
            Panic msg \<Rightarrow> State_Monad.return (Panic msg)
          | Ret name \<Rightarrow> do {
              a \<leftarrow> build_args b wb tag;
              case a of
                Inl e \<Rightarrow> State_Monad.return (Ret (Inl e))
              | Inr args \<Rightarrow> State_Monad.return (build_job env b wb tag name args)
            }
        })"

section \<open>The hash and the name\<close>

lemma radix_16_length: "n < 2 ^ 32 \<Longrightarrow> length (hex_nat n) \<le> 8"
  using radix_length_le_iff [of 16 8 n] by (simp add: hex_nat_def)

lemma tag_hash_cases:
  "tag_hash tag = (if unat (fnv32a tag) < 2 ^ 28
     then Panic (''slice bounds out of range [:8] with length '' @ dec_nat (length (hex_nat (unat (fnv32a tag)))))
     else Ret (hex_nat (unat (fnv32a tag))))"
proof -
  have le: "length (hex_nat (unat (fnv32a tag))) \<le> 8"
    by (rule radix_16_length) (use unsigned_less [of "fnv32a tag"] in simp)
  have "dec_nat 8 = ''8''" by (simp add: dec_nat_def radix_small)
  with le hex_nat_length_less_iff [of "unat (fnv32a tag)"] show ?thesis
    by (auto simp: tag_hash_def slice_to_def)
qed

lemma tag_hash_length: "tag_hash tag = Ret h \<Longrightarrow> length h = 8"
  using hex_nat_length_less_iff [of "unat (fnv32a tag)"]
    radix_16_length [of "unat (fnv32a tag)"] unsigned_less [of "fnv32a tag"]
  by (auto simp: tag_hash_cases split: if_splits)

lemma fill_buffer_length [simp]: "length (fill_buffer n bs) = n"
  by (simp add: fill_buffer_def)

lemma uuid_length: "length (EncodeToString (fill_buffer 4 bs)) = 8"
  by simp

text \<open>A job name: a prefix of the bundle's name, the tag's hash, eight random digits.\<close>

definition is_job_name :: "string \<Rightarrow> string \<Rightarrow> string \<Rightarrow> bool" where
  "is_job_name name h n \<longleftrightarrow>
     (\<exists>p uuid. n = p @ ''-'' @ h @ ''-'' @ uuid \<and> p = take 235 name \<and> length uuid = 8)"

lemma full_name_shape:
  assumes "length h = 8" "length uuid = 8"
  shows "full_name name h uuid = Ret (take 235 name @ ''-'' @ h @ ''-'' @ uuid)"
proof (cases "length name \<le> 235")
  case True
  then show ?thesis using assms by (simp add: full_name_def Let_def)
next
  case False
  then show ?thesis using assms by (simp add: full_name_def Let_def slice_to_def)
qed

lemma is_job_name_length: "is_job_name name h n \<Longrightarrow> length h = 8 \<Longrightarrow> length n = min 235 (length name) + 18"
  by (auto simp: is_job_name_def)

text \<open>
  What \<open>jobName\<close> returns: a panic exactly for the tags whose hash has fewer than eight
  digits; otherwise a job name, or the fallback when the random source fails.
\<close>

definition job_name_result :: "WerfBundle \<Rightarrow> string \<Rightarrow> string outcome \<Rightarrow> bool" where
  "job_name_result wb tag r \<longleftrightarrow>
     (case r of
        Panic msg \<Rightarrow> unat (fnv32a tag) < 2 ^ 28
      | Ret n \<Rightarrow> 2 ^ 28 \<le> unat (fnv32a tag) \<and>
          (is_job_name (Name wb) (hex_nat (unat (fnv32a tag))) n \<or>
           n = Name wb @ ''-'' @ hex_nat (unat (fnv32a tag))))"

lemma jobName_emits: "emits (jobName env wb tag) (\<lambda>r es. es = [] \<and> job_name_result wb tag r)"
proof (cases "tag_hash tag")
  case (Ret h)
  then have h: "h = hex_nat (unat (fnv32a tag))" "2 ^ 28 \<le> unat (fnv32a tag)" and len: "length h = 8"
    by (auto simp: tag_hash_cases intro: tag_hash_length split: if_splits)
  note full = full_name_shape [OF len uuid_length, unfolded h(1)]
  show ?thesis unfolding jobName_def rand_read_def Ret outcome.case
    by (intro emits_call_bind emits_intros)
      (use h in \<open>auto simp: full job_name_result_def is_job_name_def uuid_length\<close>)
next
  case (Panic msg)
  then show ?thesis
    by (auto simp: jobName_def job_name_result_def tag_hash_cases intro!: emits_intros split: if_splits)
qed

text \<open>With a working random source the fallback is not used.\<close>

lemma jobName_random:
  assumes "fst (RandRead env 4 (cluster w)) = Inr bs"
  shows "wp (jobName env wb tag) (\<lambda>r w'. case r of
     Panic msg \<Rightarrow> unat (fnv32a tag) < 2 ^ 28
   | Ret n \<Rightarrow> n = take 235 (Name wb) @ ''-'' @ hex_nat (unat (fnv32a tag)) @ ''-''
       @ EncodeToString (fill_buffer 4 bs) \<and> length n \<le> 253) w"
proof (cases "tag_hash tag")
  case (Ret h)
  then have h: "h = hex_nat (unat (fnv32a tag))" and len: "length h = 8"
    by (auto simp: tag_hash_cases intro: tag_hash_length split: if_splits)
  note full = full_name_shape [OF len uuid_length, unfolded h]
  show ?thesis using assms len unfolding jobName_def rand_read_def Ret outcome.case wp_simps
    by (auto simp: full uuid_length wp_simps h split: prod.splits)
next
  case (Panic msg)
  then show ?thesis by (auto simp: jobName_def wp_simps tag_hash_cases split: if_splits)
qed

section \<open>Retention\<close>

text \<open>The days that the retention is computed from.\<close>

definition retention_days :: "WerfBundle \<Rightarrow> int" where
  "retention_days wb = (case LogRetentionDays (Converge (Spec wb)) of
     Some d \<Rightarrow> if 0 < sint d then sint d else 7 | None \<Rightarrow> 7)"

lemma getLogRetentionSeconds_word:
  "getLogRetentionSeconds wb = word_of_int (retention_days wb * 86400)"
  by (cases "LogRetentionDays (Converge (Spec wb))") 
    (auto simp: getLogRetentionSeconds_def retention_days_def)

lemma retention_days_pos: "0 < retention_days wb"
  by (auto simp: retention_days_def split: option.splits)

lemma getLogRetentionSeconds_correct_iff:
  "sint (getLogRetentionSeconds wb) = retention_days wb * 86400 \<longleftrightarrow> retention_days wb \<le> 24855"
proof
  assume "sint (getLogRetentionSeconds wb) = retention_days wb * 86400"
  then have "retention_days wb * 86400 < 2 ^ 31" using sint_range_32 [of "getLogRetentionSeconds wb"] by simp
  then show "retention_days wb \<le> 24855" by simp
next
  assume "retention_days wb \<le> 24855"
  then show "sint (getLogRetentionSeconds wb) = retention_days wb * 86400"
    unfolding getLogRetentionSeconds_word using retention_days_pos [of wb]
    by (intro sint_word_of_int_32) simp_all
qed


section \<open>The job that is built\<close>

text \<open>Requests are the limits, both from the bundle or the defaults.\<close>

definition quantities :: "'k Env \<Rightarrow> WerfBundle \<Rightarrow> (string \<times> Quantity) list \<Rightarrow> bool" where
  "quantities env wb qs \<longleftrightarrow>
     (\<exists>c m. ParseQuantity env (resource_text wb ''cpu'') = Inr c \<and>
            ParseQuantity env (resource_text wb ''memory'') = Inr m \<and>
            qs = [(''cpu'', c), (''memory'', m)])"

text \<open>The owner is the bundle, of the first kind that the scheme has for bundles: a scheme looks at
  the type of an object alone.\<close>

definition job_for :: "'k Env \<Rightarrow> WerfBundle \<Rightarrow> string \<Rightarrow> string list \<Rightarrow> Job \<Rightarrow> bool" where
  "job_for env wb tag args job \<longleftrightarrow>
     JobNamespace job = GetTargetNamespace (Converge (Spec wb)) (Namespace wb) \<and>
     PodServiceAccountName job = ServiceAccountName (Converge (Spec wb)) \<and>
     JobLabels job = job_labels wb tag \<and> PodLabels job = job_labels wb tag \<and>
     BackoffLimit job = 0 \<and> RestartPolicy job = ''Never'' \<and>
     TTLSecondsAfterFinished job = getLogRetentionSeconds wb \<and>
     (\<exists>qs. quantities env wb qs \<and>
        Containers job = [\<lparr>ContainerName = ''werf'', Image = ''ghcr.io/werf/werf:latest'',
          Args = args, Requests = qs, Limits = qs\<rparr>]) \<and>
     (\<exists>wb' gvk gvks. ObjectKinds env wb' = Inr (gvk # gvks) \<and>
        OwnerReferences job = [\<lparr>APIVersion = GroupVersion gvk, Kind = GVKKind gvk, OwnerName = Name wb,
          OwnerUID = UID wb, IsController = None\<rparr>])"

lemma owner_reference_Inr: "owner_reference b wb = Inr owner \<Longrightarrow> scheme b = Some (ObjectKinds env) \<Longrightarrow>
    \<exists>gvk gvks. ObjectKinds env wb = Inr (gvk # gvks) \<and>
      owner = \<lparr>APIVersion = GroupVersion gvk, Kind = GVKKind gvk, OwnerName = Name wb, OwnerUID = UID wb, IsController = None\<rparr>"
  by (auto simp: owner_reference_def split: option.splits sum.splits list.splits)

definition bad_quantity :: "'k Env \<Rightarrow> WerfBundle \<Rightarrow> bool" where
  "bad_quantity env wb \<longleftrightarrow> (\<exists>t \<in> {''cpu'', ''memory''}. \<exists>e. ParseQuantity env (resource_text wb t) = Inl e)"

lemma build_job_cases:
  "build_job env b wb tag name args = Ret (Inr job) \<Longrightarrow> scheme b = Some (ObjectKinds env) \<Longrightarrow> JobName job = name \<and> job_for env wb tag args job"
  "build_job env b wb tag name args = Panic msg \<Longrightarrow> bad_quantity env wb"
  "build_job env b wb tag name args = Ret r \<Longrightarrow> \<not> bad_quantity env wb"
  by (auto simp: build_job_def job_for_def bad_quantity_def quantities_def getResourceLimit_def Let_def
      mustParseResource_def split: sum.splits dest!: owner_reference_Inr [of b wb _ env]) blast

text \<open>The arguments: the image reference, then the flags of the resolved values.\<close>

definition converge_args :: "WerfBundle \<Rightarrow> string \<Rightarrow> gomap \<Rightarrow> string list" where
  "converge_args wb tag vals =
     [''converge'', ''--log-color=false'', URL (Registry (Spec wb)) @ '':'' @ tag] @ GenerateSetFlags vals"

definition built :: "'k Env \<Rightarrow> WerfBundle \<Rightarrow> string \<Rightarrow> (err + Job) outcome \<Rightarrow> bool" where
  "built env wb tag r \<longleftrightarrow>
     (case r of
        Panic msg \<Rightarrow> unat (fnv32a tag) < 2 ^ 28 \<or> bad_quantity env wb
      | Ret (Inl e) \<Rightarrow> 2 ^ 28 \<le> unat (fnv32a tag)
      | Ret (Inr job) \<Rightarrow> job_name_result wb tag (Ret (JobName job)) \<and>
          (\<exists>vals. wf_map vals \<and> (ValuesFrom (Converge (Spec wb)) = [] \<longrightarrow> vals = []) \<and>
             job_for env wb tag (converge_args wb tag vals) job))"

lemma build_built:
  assumes "job_name_result wb tag (Ret name)" "wf_map vals"
    and "ValuesFrom (Converge (Spec wb)) = [] \<longrightarrow> vals = []" "scheme b = Some (ObjectKinds env)"
  shows "built env wb tag (build_job env b wb tag name (converge_args wb tag vals))"
proof (cases "build_job env b wb tag name (converge_args wb tag vals)")
  case (Panic msg)
  then show ?thesis by (simp add: built_def build_job_cases(2))
next
  case (Ret r)
  then show ?thesis using assms build_job_cases(1) [of env b wb tag name]
    by (cases r) (auto simp: built_def job_name_result_def)
qed

lemma built_error: "job_name_result wb tag (Ret name) \<Longrightarrow> built env wb tag (Ret (Inl e))"
  by (simp add: built_def job_name_result_def)

context values_resolver begin

lemma build_args_emits:
  assumes "valuesResolver b = Some resolve"
  shows "emits (build_args b wb tag) (\<lambda>r es.
    list_all (values_read (Namespace wb) (GetTargetNamespace (Converge (Spec wb)) (Namespace wb))) es \<and>
    (\<forall>args. r = Inr args \<longrightarrow> (\<exists>vals. args = converge_args wb tag vals \<and> wf_map vals \<and>
      (ValuesFrom (Converge (Spec wb)) = [] \<longrightarrow> vals = []))))"
proof (cases "ValuesFrom (Converge (Spec wb)) = []")
  case True
  then show ?thesis
    by (auto simp: build_args_def converge_args_def GenerateSetFlags_def intro!: emits_intros)
next
  case False
  then show ?thesis unfolding build_args_def Let_def assms option.case
    by (simp add: assms, intro emits_bind [OF resolves] emits_intros) (auto simp: converge_args_def)
qed

lemma Build_emits:
  assumes "werf b = Some wb" "valuesResolver b = Some resolve" "scheme b = Some (ObjectKinds env)"
  shows "emits (Build env b tag) (\<lambda>r es. built env wb tag r \<and>
    list_all (values_read (Namespace wb) (GetTargetNamespace (Converge (Spec wb)) (Namespace wb))) es)"
  unfolding Build_def assms(1,2) option.case
proof (rule emits_bind [OF jobName_emits], intro emits_intros, goal_cases)
  case (1 r es name)
  show ?case
    by (rule emits_bind [OF build_args_emits [OF assms(2)]], intro emits_intros)
      (use 1 assms(3) in \<open>auto intro!: build_built built_error\<close>)
next
  case (2 r es msg)
  then show ?case by (simp add: built_def job_name_result_def)
qed

end

text \<open>The builder as the controller configures it.\<close>

definition controller_builder :: "'k Env \<Rightarrow> WerfBundle \<Rightarrow> 'k Builder" where
  "controller_builder env wb =
     WithValuesResolver (Some (ResolveValues env)) (WithScheme (Some (ObjectKinds env)) (NewBuilder (Some wb)))"

lemma controller_builder_simps [simp]:
  "werf (controller_builder env wb) = Some wb"
  "scheme (controller_builder env wb) = Some (ObjectKinds env)"
  "valuesResolver (controller_builder env wb) = Some (ResolveValues env)"
  by (simp_all add: controller_builder_def NewBuilder_def WithScheme_def WithValuesResolver_def)

lemma controller_Build_emits:
  "emits (Build env (controller_builder env wb) tag) (\<lambda>r es. built env wb tag r \<and>
    list_all (values_read (Namespace wb) (GetTargetNamespace (Converge (Spec wb)) (Namespace wb))) es)"
  by (rule resolver_impl.Build_emits) simp_all

section \<open>The exact arguments\<close>

text \<open>
  When reads change nothing and errors are as documented, the arguments are those of the
  resolved values as \<open>resolve_spec\<close> defines them, whatever order the maps iterate in.
\<close>

lemma build_args_exact:
  assumes env: "reads_pure env" "not_found_laws env" and sources: "ValuesFrom (Converge (Spec wb)) \<noteq> []"
  shows "wp (build_args (controller_builder env wb) wb tag) (\<lambda>r w'. cluster w' = cluster w \<and>
    (case resolve_spec env (cluster w) (Namespace wb) (GetTargetNamespace (Converge (Spec wb)) (Namespace wb))
       (ValuesFrom (Converge (Spec wb))) of
       None \<Rightarrow> \<exists>e. r = Inl e
     | Some vals \<Rightarrow> r = Inr ([''converge'', ''--log-color=false'', URL (Registry (Spec wb)) @ '':'' @ tag]
         @ flags_of vals))) w"
proof -
  let ?t = "GetTargetNamespace (Converge (Spec wb)) (Namespace wb)" and ?ss = "ValuesFrom (Converge (Spec wb))"
  obtain r es where run: "run_state (ResolveValues env ?ss (Namespace wb) ?t) w = (r, w\<lparr>trace := trace w @ es\<rparr>)"
    and spec: "resolve_spec env (cluster w) (Namespace wb) ?t ?ss = (case r of Inl e \<Rightarrow> None | Inr m \<Rightarrow> Some (map_of m))"
    using ResolveValues_spec [OF env] by blast
  have wf: "wf_map m" if "r = Inr m" for m
    using emits_run [OF resolver_impl.resolved_wf run] that by auto
  have resolve: "wp (ResolveValues env ?ss (Namespace wb) ?t) Q w = Q r (w\<lparr>trace := trace w @ es\<rparr>)" for Q
    using run by (simp add: wp_def)
  show ?thesis
    by (cases r) (simp_all add: build_args_def sources wp_bind resolve wp_return spec GenerateSetFlags_of wf)
qed

section \<open>Properties\<close>

text \<open>
  C39: the time to live of a finished job is the retention in seconds exactly for retentions
  of at most 24855 days; beyond that the 32-bit product wraps around. Without a positive
  setting the retention is seven days.
\<close>

theorem log_retention_exact_iff:
  "(sint (getLogRetentionSeconds wb) = retention_days wb * 86400 \<longleftrightarrow> retention_days wb \<le> 24855) \<and>
   retention_days wb = (case LogRetentionDays (Converge (Spec wb)) of
     Some d \<Rightarrow> if 0 < sint d then sint d else 7 | None \<Rightarrow> 7)"
  by (rule conjI [OF getLogRetentionSeconds_correct_iff retention_days_def])

end
