(* ===== verification/Job_Logs.thy ===== *)
theory Job_Logs
  imports Kube_Env
begin

text \<open>
  \<open>internal/converge/logs.go\<close>: collecting the logs of a job's pods, with truncation at one
  MiB. A newline is the character 10.
\<close>

section \<open>The model\<close>

abbreviation newline :: char where "newline \<equiv> CHR 0x0A"

definition getPodLogs :: "'k Env \<Rightarrow> Pod \<Rightarrow> string \<Rightarrow> string \<Rightarrow> ('k world, err + string) state" where
  "getPodLogs env pod container namespace =
     do {
       r \<leftarrow> stream_pod_logs env namespace (PodName pod) container 500;
       case r of
         Inl e \<Rightarrow> State_Monad.return (Inl (WrapError
           (''failed to get logs from pod '' @ namespace @ ''/'' @ PodName pod @ '': '') e))
       | Inr content \<Rightarrow>
           (case content of
              Inl e \<Rightarrow> State_Monad.return (Inl (WrapError
                (''failed to read logs from pod '' @ namespace @ ''/'' @ PodName pod @ '': '') e))
            | Inr buf \<Rightarrow> State_Monad.return (Inr buf))
     }"

text \<open>The loop over the pods: the first container of each, failures skipped.\<close>

fun collect_logs :: "'k Env \<Rightarrow> string \<Rightarrow> Pod list \<Rightarrow> string list \<Rightarrow> ('k world, string list) state" where
  "collect_logs env namespace [] allLogs = State_Monad.return allLogs"
| "collect_logs env namespace (pod # pods) allLogs =
     (case PodContainers pod of
        [] \<Rightarrow> collect_logs env namespace pods allLogs
      | container # rest \<Rightarrow> do {
          r \<leftarrow> getPodLogs env pod container namespace;
          collect_logs env namespace pods
            (case r of
               Inl e \<Rightarrow> allLogs
             | Inr logs \<Rightarrow> if logs \<noteq> '''' then allLogs @ [logs] else allLogs)
        })"

definition maxLogSize :: nat where "maxLogSize = 1024 * 1024"

definition truncation_notice :: string where
  "truncation_notice = ''... (logs truncated - output exceeds 1MB) ...'' @ [newline]"

definition combine_logs :: "string list \<Rightarrow> string" where
  "combine_logs allLogs =
     (let combined = Join allLogs ([newline] @ ''---'' @ [newline])
      in if maxLogSize < length combined
         then truncation_notice @ drop (length combined - maxLogSize) combined
         else combined)"

definition CaptureJobLogs :: "'k Env \<Rightarrow> string \<Rightarrow> string \<Rightarrow> ('k world, err + string) state" where
  "CaptureJobLogs env jobName namespace =
     do {
       r \<leftarrow> list_pods env namespace jobName;
       case r of
         Inl e \<Rightarrow> State_Monad.return (Inl (WrapError ''failed to list pods for job: '' e))
       | Inr pods \<Rightarrow>
           (if length pods = 0 then
              State_Monad.return (Inl (ErrorString (''no pods found for job '' @ jobName)))
            else do {
              allLogs \<leftarrow> collect_logs env namespace pods [];
              if length allLogs = 0 then
                State_Monad.return (Inl (ErrorString (''no logs found for job '' @ jobName)))
              else State_Monad.return (Inr (combine_logs allLogs))
            })
     }"

section \<open>The combined logs\<close>

lemma truncation_notice_length: "length truncation_notice = 46"
  by (simp add: truncation_notice_def)

lemma combine_logs_length: "length (combine_logs ls) \<le> maxLogSize + 46"
  by (simp add: combine_logs_def Let_def truncation_notice_length)

text \<open>What is dropped is at the front: the end of the output survives.\<close>

lemma combine_logs_suffix:
  fixes ls :: "string list"
  defines "combined \<equiv> Join ls ([newline] @ ''---'' @ [newline])"
  shows "if length combined \<le> maxLogSize then combine_logs ls = combined
    else \<exists>dropped kept. combined = dropped @ kept \<and> length kept = maxLogSize \<and>
      combine_logs ls = truncation_notice @ kept"
proof (cases "length combined \<le> maxLogSize")
  case False
  let ?n = "length combined - maxLogSize"
  have "combined = take ?n combined @ drop ?n combined" by simp
  moreover have "length (drop ?n combined) = maxLogSize" using False by simp
  moreover have "combine_logs ls = truncation_notice @ drop ?n combined"
    using False by (simp add: combine_logs_def Let_def combined_def)
  ultimately show ?thesis using False by metis
qed (simp add: combine_logs_def combined_def)

lemma Join_nonempty: "ls \<noteq> [] \<Longrightarrow> \<forall>l \<in> set ls. l \<noteq> [] \<Longrightarrow> Join ls sep \<noteq> []"
  by (induction ls sep rule: Join.induct) auto

lemma combine_logs_nonempty: "ls \<noteq> [] \<Longrightarrow> \<forall>l \<in> set ls. l \<noteq> [] \<Longrightarrow> combine_logs ls \<noteq> []"
  using Join_nonempty [of ls "[newline] @ ''---'' @ [newline]"]
  by (auto simp: combine_logs_def Let_def truncation_notice_def)

section \<open>What capturing does\<close>

text \<open>Only the pods of the job's namespace are read.\<close>

fun log_read :: "string \<Rightarrow> event \<Rightarrow> bool" where
  "log_read ns (EvListPods n j) = (n = ns)"
| "log_read ns (EvPodLogs n p c) = (n = ns)"
| "log_read ns _ = False"

lemma getPodLogs_emits: "emits (getPodLogs env pod c ns) (\<lambda>r es. list_all (log_read ns) es)"
  unfolding getPodLogs_def stream_pod_logs_def
  by (intro emits_call_bind emits_intros) auto

lemma collect_logs_emits:
  "\<forall>l \<in> set ls. l \<noteq> [] \<Longrightarrow>
   emits (collect_logs env ns pods ls) (\<lambda>r es. list_all (log_read ns) es \<and> (\<forall>l \<in> set r. l \<noteq> []))"
proof (induction pods arbitrary: ls)
  case Nil
  then show ?case by (simp add: emits_return)
next
  case (Cons pod pods)
  show ?case
  proof (cases "PodContainers pod")
    case Nil
    with Cons show ?thesis by simp
  next
    case c: (Cons c cs)
    show ?thesis unfolding collect_logs.simps c list.case
    proof (rule emits_bind [OF getPodLogs_emits])
      fix r :: "err + string" and es
      assume es: "list_all (log_read ns) es"
      have "\<forall>l \<in> set (case r of Inl e \<Rightarrow> ls | Inr logs \<Rightarrow> if logs \<noteq> '''' then ls @ [logs] else ls). l \<noteq> []"
        using Cons.prems by (auto split: sum.splits)
      from Cons.IH [OF this] show "emits (collect_logs env ns pods
          (case r of Inl e \<Rightarrow> ls | Inr logs \<Rightarrow> if logs \<noteq> '''' then ls @ [logs] else ls))
          (\<lambda>r es'. list_all (log_read ns) (es @ es') \<and> (\<forall>l \<in> set r. l \<noteq> []))"
        by (rule emits_mono) (use es in auto)
    qed
  qed
qed

lemma CaptureJobLogs_emits:
  "emits (CaptureJobLogs env jobName ns) (\<lambda>r es. list_all (log_read ns) es \<and>
     (\<forall>logs. r = Inr logs \<longrightarrow> logs \<noteq> [] \<and> length logs \<le> maxLogSize + 46))"
  unfolding CaptureJobLogs_def list_pods_def
  by (intro emits_call_bind emits_intros emits_bind [OF collect_logs_emits])
    (auto simp: combine_logs_nonempty combine_logs_length)

section \<open>Properties\<close>

text \<open>
  Combining the logs of a job's pods keeps everything up to one MiB; of longer output
  exactly the last MiB survives, after the truncation notice.
\<close>

lemma truncation_keeps_the_end:
  "let combined = Join ls ([newline] @ ''---'' @ [newline]) in
   if length combined \<le> maxLogSize then combine_logs ls = combined
   else \<exists>dropped kept. combined = dropped @ kept \<and> length kept = maxLogSize \<and>
     combine_logs ls = truncation_notice @ kept"
  unfolding Let_def by (rule combine_logs_suffix)

text \<open>
  Capturing the logs of a job lists pods and reads logs in the job's namespace only and
  changes nothing; captured logs are not empty and at most one MiB and the 46 bytes of the
  notice long.
\<close>

lemma capture_is_bounded:
  "emits (CaptureJobLogs env name ns) (\<lambda>r es. list_all (log_read ns) es \<and>
     (case r of Inl e \<Rightarrow> True | Inr logs \<Rightarrow> logs \<noteq> '''' \<and> length logs \<le> maxLogSize + 46))"
  by (rule emits_mono [OF CaptureJobLogs_emits]) (auto split: sum.splits)

end
