(* ===== verification/Ctl_Jobs.thy ===== *)
theory Ctl_Jobs
  imports Ctl_Registry Job_Builder Job_Logs
begin

text \<open>
  The part of the controller that owns the converge jobs: \<open>storeJobLogs\<close>,
  \<open>monitorJobCompletion\<close> and \<open>ensureJobExists\<close>. The relations \<open>monitoring\<close>,
  \<open>creation\<close> and \<open>handling\<close> say which sequences of API calls, with which answers, the
  handlers make and what they return; the refinement lemmas show that the code keeps to them.
\<close>

section \<open>The model\<close>

definition storeJobLogs :: "'k Env \<Rightarrow> WerfBundle \<Rightarrow> string \<Rightarrow> string \<Rightarrow> ('k world, err + string) state" where
  "storeJobLogs env wb name logs =
     (if length logs \<le> 5120 then State_Monad.return (Inr logs)
      else
        let configMapName = name @ ''-logs'';
            cm = \<lparr>CmName = configMapName, CmNamespace = Namespace wb, CmData = [(''output'', logs)], CmOwner = None\<rparr>;
            reference = ''See ConfigMap '' @ configMapName @ '' for full logs''
        in (case SetControllerReference env wb cm of
              Inl e \<Rightarrow> State_Monad.return (Inl e)
            | Inr cm \<Rightarrow> do {
                c \<leftarrow> create_configmap env cm;
                case c of
                  None \<Rightarrow> State_Monad.return (Inr reference)
                | Some e \<Rightarrow>
                    (if IsAlreadyExists env e then do {
                       u \<leftarrow> update_configmap env cm;
                       case u of
                         None \<Rightarrow> State_Monad.return (Inr reference)
                       | Some e \<Rightarrow> State_Monad.return (Inl e)
                     } else State_Monad.return (Inl e))
              }))"

text \<open>Capture and store, the errors of both ignored.\<close>

definition attach_logs :: "'k Env \<Rightarrow> WerfBundle \<Rightarrow> Job \<Rightarrow> ('k world, WerfBundle) state" where
  "attach_logs env wb job =
     do {
       l \<leftarrow> CaptureJobLogs env (JobName job) (JobNamespace job);
       case l of
         Inl e \<Rightarrow> State_Monad.return wb
       | Inr jobLogs \<Rightarrow> do {
           s \<leftarrow> storeJobLogs env wb (JobName job) jobLogs;
           case s of
             Inl e \<Rightarrow> State_Monad.return wb
           | Inr statusLogs \<Rightarrow>
               State_Monad.return (wb\<lparr>Status := (Status wb)\<lparr>LastJobLogs := statusLogs\<rparr>\<rparr>)
         }
     }"

definition monitorJobCompletion ::
  "'k Env \<Rightarrow> WerfBundle \<Rightarrow> Job \<Rightarrow> string \<Rightarrow> ('k world, reconcile_result) state" where
  "monitorJobCompletion env wb job latestTag =
     (if 0 < sint (Succeeded job) then do {
        wb \<leftarrow> attach_logs env
          (wb\<lparr>Status := (Status wb)\<lparr>LastJobStatus := JobStatusSucceeded, ActiveJobName := ''''\<rparr>\<rparr>) job;
        u \<leftarrow> updateStatusSynced env wb latestTag;
        case u of Inl e \<Rightarrow> fail_with e | Inr wb \<Rightarrow> finish
      } else if 0 < sint (Failed job) then do {
        wb \<leftarrow> attach_logs env
          (wb\<lparr>Status := (Status wb)\<lparr>LastJobStatus := JobStatusFailed, ActiveJobName := ''''\<rparr>\<rparr>) job;
        u \<leftarrow> updateStatusFailed env wb ''Job failed, see job logs for details'';
        case u of Inl e \<Rightarrow> fail_with e | Inr wb \<Rightarrow> finish
      } else requeue (duration_of (5 * second)))"

text \<open>The second half of \<open>ensureJobExists\<close>, reached when no job is active.\<close>

definition create_converge_job ::
  "'k Env \<Rightarrow> WerfBundle \<Rightarrow> string \<Rightarrow> ('k world, reconcile_result) state" where
  "create_converge_job env wb latestTag =
     do {
       s \<leftarrow> updateStatusSyncing env wb latestTag;
       case s of
         Inl e \<Rightarrow> fail_with e
       | Inr wb \<Rightarrow> do {
           b \<leftarrow> Build env (controller_builder env wb) latestTag;
           case b of
             Panic msg \<Rightarrow> State_Monad.return (Panic msg)
           | Ret b \<Rightarrow>
               (case b of
                  Inl e \<Rightarrow> do {
                    u \<leftarrow> updateStatusFailed env wb (''Failed to build Job: '' @ Error e);
                    case u of Inl e \<Rightarrow> fail_with e | Inr wb \<Rightarrow> finish
                  }
                | Inr job \<Rightarrow> do {
                    c \<leftarrow> create_job env job;
                    case c of
                      Some e \<Rightarrow> do {
                        u \<leftarrow> updateStatusFailed env wb (''Failed to create Job: '' @ Error e);
                        case u of Inl e \<Rightarrow> fail_with e | Inr wb \<Rightarrow> finish
                      }
                    | None \<Rightarrow> do {
                        u \<leftarrow> update_status env (wb\<lparr>Status := (Status wb)\<lparr>ActiveJobName := JobName job,
                               LastJobStatus := JobStatusRunning\<rparr>\<rparr>);
                        case u of Inl e \<Rightarrow> fail_with e | Inr wb \<Rightarrow> requeue (duration_of (5 * second))
                      }
                  })
         }
     }"

definition ensureJobExists :: "'k Env \<Rightarrow> WerfBundle \<Rightarrow> string \<Rightarrow> ('k world, reconcile_result) state" where
  "ensureJobExists env wb latestTag =
     (if ActiveJobName (Status wb) \<noteq> '''' then do {
        r \<leftarrow> get_job env (key (ActiveJobName (Status wb))
               (GetTargetNamespace (Converge (Spec wb)) (Namespace wb)));
        case r of
          Inl e \<Rightarrow>
            (if \<not> IsNotFound env e then fail_with e
             else create_converge_job env (wb\<lparr>Status := (Status wb)\<lparr>ActiveJobName := ''''\<rparr>\<rparr>) latestTag)
        | Inr activeJob \<Rightarrow> monitorJobCompletion env wb activeJob latestTag
      } else create_converge_job env wb latestTag)"

section \<open>Storing the logs\<close>

definition log_reference :: "string \<Rightarrow> string" where
  "log_reference name = ''See ConfigMap '' @ name @ ''-logs for full logs''"

definition log_configmap :: "WerfBundle \<Rightarrow> string \<Rightarrow> string \<Rightarrow> ConfigMap \<Rightarrow> bool" where
  "log_configmap wb name logs cm \<longleftrightarrow> CmName cm = name @ ''-logs'' \<and> CmNamespace cm = Namespace wb
     \<and> CmData cm = [(''output'', logs)]"

text \<open>The events of storing, and where the full logs are when it succeeds.\<close>

fun log_store :: "WerfBundle \<Rightarrow> string \<Rightarrow> string \<Rightarrow> event \<Rightarrow> bool" where
  "log_store wb name logs (EvCreateConfigMap cm a) = log_configmap wb name logs cm"
| "log_store wb name logs (EvUpdateConfigMap cm a) = log_configmap wb name logs cm"
| "log_store wb name logs _ = False"

definition logs_saved :: "WerfBundle \<Rightarrow> string \<Rightarrow> string \<Rightarrow> string \<Rightarrow> event list \<Rightarrow> bool" where
  "logs_saved wb name logs s es \<longleftrightarrow>
     (if length logs \<le> 5120 then s = logs \<and> es = []
      else s = log_reference name \<and> (\<exists>cm. log_configmap wb name logs cm \<and>
             (EvCreateConfigMap cm None \<in> set es \<or> EvUpdateConfigMap cm None \<in> set es)))"

lemma storeJobLogs_emits:
  assumes "server_keeps env"
  shows "emits (storeJobLogs env wb name logs) (\<lambda>r es. list_all (log_store wb name logs) es \<and>
    (case r of Inl e \<Rightarrow> 5120 < length logs | Inr s \<Rightarrow> logs_saved wb name logs s es))"
proof -
  have keep: "log_configmap wb name logs cm'"
    if "SetControllerReference env wb \<lparr>CmName = name @ ''-logs'', CmNamespace = Namespace wb,
      CmData = [(''output'', logs)], CmOwner = None\<rparr> = Inr cm'" for cm'
    using server_keepsD(5) [OF assms that] by (simp add: log_configmap_def)
  show ?thesis unfolding storeJobLogs_def Let_def create_configmap_def update_configmap_def
    by (intro emits_intros emits_call_bind)
      (auto simp: logs_saved_def log_reference_def dest!: keep)
qed

text \<open>The events of capturing and storing the logs of a job.\<close>

fun log_event :: "WerfBundle \<Rightarrow> Job \<Rightarrow> event \<Rightarrow> bool" where
  "log_event wb job (EvListPods n j) = (n = JobNamespace job)"
| "log_event wb job (EvPodLogs n p c) = (n = JobNamespace job)"
| "log_event wb job (EvCreateConfigMap cm a) =
     (\<exists>logs. log_configmap wb (JobName job) logs cm \<and> length logs \<le> maxLogSize + 46)"
| "log_event wb job (EvUpdateConfigMap cm a) =
     (\<exists>logs. log_configmap wb (JobName job) logs cm \<and> length logs \<le> maxLogSize + 46)"
| "log_event wb job _ = False"

text \<open>The log field of the status stays small.\<close>

definition status_logs :: "string \<Rightarrow> string \<Rightarrow> string \<Rightarrow> bool" where
  "status_logs old name s \<longleftrightarrow> s = old \<or> length s \<le> 5120 \<or> s = log_reference name"

lemma log_read_event: "log_read (JobNamespace job) ev \<Longrightarrow> log_event wb job ev"
  by (cases ev) auto

lemma log_store_event:
  "log_store wb (JobName job) logs ev \<Longrightarrow> length logs \<le> maxLogSize + 46 \<Longrightarrow> log_event wb job ev"
  by (cases ev) auto

lemma attach_logs_emits:
  assumes "server_keeps env"
  shows "emits (attach_logs env wb job) (\<lambda>wb' es. list_all (log_event wb job) es \<and>
    (\<exists>s. wb' = wb\<lparr>Status := (Status wb)\<lparr>LastJobLogs := s\<rparr>\<rparr> \<and>
      status_logs (LastJobLogs (Status wb)) (JobName job) s))"
  unfolding attach_logs_def
proof (rule emits_bind [OF CaptureJobLogs_emits], intro emits_intros, goal_cases)
  case (1 r es e)
  then show ?case
    by (auto simp: list_all_iff status_logs_def intro: log_read_event exI [of _ "LastJobLogs (Status wb)"])
next
  case (2 r es logs)
  then have es: "list_all (log_event wb job) es" and len: "length logs \<le> maxLogSize + 46"
    by (auto simp: list_all_iff intro: log_read_event)
  show ?case
  proof (rule emits_bind [OF storeJobLogs_emits [OF assms]], intro emits_intros, goal_cases)
    case (1 r es' e)
    with es len show ?case
      by (auto simp: list_all_iff status_logs_def intro: log_store_event exI [of _ "LastJobLogs (Status wb)"])
  next
    case (2 r es' s)
    with es len show ?case
      by (auto simp: list_all_iff status_logs_def logs_saved_def intro: log_store_event split: if_splits)
  qed
qed

section \<open>Monitoring a job\<close>

definition finished_status :: "WerfBundle \<Rightarrow> Job \<Rightarrow> string \<Rightarrow> WerfBundleStatus \<Rightarrow> bool" where
  "finished_status wb job result st \<longleftrightarrow>
     LastJobStatus st = result \<and> ActiveJobName st = '''' \<and>
     status_logs (LastJobLogs (Status wb)) (JobName job) (LastJobLogs st) \<and>
     ConsecutiveFailures st = ConsecutiveFailures (Status wb) \<and> LastETag st = LastETag (Status wb)"

inductive monitoring ::
  "WerfBundle \<Rightarrow> Job \<Rightarrow> string \<Rightarrow> reconcile_result \<Rightarrow> event list \<Rightarrow> bool"
  for wb :: WerfBundle and job :: Job and tag :: string
where
  succeeded: "0 < sint (Succeeded job) \<Longrightarrow> list_all (log_event wb job) es \<Longrightarrow>
    finished_status wb job JobStatusSucceeded st \<Longrightarrow> Phase st = PhaseSynced \<Longrightarrow>
    LastAppliedTag st = tag \<Longrightarrow> LastErrorMessage st = '''' \<Longrightarrow>
    monitoring wb job tag (Ret (0, u)) (es @ [EvUpdateStatus (wb\<lparr>Status := st\<rparr>) u])"
| failed: "\<not> 0 < sint (Succeeded job) \<Longrightarrow> 0 < sint (Failed job) \<Longrightarrow> list_all (log_event wb job) es \<Longrightarrow>
    finished_status wb job JobStatusFailed st \<Longrightarrow> Phase st = PhaseFailed \<Longrightarrow>
    LastAppliedTag st = LastAppliedTag (Status wb) \<Longrightarrow>
    LastErrorMessage st = ''Job failed, see job logs for details'' \<Longrightarrow>
    monitoring wb job tag (Ret (0, u)) (es @ [EvUpdateStatus (wb\<lparr>Status := st\<rparr>) u])"
| running: "\<not> 0 < sint (Succeeded job) \<Longrightarrow> \<not> 0 < sint (Failed job) \<Longrightarrow>
    monitoring wb job tag (Ret (duration_of (5 * second), None)) []"

lemma log_event_status [simp]: "log_event (wb\<lparr>Status := st\<rparr>) job = log_event wb job"
  by (rule ext, rename_tac ev, case_tac ev) (auto simp: log_configmap_def)

lemma monitoring_refinement:
  assumes "server_keeps env"
  shows "emits (monitorJobCompletion env wb job tag) (monitoring wb job tag)"
  unfolding monitorJobCompletion_def result_defs
proof (intro emits_intros, goal_cases)
  case 1
  show ?case
    by (rule emits_bind [OF attach_logs_emits [OF assms]], rule synced.write_then [OF assms])
      (use 1 in \<open>auto simp: written_def status_frame_def finished_status_def
        intro!: emits_return monitoring.succeeded\<close>)
next
  case 2
  show ?case
    by (rule emits_bind [OF attach_logs_emits [OF assms]], rule failed.write_then [OF assms])
      (use 2 in \<open>auto simp: written_def status_frame_def finished_status_def
        intro!: emits_return monitoring.failed\<close>)
qed (rule monitoring.running)

section \<open>Creating a job\<close>

text \<open>
  The bundle as it is saved before the job is built: the same object, in phase Syncing, its
  applied tag already the new one.
\<close>

definition claimed :: "WerfBundle \<Rightarrow> string \<Rightarrow> WerfBundle \<Rightarrow> bool" where
  "claimed wb tag b \<longleftrightarrow> same_object wb b \<and> written PhaseSyncing wb (Status b) \<and>
     LastAppliedTag (Status b) = (if tag \<noteq> '''' then tag else LastAppliedTag (Status wb))"

definition reads_of :: "WerfBundle \<Rightarrow> event \<Rightarrow> bool" where
  "reads_of wb = values_read (Namespace wb) (GetTargetNamespace (Converge (Spec wb)) (Namespace wb))"

inductive creation ::
  "'k Env \<Rightarrow> WerfBundle \<Rightarrow> string \<Rightarrow> reconcile_result \<Rightarrow> event list \<Rightarrow> bool"
  for env :: "'k Env" and wb :: WerfBundle and tag :: string
where
  not_claimed: "claimed wb tag b \<Longrightarrow> creation env wb tag (Ret (0, Some e)) [EvUpdateStatus b (Some e)]"
| panicked: "claimed wb tag b \<Longrightarrow> list_all (reads_of wb) es \<Longrightarrow> built env wb tag (Panic msg) \<Longrightarrow>
    creation env wb tag (Panic msg) (EvUpdateStatus b None # es)"
| not_built: "claimed wb tag b \<Longrightarrow> list_all (reads_of wb) es \<Longrightarrow> built env wb tag (Ret (Inl e)) \<Longrightarrow>
    same_object wb b' \<Longrightarrow> written PhaseFailed b (Status b') \<Longrightarrow>
    LastErrorMessage (Status b') = ''Failed to build Job: '' @ Error e \<Longrightarrow>
    LastAppliedTag (Status b') = LastAppliedTag (Status b) \<Longrightarrow>
    creation env wb tag (Ret (0, u)) (EvUpdateStatus b None # es @ [EvUpdateStatus b' u])"
| rejected: "claimed wb tag b \<Longrightarrow> list_all (reads_of wb) es \<Longrightarrow> built env wb tag (Ret (Inr job)) \<Longrightarrow>
    same_object wb b' \<Longrightarrow> written PhaseFailed b (Status b') \<Longrightarrow>
    LastErrorMessage (Status b') = ''Failed to create Job: '' @ Error e \<Longrightarrow>
    LastAppliedTag (Status b') = LastAppliedTag (Status b) \<Longrightarrow>
    creation env wb tag (Ret (0, u))
      (EvUpdateStatus b None # es @ [EvCreateJob job (Some e), EvUpdateStatus b' u])"
| created: "claimed wb tag b \<Longrightarrow> list_all (reads_of wb) es \<Longrightarrow> built env wb tag (Ret (Inr job)) \<Longrightarrow>
    same_object wb b' \<Longrightarrow> Status b' = (Status b)\<lparr>ActiveJobName := JobName job, LastJobStatus := JobStatusRunning\<rparr> \<Longrightarrow>
    r = (case u of None \<Rightarrow> Ret (duration_of (5 * second), None) | Some e \<Rightarrow> Ret (0, Some e)) \<Longrightarrow>
    creation env wb tag r (EvUpdateStatus b None # es @ [EvCreateJob job None, EvUpdateStatus b' u])"

lemma built_same_object:
  assumes "same_object wb wb'"
  shows "built env wb' tag = built env wb tag" "reads_of wb' = reads_of wb"
proof -
  from assms have eqs: "Name wb' = Name wb" "Namespace wb' = Namespace wb" "UID wb' = UID wb" "Spec wb' = Spec wb"
    by (simp_all add: same_object_def)
  show "built env wb' tag = built env wb tag"
    by (rule ext)
      (simp add: built_def job_name_result_def job_for_def converge_args_def job_labels_def quantities_def
        bad_quantity_def resource_text_def getLogRetentionSeconds_def eqs cong: outcome.case_cong sum.case_cong)
  show "reads_of wb' = reads_of wb" by (simp add: reads_of_def eqs)
qed

lemma Build_reads:
  assumes "same_object wb wb'"
  shows "emits (Build env (controller_builder env wb') tag)
    (\<lambda>r es. built env wb tag r \<and> list_all (reads_of wb) es)"
  using controller_Build_emits [of env wb' tag] built_same_object(1) [OF assms, of env tag] built_same_object(2) [OF assms]
  by (simp add: reads_of_def)

lemma creation_refinement:
  assumes "server_keeps env"
  shows "emits (create_converge_job env wb tag) (creation env wb tag)"
  unfolding create_converge_job_def result_defs
proof (rule syncing.write_then [OF assms], goal_cases)
  case (1 st e)
  then show ?case by (auto simp: claimed_def intro!: emits_return creation.not_claimed)
next
  case (2 st wb')
  then have cl: "claimed wb tag (wb\<lparr>Status := st\<rparr>)" and same: "same_object wb wb'" and st: "Status wb' = st"
    by (simp_all add: claimed_def)
  show ?case unfolding sum.case
  proof (rule emits_bind [OF Build_reads [OF same]], intro emits_intros, goal_cases)
    case (1 r es b e)
    then show ?case
      by (intro failed.write_then [OF assms] emits_intros)
        (auto simp: cl same st written_def status_frame_def intro!: emits_return creation.not_built)
  next
    case (2 r es b job)
    then show ?case unfolding create_job_def
      apply (intro emits_call_bind emits_intros failed.write_then [OF assms]
          emits_bind [OF update_status_emits [OF assms]])
      apply (auto simp: cl same st written_def status_frame_def
          intro!: emits_return creation.rejected creation.created)
      done
  next
    case (3 r es msg)
    then show ?case by (auto intro!: creation.panicked simp: cl)
  qed
qed

section \<open>Ensuring that a job exists\<close>

definition target_of :: "WerfBundle \<Rightarrow> string" where
  "target_of wb = GetTargetNamespace (Converge (Spec wb)) (Namespace wb)"

definition active_key :: "WerfBundle \<Rightarrow> NamespacedName" where
  "active_key wb = key (ActiveJobName (Status wb)) (target_of wb)"

definition forget_job :: "WerfBundle \<Rightarrow> WerfBundle" where
  "forget_job wb = wb\<lparr>Status := (Status wb)\<lparr>ActiveJobName := ''''\<rparr>\<rparr>"

inductive handling ::
  "'k Env \<Rightarrow> WerfBundle \<Rightarrow> string \<Rightarrow> reconcile_result \<Rightarrow> event list \<Rightarrow> bool"
  for env :: "'k Env" and wb :: WerfBundle and tag :: string
where
  idle: "ActiveJobName (Status wb) = '''' \<Longrightarrow> creation env wb tag r es \<Longrightarrow> handling env wb tag r es"
| unreadable: "ActiveJobName (Status wb) \<noteq> '''' \<Longrightarrow> \<not> IsNotFound env e \<Longrightarrow>
    handling env wb tag (Ret (0, Some e)) [EvGetJob (active_key wb) (Inl e)]"
| lost: "ActiveJobName (Status wb) \<noteq> '''' \<Longrightarrow> IsNotFound env e \<Longrightarrow> creation env (forget_job wb) tag r es \<Longrightarrow>
    handling env wb tag r (EvGetJob (active_key wb) (Inl e) # es)"
| active: "ActiveJobName (Status wb) \<noteq> '''' \<Longrightarrow> JobName job = ActiveJobName (Status wb) \<Longrightarrow>
    JobNamespace job = target_of wb \<Longrightarrow> monitoring wb job tag r es \<Longrightarrow>
    handling env wb tag r (EvGetJob (active_key wb) (Inr job) # es)"

lemma handling_refinement:
  assumes "server_keeps env"
  shows "emits (ensureJobExists env wb tag) (handling env wb tag)"
proof (cases "ActiveJobName (Status wb) = ''''")
  case True
  then show ?thesis
    by (auto simp: ensureJobExists_def intro: emits_mono [OF creation_refinement [OF assms]] handling.idle)
next
  case False
  have key_eq: "key (ActiveJobName (Status wb)) (GetTargetNamespace (Converge (Spec wb)) (Namespace wb))
      = active_key wb" by (simp add: active_key_def target_of_def)
  show ?thesis unfolding ensureJobExists_def get_job_def key_eq fail_with_def
  proof (simp only: False not_True_eq_False not_False_eq_True if_True, rule emits_call_answer_bind,
      intro emits_intros, goal_cases)
    case (1 k r k' e)
    with False show ?case by (auto intro: handling.unreadable)
  next
    case (2 k r k' e)
    then show ?case
      by (auto simp: False intro!: emits_mono [OF creation_refinement [OF assms]]
          handling.lost [unfolded forget_job_def])
  next
    case (3 k r k' job)
    then have "JobName job = ActiveJobName (Status wb) \<and> JobNamespace job = target_of wb"
      using server_keepsD(4) [OF assms] by (simp add: active_key_def)
    with 3 False show ?case
      by (auto intro!: emits_mono [OF monitoring_refinement [OF assms]] handling.active)
  qed
qed

section \<open>Which jobs are created\<close>

fun is_create :: "event \<Rightarrow> bool" where
  "is_create (EvCreateJob j a) = True"
| "is_create _ = False"

lemma reads_no_create: "list_all (reads_of wb) es \<Longrightarrow> filter is_create es = []"
  by (auto simp: list_all_iff filter_empty_conv reads_of_def elim!: is_create.elims)

lemma log_events_no_create: "list_all (log_event wb job) es \<Longrightarrow> filter is_create es = []"
  by (auto simp: list_all_iff filter_empty_conv elim!: is_create.elims)

lemma monitoring_no_create: "monitoring wb job tag r es \<Longrightarrow> filter is_create es = []"
  by (induction rule: monitoring.induct) (auto simp: log_events_no_create)

text \<open>
  A created job is one that \<open>Build\<close> made for this bundle and tag, and before it the bundle
  was saved as Syncing; no handler creates two.
\<close>

definition announced :: "'k Env \<Rightarrow> WerfBundle \<Rightarrow> string \<Rightarrow> event list \<Rightarrow> bool" where
  "announced env wb tag es \<longleftrightarrow>
     (\<forall>pre j a post. es = pre @ EvCreateJob j a # post \<longrightarrow>
        built env wb tag (Ret (Inr j)) \<and>
        filter is_create pre = [] \<and> filter is_create post = [] \<and>
        (\<exists>b. EvUpdateStatus b None \<in> set pre \<and> same_object wb b \<and> Phase (Status b) = PhaseSyncing \<and>
           (tag \<noteq> '''' \<longrightarrow> LastAppliedTag (Status b) = tag)))"

lemma announced_no_create: "filter is_create es = [] \<Longrightarrow> announced env wb tag es"
  by (auto simp: announced_def)

lemma announced_create:
  assumes "claimed wb tag b" "filter is_create es = []" "built env wb tag (Ret (Inr job))"
    "filter is_create rest = []"
  shows "announced env wb tag (EvUpdateStatus b None # es @ EvCreateJob job a # rest)"
  unfolding announced_def
proof (intro allI impI)
  fix pre j a' post
  assume split: "EvUpdateStatus b None # es @ EvCreateJob job a # rest = pre @ EvCreateJob j a' # post"
  have "filter is_create (EvUpdateStatus b None # es @ EvCreateJob job a # rest) = [EvCreateJob job a]"
    using assms(2,4) by simp
  then have "filter is_create pre @ EvCreateJob j a' # filter is_create post = [EvCreateJob job a]"
    unfolding split by simp
  then have none: "filter is_create pre = []" "filter is_create post = []" "j = job"
    by (auto simp: append_eq_Cons_conv)
  from split have "pre \<noteq> []" by auto
  with split have "EvUpdateStatus b None \<in> set pre" by (cases pre) auto
  with none assms(1,3) show "built env wb tag (Ret (Inr j)) \<and> filter is_create pre = [] \<and>
      filter is_create post = [] \<and>
      (\<exists>b. EvUpdateStatus b None \<in> set pre \<and> same_object wb b \<and> Phase (Status b) = PhaseSyncing \<and>
         (tag \<noteq> '''' \<longrightarrow> LastAppliedTag (Status b) = tag))"
    by (auto simp: claimed_def written_def)
qed

lemma creation_announced: "creation env wb tag r es \<Longrightarrow> announced env wb tag es"
  by (induction rule: creation.induct)
    (auto simp: reads_no_create intro: announced_no_create announced_create)

lemma split_after_prefix:
  assumes "filter is_create pre = []" "pre @ es = pre' @ EvCreateJob j a # post"
  shows "\<exists>mid. pre' = pre @ mid \<and> es = mid @ EvCreateJob j a # post"
proof -
  have "EvCreateJob j a \<notin> set pre" using assms(1) by (auto simp: filter_empty_conv)
  with assms(2) show ?thesis
    by (auto simp: append_eq_append_conv2 append_eq_Cons_conv Cons_eq_append_conv)
qed

lemma announced_prefix:
  assumes "filter is_create pre = []" "announced env wb tag es"
  shows "announced env wb tag (pre @ es)"
  unfolding announced_def
proof (intro allI impI)
  fix pre' j a post
  assume split: "pre @ es = pre' @ EvCreateJob j a # post"
  from split_after_prefix [OF assms(1) split] obtain mid
    where mid: "pre' = pre @ mid" "es = mid @ EvCreateJob j a # post" by blast
  with assms show "built env wb tag (Ret (Inr j)) \<and> filter is_create pre' = [] \<and>
      filter is_create post = [] \<and>
      (\<exists>b. EvUpdateStatus b None \<in> set pre' \<and> same_object wb b \<and> Phase (Status b) = PhaseSyncing \<and>
         (tag \<noteq> '''' \<longrightarrow> LastAppliedTag (Status b) = tag))"
    unfolding announced_def by fastforce
qed

lemma forget_job_same [simp]: "same_object wb (forget_job wb)" "Status (forget_job wb) = (Status wb)\<lparr>ActiveJobName := ''''\<rparr>"
  by (simp_all add: forget_job_def same_object_def)

lemma same_object_cong: "same_object wb wb' \<Longrightarrow> same_object wb' = same_object wb"
  by (rule ext) (auto simp: same_object_def)

lemma announced_same_object: "same_object wb wb' \<Longrightarrow> announced env wb' tag es = announced env wb tag es"
  unfolding announced_def by (simp add: built_same_object same_object_cong)

lemma handling_announced: "handling env wb tag r es \<Longrightarrow> announced env wb tag es"
proof (induction rule: handling.induct)
  case (lost e r es)
  then have "announced env wb tag es"
    using creation_announced announced_same_object [OF forget_job_same(1)] by blast
  then show ?case using announced_prefix [of "[EvGetJob (active_key wb) (Inl e)]"] by simp
next
  case (active job r es)
  then show ?case by (auto simp: monitoring_no_create intro!: announced_no_create)
qed (auto intro: creation_announced announced_no_create)

text \<open>While the recorded job exists, none is created.\<close>

lemma reads_no_get: "list_all (reads_of wb) es \<Longrightarrow> EvGetJob k found \<notin> set es"
  by (auto simp: reads_of_def list_all_iff dest!: bspec [of _ _ "EvGetJob k found"])

lemma creation_no_get: "creation env wb tag r es \<Longrightarrow> EvGetJob k found \<notin> set es"
  by (induction rule: creation.induct) (auto simp: reads_no_get)

lemma handling_active_no_create:
  "handling env wb tag r es \<Longrightarrow> EvGetJob k (Inr j) \<in> set es \<Longrightarrow> filter is_create es = []"
  by (induction rule: handling.induct) (auto simp: monitoring_no_create creation_no_get)

inductive_cases creation_panicE: "creation env wb tag (Panic msg) es"
inductive_cases handling_panicE: "handling env wb tag (Panic msg) es"

text \<open>The first call of a creation claims the tag.\<close>

lemma creation_claims: "creation env wb tag r (EvUpdateStatus b None # es) \<Longrightarrow> claimed wb tag b"
  by (erule creation.cases) auto

text \<open>A tag with a short hash: the tag is claimed, then the run panics without a job.\<close>

lemma creation_short_hash:
  assumes "creation env wb tag r es" "unat (fnv32a tag) < 2 ^ 28"
  shows "(\<exists>b e. claimed wb tag b \<and> es = [EvUpdateStatus b (Some e)] \<and> r = Ret (0, Some e)) \<or>
    (\<exists>b msg rest. claimed wb tag b \<and> es = EvUpdateStatus b None # rest \<and> list_all (reads_of wb) rest \<and> r = Panic msg)"
  using assms by cases (auto simp: built_def job_name_result_def)

end
