(* ===== verification/Sa_Validator.thy ===== *)
theory Sa_Validator
  imports Kube_Env
begin

text \<open>
  \<open>internal/rbac/validator.go\<close>: the pre-flight check that a ServiceAccount exists.
\<close>

text \<open>The format \<open>'%s'\<close>.\<close>

abbreviation in_quotes :: "string \<Rightarrow> string" where
  "in_quotes s \<equiv> [CHR 0x27] @ s @ [CHR 0x27]"

definition ValidateServiceAccountExists ::
  "'k Env \<Rightarrow> string \<Rightarrow> string \<Rightarrow> ('k world, err option) state" where
  "ValidateServiceAccountExists env name namespace =
     do {
       r \<leftarrow> get_service_account env (key name namespace);
       case r of
         Some e \<Rightarrow>
           (if IsNotFound env e then
              State_Monad.return (Some (ErrorString
                (''ServiceAccount '' @ in_quotes name @ '' not found in namespace '' @ in_quotes namespace)))
            else
              State_Monad.return (Some (WrapError
                (''failed to get ServiceAccount '' @ in_quotes name @ '' in namespace ''
                  @ in_quotes namespace @ '': '') e)))
       | None \<Rightarrow> State_Monad.return None
     }"

text \<open>The check makes one read and succeeds exactly when the API server finds the account.\<close>

lemma ValidateServiceAccountExists_emits:
  "emits (ValidateServiceAccountExists env name namespace)
     (\<lambda>r es. \<exists>a. es = [EvGetServiceAccount (key name namespace) a] \<and> (r = None \<longleftrightarrow> a = None))"
  unfolding ValidateServiceAccountExists_def get_service_account_def
  by (intro emits_call_bind emits_intros) auto

section \<open>Properties\<close>

text \<open>
  the pre-flight check makes exactly one read, of that account in that namespace. It
  passes when the API server finds the account; a missing account gives a plain error, any
  other failure stays in the error's chain.
\<close>

theorem account_check_is_one_read:
  "emits (ValidateServiceAccountExists env name namespace) (\<lambda>r es. \<exists>a.
     es = [EvGetServiceAccount (key name namespace) a] \<and>
     (case a of None \<Rightarrow> r = None
      | Some x \<Rightarrow> \<exists>e. r = Some e \<and> Unwrap e = (if IsNotFound env x then None else Some x)))"
  unfolding ValidateServiceAccountExists_def get_service_account_def
  by (intro emits_call_bind emits_intros) auto

end
