(* ===== verification/Ctl_Reconcile.thy ===== *)
theory Ctl_Reconcile
  imports Ctl_Jobs Sa_Validator
begin

text \<open>
  \<open>Reconcile\<close> and \<open>validateServiceAccount\<close> of the controller. The body of \<open>Reconcile\<close> is
  cut at its early returns into stages: a stage ends the run with a result (\<open>Inl\<close>) or goes
  on with the bundle (\<open>Inr\<close>). The relation \<open>reconciling\<close> lists the sequences of API calls
  one run can make, and \<open>Reconcile_refinement\<close> shows that the code makes no others.
\<close>

section \<open>The model\<close>

definition finalizerName :: string where "finalizerName = ''werf.io/finalizer''"

type_synonym stage_result = "reconcile_result + WerfBundle"

definition then_stage ::
  "('k world, stage_result) state \<Rightarrow> (WerfBundle \<Rightarrow> ('k world, reconcile_result) state) \<Rightarrow>
   ('k world, reconcile_result) state" where
  "then_stage m f = do { x \<leftarrow> m; case x of Inl r \<Rightarrow> State_Monad.return r | Inr wb \<Rightarrow> f wb }"

definition go_on :: "WerfBundle \<Rightarrow> ('k world, stage_result) state" where
  "go_on wb = State_Monad.return (Inr wb)"

definition stop :: "duration \<times> err option \<Rightarrow> ('k world, stage_result) state" where
  "stop r = State_Monad.return (Inl (Ret r))"

definition finalize :: "'k Env \<Rightarrow> WerfBundle \<Rightarrow> ('k world, reconcile_result) state" where
  "finalize env wb =
     (if ContainsFinalizer env (Finalizers wb) finalizerName then do {
        u \<leftarrow> update_bundle env (wb\<lparr>Finalizers := RemoveFinalizer env (Finalizers wb) finalizerName\<rparr>);
        case u of Inl e \<Rightarrow> fail_with e | Inr wb \<Rightarrow> finish
      } else finish)"

definition ensure_finalizer :: "'k Env \<Rightarrow> WerfBundle \<Rightarrow> ('k world, stage_result) state" where
  "ensure_finalizer env wb =
     (if \<not> ContainsFinalizer env (Finalizers wb) finalizerName then do {
        u \<leftarrow> update_bundle env (wb\<lparr>Finalizers := AddFinalizer env (Finalizers wb) finalizerName\<rparr>);
        case u of Inl e \<Rightarrow> stop (0, Some e) | Inr wb \<Rightarrow> go_on wb
      } else go_on wb)"

definition check_cross_namespace :: "'k Env \<Rightarrow> WerfBundle \<Rightarrow> ('k world, stage_result) state" where
  "check_cross_namespace env wb =
     (case ValidateCrossNamespaceDeployment wb of
        Some e \<Rightarrow> do {
          u \<leftarrow> updateStatusFailed env wb (Error e);
          case u of Inl updateErr \<Rightarrow> stop (0, Some updateErr) | Inr wb \<Rightarrow> stop (0, None)
        }
      | None \<Rightarrow> go_on wb)"

definition store_target_namespace :: "'k Env \<Rightarrow> WerfBundle \<Rightarrow> ('k world, stage_result) state" where
  "store_target_namespace env wb =
     (let targetNamespace = GetTargetNamespace (Converge (Spec wb)) (Namespace wb) in
      if ResolvedTargetNamespace (Status wb) \<noteq> targetNamespace then do {
        u \<leftarrow> update_status env (wb\<lparr>Status := (Status wb)\<lparr>ResolvedTargetNamespace := targetNamespace\<rparr>\<rparr>);
        case u of Inl e \<Rightarrow> stop (0, Some e) | Inr wb \<Rightarrow> go_on wb
      } else go_on wb)"

definition validateServiceAccount :: "'k Env \<Rightarrow> WerfBundle \<Rightarrow> ('k world, err option) state" where
  "validateServiceAccount env wb =
     do {
       v \<leftarrow> ValidateServiceAccountExists env (ServiceAccountName (Converge (Spec wb)))
              (GetTargetNamespace (Converge (Spec wb)) (Namespace wb));
       case v of
         Some e \<Rightarrow> do {
           u \<leftarrow> updateStatusFailed env wb (Error e);
           case u of
             Inl updateErr \<Rightarrow> State_Monad.return (Some updateErr)
           | Inr wb \<Rightarrow> State_Monad.return (Some (ErrorString ''serviceaccount validation failed''))
         }
       | None \<Rightarrow> State_Monad.return None
     }"

definition check_service_account :: "'k Env \<Rightarrow> WerfBundle \<Rightarrow> ('k world, stage_result) state" where
  "check_service_account env wb =
     (if ServiceAccountName (Converge (Spec wb)) \<noteq> '''' then do {
        v \<leftarrow> validateServiceAccount env wb;
        case v of Some e \<Rightarrow> stop (0, None) | None \<Rightarrow> go_on wb
      } else go_on wb)"

definition poll_interval :: "'k Env \<Rightarrow> WerfBundle \<Rightarrow> duration" where
  "poll_interval env wb =
     (let s = PollInterval (Registry (Spec wb)) in
      if s \<noteq> '''' then (case ParseDuration (FractionNanos env) s of
          None \<Rightarrow> defaultPollInterval | Some parsed \<Rightarrow> parsed)
      else defaultPollInterval)"

text \<open>After a successful poll: the failure counter is reset, the ETag recorded.\<close>

definition polled :: "WerfBundle \<Rightarrow> string \<Rightarrow> WerfBundle" where
  "polled wb etag =
     (let wb = (if 0 < sint (ConsecutiveFailures (Status wb))
                then wb\<lparr>Status := (Status wb)\<lparr>ConsecutiveFailures := 0\<rparr>\<rparr> else wb)
      in wb\<lparr>Status := (Status wb)\<lparr>LastETag := etag\<rparr>\<rparr>)"

definition handle_tags ::
  "'k Env \<Rightarrow> WerfBundle \<Rightarrow> string list \<Rightarrow> duration \<Rightarrow> ('k world, reconcile_result) state" where
  "handle_tags env wb tags pollInterval =
     (if length tags = 0 then
        (if Phase (Status wb) = '''' \<or> Phase (Status wb) = PhaseFailed then do {
           u \<leftarrow> updateStatusSyncing env wb '''';
           case u of Inl e \<Rightarrow> fail_with e | Inr wb \<Rightarrow> requeue_jittered env pollInterval
         } else requeue_jittered env pollInterval)
      else
        let latestTag = tags ! (length tags - 1) in
        if LastAppliedTag (Status wb) = latestTag then
          (if Phase (Status wb) \<noteq> PhaseSynced then do {
             u \<leftarrow> updateStatusSynced env wb latestTag;
             case u of Inl e \<Rightarrow> fail_with e | Inr wb \<Rightarrow> finish
           } else finish)
        else ensureJobExists env wb latestTag)"

definition poll_and_deploy :: "'k Env \<Rightarrow> WerfBundle \<Rightarrow> ('k world, reconcile_result) state" where
  "poll_and_deploy env wb =
     (let pollInterval = poll_interval env wb in do {
        p \<leftarrow> poll_registry env (URL (Registry (Spec wb))) (LastETag (Status wb));
        case p of
          (tags, etag, Some e) \<Rightarrow> handleRegistryError env wb e pollInterval
        | (tags, etag, None) \<Rightarrow> handle_tags env (polled wb etag) tags pollInterval
      })"

definition Reconcile :: "'k Env \<Rightarrow> NamespacedName \<Rightarrow> ('k world, reconcile_result) state" where
  "Reconcile env req =
     do {
       b \<leftarrow> get_bundle env req;
       case b of
         Inl e \<Rightarrow> if IsNotFound env e then finish else fail_with e
       | Inr wb \<Rightarrow>
           (if DeletionTimestamp wb \<noteq> None then finalize env wb
            else then_stage (ensure_finalizer env wb) (\<lambda>wb.
                 then_stage (check_cross_namespace env wb) (\<lambda>wb.
                 then_stage (store_target_namespace env wb) (\<lambda>wb.
                 then_stage (check_service_account env wb) (\<lambda>wb.
                 poll_and_deploy env wb)))))
     }"

lemmas stage_defs = then_stage_def go_on_def stop_def

section \<open>The calls of one run\<close>

text \<open>The stages before the poll, as far as they succeed: the bundle they lead to.\<close>

definition with_finalizer :: "'k Env \<Rightarrow> WerfBundle \<Rightarrow> WerfBundle \<Rightarrow> event list \<Rightarrow> bool" where
  "with_finalizer env wb wb' es \<longleftrightarrow>
     (if ContainsFinalizer env (Finalizers wb) finalizerName then wb' = wb \<and> es = []
      else same_object wb wb' \<and>
        es = [EvUpdateBundle (wb\<lparr>Finalizers := AddFinalizer env (Finalizers wb) finalizerName\<rparr>) (Inr wb')])"

definition set_target :: "WerfBundle \<Rightarrow> WerfBundle" where
  "set_target wb = wb\<lparr>Status := (Status wb)\<lparr>ResolvedTargetNamespace := target_of wb\<rparr>\<rparr>"

definition with_target :: "WerfBundle \<Rightarrow> WerfBundle \<Rightarrow> event list \<Rightarrow> bool" where
  "with_target wb wb' es \<longleftrightarrow>
     (if ResolvedTargetNamespace (Status wb) = target_of wb then wb' = wb \<and> es = []
      else same_object wb wb' \<and> Status wb' = Status (set_target wb) \<and> es = [EvUpdateStatus (set_target wb) None])"

definition account_key :: "WerfBundle \<Rightarrow> NamespacedName" where
  "account_key wb = key (ServiceAccountName (Converge (Spec wb))) (target_of wb)"

definition with_account :: "WerfBundle \<Rightarrow> event list \<Rightarrow> bool" where
  "with_account wb es \<longleftrightarrow>
     es = (if ServiceAccountName (Converge (Spec wb)) = '''' then []
           else [EvGetServiceAccount (account_key wb) None])"

inductive preflight :: "'k Env \<Rightarrow> WerfBundle \<Rightarrow> stage_result \<Rightarrow> event list \<Rightarrow> bool"
  for env :: "'k Env" and wb :: WerfBundle
where
  no_finalizer: "\<not> ContainsFinalizer env (Finalizers wb) finalizerName \<Longrightarrow>
    preflight env wb (Inl (Ret (0, Some e)))
      [EvUpdateBundle (wb\<lparr>Finalizers := AddFinalizer env (Finalizers wb) finalizerName\<rparr>) (Inl e)]"
| forbidden: "with_finalizer env wb wb1 es1 \<Longrightarrow> ValidateCrossNamespaceDeployment wb1 = Some e \<Longrightarrow>
    written PhaseFailed wb1 st \<Longrightarrow> LastErrorMessage st = Error e \<Longrightarrow>
    preflight env wb (Inl (Ret (0, u))) (es1 @ [EvUpdateStatus (wb1\<lparr>Status := st\<rparr>) u])"
| no_target: "with_finalizer env wb wb1 es1 \<Longrightarrow> ValidateCrossNamespaceDeployment wb1 = None \<Longrightarrow>
    ResolvedTargetNamespace (Status wb1) \<noteq> target_of wb1 \<Longrightarrow>
    preflight env wb (Inl (Ret (0, Some e))) (es1 @ [EvUpdateStatus (set_target wb1) (Some e)])"
| no_account: "with_finalizer env wb wb1 es1 \<Longrightarrow> ValidateCrossNamespaceDeployment wb1 = None \<Longrightarrow>
    with_target wb1 wb2 es2 \<Longrightarrow> ServiceAccountName (Converge (Spec wb2)) \<noteq> '''' \<Longrightarrow>
    written PhaseFailed wb2 st \<Longrightarrow>
    preflight env wb (Inl (Ret (0, None)))
      (es1 @ es2 @ [EvGetServiceAccount (account_key wb2) (Some e), EvUpdateStatus (wb2\<lparr>Status := st\<rparr>) u])"
| passed: "with_finalizer env wb wb1 es1 \<Longrightarrow> ValidateCrossNamespaceDeployment wb1 = None \<Longrightarrow>
    with_target wb1 wb2 es2 \<Longrightarrow> with_account wb2 es3 \<Longrightarrow>
    preflight env wb (Inr wb2) (es1 @ es2 @ es3)"

text \<open>The registry's answer to the poll, with the ETag that the trace does not show.\<close>

definition poll_answer :: "'k Env \<Rightarrow> WerfBundle \<Rightarrow> string list \<Rightarrow> string \<Rightarrow> err option \<Rightarrow> bool" where
  "poll_answer env wb tags etag e \<longleftrightarrow>
     (\<exists>k k'. RegistryListTags env (URL (Registry (Spec wb))) None (LastETag (Status wb)) k = ((tags, etag, e), k'))"

inductive polling :: "'k Env \<Rightarrow> WerfBundle \<Rightarrow> reconcile_result \<Rightarrow> event list \<Rightarrow> bool"
  for env :: "'k Env" and wb :: WerfBundle
where
  unchanged: "errors_As_NotModified e \<Longrightarrow> jittered env (poll_interval env wb) r \<Longrightarrow>
    poll_answer env wb tags etag (Some e) \<Longrightarrow>
    polling env wb r [EvPoll (URL (Registry (Spec wb))) (LastETag (Status wb)) tags (Some e)]"
| unreachable: "\<not> errors_As_NotModified e \<Longrightarrow> failure_step wb e st r u \<Longrightarrow>
    poll_answer env wb tags etag (Some e) \<Longrightarrow>
    polling env wb r [EvPoll (URL (Registry (Spec wb))) (LastETag (Status wb)) tags (Some e),
      EvUpdateStatus (wb\<lparr>Status := st\<rparr>) u]"
| no_tags: "Phase (Status wb) \<notin> {'''', PhaseFailed} \<Longrightarrow> jittered env (poll_interval env wb) r \<Longrightarrow>
    poll_answer env wb [] etag None \<Longrightarrow>
    polling env wb r [EvPoll (URL (Registry (Spec wb))) (LastETag (Status wb)) [] None]"
| first_poll: "Phase (Status wb) \<in> {'''', PhaseFailed} \<Longrightarrow> written PhaseSyncing (polled wb etag) st \<Longrightarrow>
    (case u of None \<Rightarrow> jittered env (poll_interval env wb) r | Some e \<Rightarrow> r = Ret (0, Some e)) \<Longrightarrow>
    poll_answer env wb [] etag None \<Longrightarrow>
    polling env wb r [EvPoll (URL (Registry (Spec wb))) (LastETag (Status wb)) [] None,
      EvUpdateStatus (wb\<lparr>Status := st\<rparr>) u]"
| up_to_date: "tags \<noteq> [] \<Longrightarrow> LastAppliedTag (Status wb) = last tags \<Longrightarrow> Phase (Status wb) = PhaseSynced \<Longrightarrow>
    poll_answer env wb tags etag None \<Longrightarrow>
    polling env wb (Ret (0, None)) [EvPoll (URL (Registry (Spec wb))) (LastETag (Status wb)) tags None]"
| settled: "tags \<noteq> [] \<Longrightarrow> LastAppliedTag (Status wb) = last tags \<Longrightarrow> Phase (Status wb) \<noteq> PhaseSynced \<Longrightarrow>
    written PhaseSynced (polled wb etag) st \<Longrightarrow> LastAppliedTag st = last tags \<Longrightarrow>
    poll_answer env wb tags etag None \<Longrightarrow>
    polling env wb (Ret (0, u)) [EvPoll (URL (Registry (Spec wb))) (LastETag (Status wb)) tags None,
      EvUpdateStatus (wb\<lparr>Status := st\<rparr>) u]"
| deploying: "tags \<noteq> [] \<Longrightarrow> LastAppliedTag (Status wb) \<noteq> last tags \<Longrightarrow>
    handling env (polled wb etag) (last tags) r es \<Longrightarrow> poll_answer env wb tags etag None \<Longrightarrow>
    polling env wb r (EvPoll (URL (Registry (Spec wb))) (LastETag (Status wb)) tags None # es)"

inductive reconciling :: "'k Env \<Rightarrow> NamespacedName \<Rightarrow> reconcile_result \<Rightarrow> event list \<Rightarrow> bool"
  for env :: "'k Env" and req :: NamespacedName
where
  unavailable: "r = Ret (0, if IsNotFound env e then None else Some e) \<Longrightarrow>
    reconciling env req r [EvGetBundle req (Inl e)]"
| deleted: "DeletionTimestamp wb \<noteq> None \<Longrightarrow> \<not> ContainsFinalizer env (Finalizers wb) finalizerName \<Longrightarrow>
    reconciling env req (Ret (0, None)) [EvGetBundle req (Inr wb)]"
| finalized: "DeletionTimestamp wb \<noteq> None \<Longrightarrow> ContainsFinalizer env (Finalizers wb) finalizerName \<Longrightarrow>
    reconciling env req (Ret (0, left x)) [EvGetBundle req (Inr wb),
      EvUpdateBundle (wb\<lparr>Finalizers := RemoveFinalizer env (Finalizers wb) finalizerName\<rparr>) x]"
| stopped: "DeletionTimestamp wb = None \<Longrightarrow> Name wb = NName req \<Longrightarrow> Namespace wb = NNamespace req \<Longrightarrow>
    preflight env wb (Inl r) es \<Longrightarrow> reconciling env req r (EvGetBundle req (Inr wb) # es)"
| ran: "DeletionTimestamp wb = None \<Longrightarrow> Name wb = NName req \<Longrightarrow> Namespace wb = NNamespace req \<Longrightarrow>
    preflight env wb (Inr wb') es \<Longrightarrow> polling env wb' r es' \<Longrightarrow>
    reconciling env req r (EvGetBundle req (Inr wb) # es @ es')"

section \<open>The code makes these calls and no others\<close>

lemma polled_simps [simp]:
  "same_object wb (polled wb etag)" "Phase (Status (polled wb etag)) = Phase (Status wb)"
  "LastAppliedTag (Status (polled wb etag)) = LastAppliedTag (Status wb)"
  "(polled wb etag)\<lparr>Status := st\<rparr> = wb\<lparr>Status := st\<rparr>"
  by (simp_all add: polled_def Let_def same_object_def)

lemma handle_tags_emits:
  assumes keeps: "server_keeps env" and answer: "poll_answer env wb tags etag None"
  shows "emits (handle_tags env (polled wb etag) tags (poll_interval env wb))
    (\<lambda>r es. polling env wb r (EvPoll (URL (Registry (Spec wb))) (LastETag (Status wb)) tags None # es))"
proof (cases "tags = []")
  case True
  show ?thesis unfolding handle_tags_def Let_def fail_with_def
    by (simp add: True, intro emits_intros syncing.write_then [OF keeps] conjI impI)
      (use answer True in \<open>auto intro!: emits_return emits_mono [OF requeue_jittered_emits] intro: polling.no_tags polling.first_poll\<close>)
next
  case False
  then have latest: "tags ! (length tags - 1) = last tags" by (simp add: last_conv_nth)
  show ?thesis unfolding handle_tags_def Let_def latest result_defs
    by (simp add: False, intro emits_intros synced.write_then [OF keeps] conjI impI)
      (use False answer in \<open>auto intro!: emits_return emits_mono [OF handling_refinement [OF keeps]]
        intro: polling.up_to_date polling.settled polling.deploying\<close>)
qed

lemma polling_refinement:
  assumes keeps: "server_keeps env"
  shows "emits (poll_and_deploy env wb) (polling env wb)"
  unfolding poll_and_deploy_def Let_def poll_registry_def
proof (rule emits_call_answer_bind, intro emits_intros, goal_cases)
  case (1 k p k' tags x etag err)
  then have "poll_answer env wb tags etag None" by (auto simp: poll_answer_def)
  with 1 show ?case by (auto intro!: emits_mono [OF handle_tags_emits [OF keeps]])
next
  case (2 k p k' tags x etag err e)
  then have answer: "poll_answer env wb tags etag (Some e)" by (auto simp: poll_answer_def)
  show ?case
  proof (cases "errors_As_NotModified e")
    case True
    with 2 answer show ?thesis
      by (auto simp: handleRegistryError_def intro!: emits_mono [OF requeue_jittered_emits] polling.unchanged)
  next
    case False
    with 2 answer show ?thesis
      by (auto intro!: emits_mono [OF handleRegistryError_emits [OF keeps False]] polling.unreachable)
  qed
qed

lemma ensure_finalizer_emits:
  assumes keeps: "server_keeps env"
  shows "emits (ensure_finalizer env wb) (\<lambda>x es.
    (\<forall>r. x = Inl r \<longrightarrow> preflight env wb x es) \<and> (\<forall>wb'. x = Inr wb' \<longrightarrow> with_finalizer env wb wb' es))"
  unfolding ensure_finalizer_def stage_defs update_bundle_def
  by (intro emits_intros emits_call_answer_bind)
    (auto simp: with_finalizer_def preflight.no_finalizer dest: server_keepsD(2) [OF keeps])

lemma check_cross_namespace_emits:
  assumes keeps: "server_keeps env" and fin: "with_finalizer env wb wb1 es1"
  shows "emits (check_cross_namespace env wb1) (\<lambda>x es.
    (\<forall>r. x = Inl r \<longrightarrow> preflight env wb x (es1 @ es)) \<and>
    (\<forall>wb'. x = Inr wb' \<longrightarrow> wb' = wb1 \<and> es = [] \<and> ValidateCrossNamespaceDeployment wb1 = None))"
  unfolding check_cross_namespace_def stage_defs
  by (intro emits_intros failed.write_then [OF keeps])
    (auto intro!: emits_return preflight.forbidden [OF fin])

lemma store_target_namespace_emits:
  assumes keeps: "server_keeps env" and fin: "with_finalizer env wb wb1 es1"
    and valid: "ValidateCrossNamespaceDeployment wb1 = None"
  shows "emits (store_target_namespace env wb1) (\<lambda>x es.
    (\<forall>r. x = Inl r \<longrightarrow> preflight env wb x (es1 @ es)) \<and> (\<forall>wb'. x = Inr wb' \<longrightarrow> with_target wb1 wb' es))"
  unfolding store_target_namespace_def Let_def stage_defs target_of_def [symmetric] set_target_def [symmetric]
  by (intro emits_intros emits_bind [OF update_status_emits [OF keeps]])
    (use valid in \<open>auto simp: with_target_def set_target_def intro!: preflight.no_target [OF fin, unfolded set_target_def]\<close>)

lemma check_service_account_emits:
  assumes keeps: "server_keeps env" and fin: "with_finalizer env wb wb1 es1"
    and valid: "ValidateCrossNamespaceDeployment wb1 = None" and target: "with_target wb1 wb2 es2"
  shows "emits (check_service_account env wb2) (\<lambda>x es. preflight env wb x (es1 @ es2 @ es) \<and>
    (\<forall>wb'. x = Inr wb' \<longrightarrow> wb' = wb2))"
proof (cases "ServiceAccountName (Converge (Spec wb2)) = ''''")
  case True
  then show ?thesis
    by (auto simp: check_service_account_def stage_defs with_account_def
        intro!: emits_return preflight.passed [OF fin valid target])
next
  case False
  have key_eq: "key (ServiceAccountName (Converge (Spec wb2)))
      (GetTargetNamespace (Converge (Spec wb2)) (Namespace wb2)) = account_key wb2"
    by (simp add: account_key_def target_of_def)
  have "emits (validateServiceAccount env wb2) (\<lambda>v es.
      if v = None then es = [EvGetServiceAccount (account_key wb2) None]
      else \<exists>e st u. written PhaseFailed wb2 st \<and>
        es = [EvGetServiceAccount (account_key wb2) (Some e), EvUpdateStatus (wb2\<lparr>Status := st\<rparr>) u])"
    unfolding validateServiceAccount_def
    by (rule emits_bind [OF ValidateServiceAccountExists_emits], intro emits_intros failed.write_then [OF keeps])
      (auto simp: key_eq intro!: emits_return)
  then show ?thesis unfolding check_service_account_def stage_defs if_P [OF False]
    by (rule emits_bind, intro emits_intros)
      (use False in \<open>auto simp: with_account_def split: if_splits
        intro: preflight.no_account [OF fin valid target] preflight.passed [OF fin valid target]\<close>)
qed

text \<open>What holds after the stages, if it holds for every early end and after every poll.\<close>

lemma stages_emit:
  assumes keeps: "server_keeps env"
    and stop: "\<And>r es. preflight env wb (Inl r) es \<Longrightarrow> P r es"
    and go: "\<And>wb' es. preflight env wb (Inr wb') es \<Longrightarrow> emits (poll_and_deploy env wb') (\<lambda>r es'. P r (es @ es'))"
  shows "emits (then_stage (ensure_finalizer env wb) (\<lambda>wb.
                 then_stage (check_cross_namespace env wb) (\<lambda>wb.
                 then_stage (store_target_namespace env wb) (\<lambda>wb.
                 then_stage (check_service_account env wb) (\<lambda>wb.
                 poll_and_deploy env wb))))) P"
  unfolding then_stage_def
proof (rule emits_bind [OF ensure_finalizer_emits [OF keeps]], intro emits_intros, goal_cases)
  case (1 x es r)
  then show ?case by (auto intro: stop)
next
  case (2 x1 es1 wb1)
  then have fin: "with_finalizer env wb wb1 es1" by blast
  show ?case
  proof (rule emits_bind [OF check_cross_namespace_emits [OF keeps fin]], intro emits_intros, goal_cases)
    case (1 x es r)
    then show ?case by (auto intro: stop)
  next
    case (2 x es wb')
    then have valid: "ValidateCrossNamespaceDeployment wb1 = None" and [simp]: "wb' = wb1" "es = []" by auto
    show ?case unfolding \<open>wb' = wb1\<close>
    proof (rule emits_bind [OF store_target_namespace_emits [OF keeps fin valid]], intro emits_intros, goal_cases)
      case (1 x es r)
      then show ?case by (auto intro: stop)
    next
      case (2 x es2 wb2)
      then have target: "with_target wb1 wb2 es2" by blast
      show ?case
      proof (rule emits_bind [OF check_service_account_emits [OF keeps fin valid target]],
          intro emits_intros, goal_cases)
        case (1 x es r)
        then show ?case by (auto intro: stop)
      next
        case (2 x es3 wb3)
        then have "preflight env wb (Inr wb3) (es1 @ es2 @ es3)" by auto
        from go [OF this] show ?case by simp
      qed
    qed
  qed
qed

lemma preflight_poll_emits:
  assumes keeps: "server_keeps env" and live: "DeletionTimestamp wb = None"
    and req: "Name wb = NName req" "Namespace wb = NNamespace req"
  shows "emits (then_stage (ensure_finalizer env wb) (\<lambda>wb.
                 then_stage (check_cross_namespace env wb) (\<lambda>wb.
                 then_stage (store_target_namespace env wb) (\<lambda>wb.
                 then_stage (check_service_account env wb) (\<lambda>wb.
                 poll_and_deploy env wb)))))
    (\<lambda>r es. reconciling env req r (EvGetBundle req (Inr wb) # es))"
  by (rule stages_emit [OF keeps])
    (auto intro: reconciling.stopped [OF live req] emits_mono [OF polling_refinement [OF keeps]] reconciling.ran [OF live req])

lemma Reconcile_refinement:
  assumes keeps: "server_keeps env"
  shows "emits (Reconcile env req) (reconciling env req)"
  unfolding Reconcile_def get_bundle_def
proof (rule emits_call_answer_bind, intro emits_intros, goal_cases)
  case (1 k b k' e)
  then show ?case by (auto intro!: emits_return reconciling.unavailable)
next
  case (2 k b k' e)
  then show ?case by (auto simp: fail_with_def intro!: emits_return reconciling.unavailable)
next
  case (3 k b k' wb)
  then show ?case unfolding finalize_def result_defs update_bundle_def
    by (intro emits_intros emits_call_bind)
      (auto intro!: reconciling.deleted reconciling.finalized [of wb env _ "Inr x" for x, simplified]
        reconciling.finalized [of wb env _ "Inl e" for e, simplified])
next
  case (4 k b k' wb)
  then show ?case
    using preflight_poll_emits [OF keeps _ server_keepsD(1) [OF keeps, THEN conjunct1]
        server_keepsD(1) [OF keeps, THEN conjunct2]] by auto
qed

end
