(* ===== verification/Ctl_Safety.thy ===== *)
theory Ctl_Safety
  imports Ctl_Reconcile
begin

text \<open>
  What every run of \<open>Reconcile\<close> keeps, read off the relation \<open>reconciling\<close>: when jobs are
  created, what a deleted or an invalid bundle leads to, how runs end, and how repeated
  registry failures move a bundle through its phases.
\<close>

section \<open>The calls before the poll\<close>

lemma with_finalizer_same: "with_finalizer env wb wb' es \<Longrightarrow> same_object wb wb'"
  by (auto simp: with_finalizer_def split: if_splits)

lemma with_target_same: "with_target wb wb' es \<Longrightarrow> same_object wb wb'"
  by (auto simp: with_target_def split: if_splits)

lemma same_object_keys:
  "same_object wb wb' \<Longrightarrow> target_of wb' = target_of wb"
  "same_object wb wb' \<Longrightarrow> account_key wb' = account_key wb"
  "same_object wb wb' \<Longrightarrow> ValidateCrossNamespaceDeployment wb' = ValidateCrossNamespaceDeployment wb"
  by (simp_all add: same_object_def target_of_def account_key_def ValidateCrossNamespaceDeployment_def)

text \<open>Events of the stages before the poll.\<close>

fun setup_event :: "event \<Rightarrow> bool" where
  "setup_event (EvUpdateBundle wb a) = True"
| "setup_event (EvUpdateStatus wb a) = True"
| "setup_event (EvGetServiceAccount k a) = True"
| "setup_event _ = False"

lemma preflight_setup: "preflight env wb x es \<Longrightarrow> list_all setup_event es"
  by (induction rule: preflight.induct)
    (auto simp: with_finalizer_def with_target_def with_account_def split: if_splits)

lemma setup_no_create: "list_all setup_event es \<Longrightarrow> filter is_create es = []"
  by (auto simp: list_all_iff filter_empty_conv elim!: is_create.elims)

definition validated :: "WerfBundle \<Rightarrow> event list \<Rightarrow> bool" where
  "validated wb es \<longleftrightarrow> ValidateCrossNamespaceDeployment wb = None \<and>
     (ServiceAccountName (Converge (Spec wb)) \<noteq> '''' \<longrightarrow> EvGetServiceAccount (account_key wb) None \<in> set es)"

lemma preflight_validated:
  assumes "preflight env wb (Inr wb') es"
  shows "same_object wb wb' \<and> validated wb es"
  using assms
proof cases
  case (passed wb1 es1 es2 es3)
  then have 1: "same_object wb wb1" and 2: "same_object wb1 wb'"
    by (auto dest: with_finalizer_same with_target_same)
  then have same: "same_object wb wb'" by (rule same_object_trans)
  then have "Spec wb' = Spec wb" by (simp add: same_object_def)
  with passed same 1 show ?thesis
    by (auto simp: validated_def with_account_def same_object_keys split: if_splits)
qed

section \<open>Which jobs a run creates\<close>

text \<open>
  A run creates at most one job. It is made from the fetched bundle, which is not being
  deleted and passed every validation, for the last tag of a successful poll, and after the
  bundle was saved as Syncing with that tag.
\<close>

definition justified :: "'k Env \<Rightarrow> NamespacedName \<Rightarrow> event list \<Rightarrow> Job \<Rightarrow> bool" where
  "justified env req pre j \<longleftrightarrow>
     (\<exists>wb tags url etag b. EvGetBundle req (Inr wb) \<in> set pre \<and> DeletionTimestamp wb = None \<and>
        Name wb = NName req \<and> Namespace wb = NNamespace req \<and>
        validated wb pre \<and> EvPoll url etag tags None \<in> set pre \<and> tags \<noteq> [] \<and>
        built env wb (last tags) (Ret (Inr j)) \<and>
        EvUpdateStatus b None \<in> set pre \<and> same_object wb b \<and> Phase (Status b) = PhaseSyncing \<and>
        (last tags \<noteq> '''' \<longrightarrow> LastAppliedTag (Status b) = last tags))"

definition safe_creates :: "'k Env \<Rightarrow> NamespacedName \<Rightarrow> event list \<Rightarrow> bool" where
  "safe_creates env req es \<longleftrightarrow>
     (\<forall>pre j a post. es = pre @ EvCreateJob j a # post \<longrightarrow>
        justified env req pre j \<and> filter is_create pre = [] \<and> filter is_create post = [])"

lemma safe_creates_none: "filter is_create es = [] \<Longrightarrow> safe_creates env req es"
  by (auto simp: safe_creates_def)

lemma validated_mono: "validated wb es \<Longrightarrow> set es \<subseteq> set es' \<Longrightarrow> validated wb es'"
  by (auto simp: validated_def)

lemma safe_creates_deploy:
  assumes wb: "DeletionTimestamp wb = None" "Name wb = NName req" "Namespace wb = NNamespace req"
    and pre: "preflight env wb (Inr wb') es1" and tags: "tags \<noteq> []"
    and handled: "handling env (polled wb' etag') (last tags) r es2"
  shows "safe_creates env req (EvGetBundle req (Inr wb) # es1 @ EvPoll url etag tags None # es2)"
  unfolding safe_creates_def
proof (intro allI impI)
  let ?first = "EvGetBundle req (Inr wb) # es1 @ [EvPoll url etag tags None]"
  fix pre' j a post
  assume split: "EvGetBundle req (Inr wb) # es1 @ EvPoll url etag tags None # es2 = pre' @ EvCreateJob j a # post"
  have no_create: "filter is_create ?first = []"
    using setup_no_create [OF preflight_setup [OF pre]] by simp
  have same: "same_object wb wb'" and val: "validated wb es1" using preflight_validated [OF pre] by auto
  then have "same_object wb (polled wb' etag')" by (metis polled_simps(1) same_object_trans)
  with handling_announced [OF handled] have "announced env wb (last tags) es2"
    by (simp add: announced_same_object)
  moreover obtain mid where mid: "pre' = ?first @ mid" "es2 = mid @ EvCreateJob j a # post"
    using split_after_prefix [OF no_create, of es2 pre' j a post] split by auto
  ultimately obtain b where "built env wb (last tags) (Ret (Inr j))" "filter is_create mid = []"
    "filter is_create post = []" "EvUpdateStatus b None \<in> set mid" "same_object wb b"
    "Phase (Status b) = PhaseSyncing" "last tags \<noteq> '''' \<longrightarrow> LastAppliedTag (Status b) = last tags"
    unfolding announced_def by metis
  moreover have "validated wb pre'" by (rule validated_mono [OF val]) (auto simp: mid(1))
  ultimately show "justified env req pre' j \<and> filter is_create pre' = [] \<and> filter is_create post = []"
    unfolding justified_def using wb tags no_create mid(1)
    by (intro conjI exI [of _ wb] exI [of _ tags] exI [of _ url] exI [of _ etag] exI [of _ b]) auto
qed

lemma polling_creates:
  assumes "polling env wb r es"
  shows "filter is_create es = [] \<or>
    (\<exists>tags etag es2. es = EvPoll (URL (Registry (Spec wb))) (LastETag (Status wb)) tags None # es2 \<and> tags \<noteq> [] \<and>
      handling env (polled wb etag) (last tags) r es2 \<and> poll_answer env wb tags etag None)"
  using assms by cases auto

lemma reconciling_safe: "reconciling env req r es \<Longrightarrow> safe_creates env req es"
proof (induction rule: reconciling.induct)
  case (stopped wb r es)
  then show ?case by (intro safe_creates_none) (simp add: setup_no_create [OF preflight_setup])
next
  case (ran wb wb' es r es')
  from polling_creates [OF ran(5)] show ?case
  proof
    assume "filter is_create es' = []"
    then show ?thesis using setup_no_create [OF preflight_setup [OF ran(4)]]
      by (intro safe_creates_none) simp
  qed (use ran in \<open>auto intro: safe_creates_deploy\<close>)
qed (auto intro: safe_creates_none)

section \<open>Deleted and invalid bundles\<close>

text \<open>A fetch and a poll come from the outer stages only, never from the handling of a job.\<close>

fun is_fetch :: "event \<Rightarrow> bool" where
  "is_fetch (EvGetBundle k x) = True"
| "is_fetch _ = False"

fun is_poll :: "event \<Rightarrow> bool" where
  "is_poll (EvPoll url etag tags e) = True"
| "is_poll _ = False"

definition inner :: "event list \<Rightarrow> bool" where
  "inner es \<longleftrightarrow> filter is_fetch es = [] \<and> filter is_poll es = []"

lemma inner_simps [simp]:
  "inner []" "inner (ev # es) \<longleftrightarrow> \<not> is_fetch ev \<and> \<not> is_poll ev \<and> inner es" "inner (es @ es') \<longleftrightarrow> inner es \<and> inner es'"
  by (auto simp: inner_def)

lemma innerI: "list_all p es \<Longrightarrow> (\<And>k x. \<not> p (EvGetBundle k x)) \<Longrightarrow> (\<And>u t g e. \<not> p (EvPoll u t g e)) \<Longrightarrow> inner es"
  by (auto simp: inner_def list_all_iff filter_empty_conv elim!: is_fetch.elims is_poll.elims)

lemma setup_inner: "list_all setup_event es \<Longrightarrow> inner es"
  by (rule innerI) auto

lemma monitoring_inner: "monitoring wb job tag r es \<Longrightarrow> inner es"
  by (induction rule: monitoring.induct) (auto intro: innerI)

lemma reads_inner: "list_all (reads_of wb) es \<Longrightarrow> inner es"
  by (rule innerI) (auto simp: reads_of_def)

lemma creation_inner: "creation env wb tag r es \<Longrightarrow> inner es"
  by (induction rule: creation.induct) (auto intro: reads_inner)

lemma handling_inner: "handling env wb tag r es \<Longrightarrow> inner es"
  by (induction rule: handling.induct) (auto intro: monitoring_inner creation_inner)

lemma preflight_inner: "preflight env wb x es \<Longrightarrow> inner es"
  by (blast intro: setup_inner preflight_setup)

lemma polling_polls:
  "polling env wb r es \<Longrightarrow>
   \<exists>tags e es'. es = EvPoll (URL (Registry (Spec wb))) (LastETag (Status wb)) tags e # es' \<and> inner es'"
  by (induction rule: polling.induct) (auto intro: handling_inner)

text \<open>A run fetches the bundle once and first.\<close>

lemma reconciling_fetch:
  "reconciling env req r es \<Longrightarrow> \<exists>x. filter is_fetch es = [EvGetBundle req x] \<and> hd es = EvGetBundle req x"
  by (induction rule: reconciling.induct)
    (auto dest!: preflight_inner polling_polls simp: inner_def)

lemma fetched_unique:
  assumes "reconciling env req r es" "EvGetBundle k x \<in> set es"
  shows "hd es = EvGetBundle k x"
proof -
  obtain x' where x': "filter is_fetch es = [EvGetBundle req x']" "hd es = EvGetBundle req x'"
    using reconciling_fetch [OF assms(1)] by blast
  have "EvGetBundle k x \<in> set (filter is_fetch es)" using assms(2) by simp
  then show ?thesis unfolding x' by simp
qed

lemma reconciling_deleted:
  assumes "reconciling env req r es" "hd es = EvGetBundle k (Inr wb)" "DeletionTimestamp wb \<noteq> None"
  shows "(if ContainsFinalizer env (Finalizers wb) finalizerName
      then \<exists>x. r = Ret (0, left x) \<and> es = [EvGetBundle req (Inr wb),
        EvUpdateBundle (wb\<lparr>Finalizers := RemoveFinalizer env (Finalizers wb) finalizerName\<rparr>) x]
      else r = Ret (0, None) \<and> es = [EvGetBundle req (Inr wb)])"
  using assms by cases auto

lemma reconciling_poll:
  assumes "reconciling env req r es"
  shows "filter is_poll es = [] \<or>
    (\<exists>wb url etag tags e. hd es = EvGetBundle req (Inr wb) \<and> filter is_poll es = [EvPoll url etag tags e] \<and>
      url = URL (Registry (Spec wb)) \<and> DeletionTimestamp wb = None \<and> validated wb es)"
  using assms
proof cases
  case (stopped wb es')
  then show ?thesis using preflight_inner [OF stopped(5)] by (simp add: inner_def)
next
  case (ran wb wb' es1 es2)
  from polling_polls [OF ran(6)] preflight_validated [OF ran(5)] preflight_inner [OF ran(5)] show ?thesis
    by (auto simp: ran same_object_def inner_def intro: validated_mono)
qed auto

text \<open>A bundle that may not deploy across namespaces ends Failed with the reason.\<close>

lemma reconciling_forbidden:
  assumes "reconciling env req r es" "hd es = EvGetBundle k (Inr wb)" "DeletionTimestamp wb = None"
    and invalid: "ValidateCrossNamespaceDeployment wb = Some e"
  shows "filter is_create es = [] \<and> filter is_poll es = [] \<and>
    ((\<exists>b x. last es = EvUpdateBundle b (Inl x) \<and> r = Ret (0, Some x)) \<or>
     (\<exists>b u. last es = EvUpdateStatus b u \<and> r = Ret (0, u) \<and> same_object wb b \<and>
        Phase (Status b) = PhaseFailed \<and> LastErrorMessage (Status b) = Error e))"
  using assms(1)
proof cases
  case (stopped wb' es')
  with assms(2) have [simp]: "wb' = wb" by simp
  from stopped(5) show ?thesis
  proof (cases rule: preflight.cases)
    case (forbidden wb1 es1 e' st u)
    then have "same_object wb wb1" by (auto dest: with_finalizer_same)
    with forbidden invalid show ?thesis
      using setup_no_create [OF preflight_setup [OF stopped(5)]] preflight_inner [OF stopped(5)]
      by (auto simp: stopped same_object_keys written_def inner_def intro!: exI [of _ "wb1\<lparr>Status := st\<rparr>"])
  next
    case no_finalizer
    then show ?thesis by (simp add: stopped)
  qed (use stopped invalid in \<open>auto dest!: with_finalizer_same with_target_same simp: same_object_keys\<close>)
next
  case (ran wb' wb'' es1 es2)
  with assms(2) have [simp]: "wb' = wb" by simp
  from preflight_validated [OF ran(5)] invalid show ?thesis by (simp add: validated_def)
qed (use assms in auto)

section \<open>How a run ends\<close>

text \<open>A call that failed with error \<open>e\<close>.\<close>

fun failed_with :: "err \<Rightarrow> event \<Rightarrow> bool" where
  "failed_with e (EvGetBundle k x) = (x = Inl e)"
| "failed_with e (EvUpdateBundle b a) = (a = Inl e)"
| "failed_with e (EvUpdateStatus b a) = (a = Some e)"
| "failed_with e (EvGetJob k x) = (x = Inl e)"
| "failed_with e _ = False"

text \<open>
  A result with an error carries no delay, and the error is that of the last call, a write
  or a read of the bundle or the read of its job.
\<close>

definition honest :: "reconcile_result \<Rightarrow> event list \<Rightarrow> bool" where
  "honest r es \<longleftrightarrow> (\<forall>d e. r = Ret (d, Some e) \<longrightarrow> d = 0 \<and> es \<noteq> [] \<and> failed_with e (last es))"

lemma monitoring_honest: "monitoring wb job tag r es \<Longrightarrow> honest r es"
  by (induction rule: monitoring.induct) (auto simp: honest_def)

lemma creation_honest: "creation env wb tag r es \<Longrightarrow> honest r es"
  by (induction rule: creation.induct) (auto simp: honest_def split: option.splits)

lemma honest_prefix: "honest r es \<Longrightarrow> honest r (ev # es)"
  by (auto simp: honest_def)

lemma handling_honest: "handling env wb tag r es \<Longrightarrow> honest r es"
  by (induction rule: handling.induct)
    (auto intro: monitoring_honest creation_honest honest_prefix simp: honest_def [of "Ret (0, Some e)" for e])

lemma jittered_honest: "jittered env i r \<Longrightarrow> honest r es"
  by (auto simp: jittered_def honest_def)

lemma polling_honest: "polling env wb r es \<Longrightarrow> honest r es"
  by (induction rule: polling.induct)
    (auto intro: jittered_honest handling_honest honest_prefix
      simp: honest_def [of "Ret (d, u)" for d u] failure_step_def Let_def split: option.splits if_splits)

lemma preflight_honest: "preflight env wb (Inl r) es \<Longrightarrow> honest r es"
  by (erule preflight.cases) (auto simp: honest_def)

lemma honest_append: "honest r es \<Longrightarrow> honest r (es' @ es)"
  by (auto simp: honest_def)

lemma reconciling_honest: "reconciling env req r es \<Longrightarrow> honest r es"
  by (induction rule: reconciling.induct)
    (auto intro: honest_prefix honest_append polling_honest preflight_honest simp: honest_def [of "Ret (d, u)" for d u])

text \<open>What makes a run panic.\<close>

definition panic_cause :: "'k Env \<Rightarrow> WerfBundle \<Rightarrow> event list \<Rightarrow> bool" where
  "panic_cause env wb es \<longleftrightarrow>
     (0 < sint (poll_interval env wb) \<and> sint (poll_interval env wb) < 10) \<or>
     (\<exists>url etag tags. EvPoll url etag tags None \<in> set es \<and> tags \<noteq> [] \<and>
        (unat (fnv32a (last tags)) < 2 ^ 28 \<or> bad_quantity env wb))"

lemma creation_panic: "creation env wb tag (Panic msg) es \<Longrightarrow> unat (fnv32a tag) < 2 ^ 28 \<or> bad_quantity env wb"
  by (erule creation_panicE) (auto simp: built_def split: option.splits)

lemma monitoring_no_panic: "\<not> monitoring wb job tag (Panic msg) es"
  by (auto elim: monitoring.cases)

lemma bad_quantity_same: "same_object wb wb' \<Longrightarrow> bad_quantity env wb' = bad_quantity env wb"
  by (simp add: bad_quantity_def resource_text_def same_object_def)

lemma poll_interval_same: "same_object wb wb' \<Longrightarrow> poll_interval env wb' = poll_interval env wb"
  by (simp add: poll_interval_def same_object_def)

lemma handling_panic: "handling env wb tag (Panic msg) es \<Longrightarrow> unat (fnv32a tag) < 2 ^ 28 \<or> bad_quantity env wb"
  by (erule handling_panicE)
    (auto dest!: creation_panic simp: monitoring_no_panic bad_quantity_same [OF forget_job_same(1)])

lemma panic_causeI:
  "0 < sint (poll_interval env wb) \<Longrightarrow> sint (poll_interval env wb) < 10 \<Longrightarrow> panic_cause env wb es"
  "EvPoll url etag tags None \<in> set es \<Longrightarrow> tags \<noteq> [] \<Longrightarrow>
   unat (fnv32a (last tags)) < 2 ^ 28 \<or> bad_quantity env wb \<Longrightarrow> panic_cause env wb es"
  unfolding panic_cause_def by blast+

lemma polling_panic:
  assumes "polling env wb (Panic msg) es"
  shows "panic_cause env wb es"
  using assms
proof cases
  case (deploying tags etag es')
  then have "unat (fnv32a (last tags)) < 2 ^ 28 \<or> bad_quantity env wb"
    using handling_panic bad_quantity_same [OF polled_simps(1)] by blast
  with deploying show ?thesis by (intro panic_causeI(2)) auto
qed (auto simp: jittered_def failure_step_def Let_def intro: panic_causeI(1) split: option.splits if_splits)

lemma panic_cause_mono: "panic_cause env wb es \<Longrightarrow> set es \<subseteq> set es' \<Longrightarrow> panic_cause env wb es'"
  by (auto simp: panic_cause_def)

lemma panic_cause_same: "same_object wb wb' \<Longrightarrow> panic_cause env wb' = panic_cause env wb"
  by (rule ext) (simp add: panic_cause_def poll_interval_same bad_quantity_same)

lemma reconciling_panic:
  assumes "reconciling env req (Panic msg) es"
  shows "\<exists>wb. hd es = EvGetBundle req (Inr wb) \<and> panic_cause env wb es"
  using assms
proof cases
  case (stopped wb es')
  then show ?thesis by (auto elim: preflight.cases)
next
  case (ran wb wb' es1 es2)
  from preflight_validated [OF ran(5)] have same: "same_object wb wb'" by blast
  from polling_panic [OF ran(6)] have "panic_cause env wb es2" by (simp add: panic_cause_same [OF same])
  then have "panic_cause env wb es" by (rule panic_cause_mono) (auto simp: ran(1))
  then show ?thesis using ran(1) by simp
qed auto

section \<open>When the recorded job is looked at\<close>

lemma polling_looks_at_job:
  "polling env wb r es \<Longrightarrow> EvGetJob k found \<in> set es \<Longrightarrow>
   \<exists>tags. EvPoll (URL (Registry (Spec wb))) (LastETag (Status wb)) tags None \<in> set es \<and> tags \<noteq> [] \<and>
     LastAppliedTag (Status wb) \<noteq> last tags"
  by (induction rule: polling.induct) auto

lemma preflight_status:
  assumes "preflight env wb (Inr wb') es" "ContainsFinalizer env (Finalizers wb) finalizerName"
  shows "\<exists>t. Status wb' = (Status wb)\<lparr>ResolvedTargetNamespace := t\<rparr>"
  using assms(1)
proof cases
  case (passed wb1 es1 es2 es3)
  then have "wb1 = wb" using assms(2) by (simp add: with_finalizer_def)
  with passed have "Status wb' = Status wb \<or> Status wb' = Status (set_target wb)"
    by (auto simp: with_target_def split: if_splits)
  moreover have "Status wb = (Status wb)\<lparr>ResolvedTargetNamespace := ResolvedTargetNamespace (Status wb)\<rparr>" by simp
  ultimately show ?thesis unfolding set_target_def by (metis WerfBundle.select_convs(7) WerfBundle.surjective
        WerfBundle.update_convs(7))
qed

lemma setup_no_get_job: "list_all setup_event es \<Longrightarrow> EvGetJob k found \<notin> set es"
  by (auto simp: list_all_iff dest!: bspec [of _ _ "EvGetJob k found"])

lemma reconciling_looks_at_job:
  assumes "reconciling env req r es" "EvGetJob k found \<in> set es" "hd es = EvGetBundle req (Inr wb)"
    and fin: "ContainsFinalizer env (Finalizers wb) finalizerName"
  shows "\<exists>url etag tags. EvPoll url etag tags None \<in> set es \<and> tags \<noteq> [] \<and> LastAppliedTag (Status wb) \<noteq> last tags"
  using assms(1)
proof cases
  case (stopped wb' es')
  then show ?thesis using assms(2) by (simp add: setup_no_get_job [OF preflight_setup])
next
  case (ran wb' wb'' es1 es2)
  then have [simp]: "wb' = wb" using assms(3) by simp
  have "EvGetJob k found \<in> set es2"
    using assms(2) ran(1) setup_no_get_job [OF preflight_setup [OF ran(5)]] by simp
  from polling_looks_at_job [OF ran(6) this] preflight_status [OF ran(5)] fin ran(1) show ?thesis by fastforce
qed (use assms(2) in auto)

section \<open>A registry outage\<close>

text \<open>
  One run during an outage: the poll fails with a real error and the status update that
  records it succeeds. \<open>st\<close> is the status of the fetched bundle, \<open>st'\<close> the one it saves.
\<close>

definition outage_run ::
  "'k Env \<Rightarrow> NamespacedName \<Rightarrow> WerfBundleStatus \<Rightarrow> WerfBundleStatus \<Rightarrow> reconcile_result \<Rightarrow> bool" where
  "outage_run env req st st' r \<longleftrightarrow>
     (\<exists>es wb b url etag tags e. reconciling env req r es \<and> hd es = EvGetBundle req (Inr wb) \<and> Status wb = st \<and>
        ContainsFinalizer env (Finalizers wb) finalizerName \<and>
        EvPoll url etag tags (Some e) \<in> set es \<and> \<not> errors_As_NotModified e \<and>
        last es = EvUpdateStatus b None \<and> Status b = st')"

text \<open>Runs in a row, each from the status that the one before saved.\<close>

inductive outage ::
  "'k Env \<Rightarrow> NamespacedName \<Rightarrow> WerfBundleStatus \<Rightarrow> nat \<Rightarrow> WerfBundleStatus \<Rightarrow> reconcile_result \<Rightarrow> bool"
  for env :: "'k Env" and req :: NamespacedName and st0 :: WerfBundleStatus
where
  first: "outage_run env req st0 st r \<Longrightarrow> outage env req st0 (Suc 0) st r"
| again: "outage env req st0 n st r \<Longrightarrow> outage_run env req st st' r' \<Longrightarrow> outage env req st0 (Suc n) st' r'"

lemma failed_poll_step:
  assumes "polling env wb r es" "EvPoll url etag tags (Some e) \<in> set es" "\<not> errors_As_NotModified e"
    "last es = EvUpdateStatus b u"
  shows "failure_step wb e (Status b) r u"
  using assms(1)
proof cases
  case (deploying tags' etag' es')
  then show ?thesis using assms(2) handling_inner [OF deploying(4)]
    by (auto simp: inner_def filter_empty_conv)
qed (use assms in auto)

lemma outage_run_step:
  assumes "outage_run env req st st' r"
  shows "ConsecutiveFailures st' = ConsecutiveFailures st + 1 \<and>
    (if 5 < sint (ConsecutiveFailures st + 1)
     then Phase st' = PhaseFailed \<and> r = Ret (0, None)
     else Phase st' = PhaseSyncing \<and> r = Ret (CalculateBackoff (ConsecutiveFailures st + 1), None))"
proof -
  obtain es wb b url etag tags e where run: "reconciling env req r es" "hd es = EvGetBundle req (Inr wb)"
    "Status wb = st" "ContainsFinalizer env (Finalizers wb) finalizerName"
    "EvPoll url etag tags (Some e) \<in> set es" "\<not> errors_As_NotModified e"
    "last es = EvUpdateStatus b None" "Status b = st'"
    using assms unfolding outage_run_def by blast
  from run(1) show ?thesis
  proof cases
    case (stopped wb' es')
    then show ?thesis using run(5) preflight_inner [OF stopped(5)]
      by (auto simp: inner_def filter_empty_conv)
  next
    case (ran wb' wb'' es1 es2)
    then have [simp]: "wb' = wb" using run(2) by simp
    have "EvPoll url etag tags (Some e) \<notin> set es1"
      using preflight_inner [OF ran(5)] by (auto simp: inner_def filter_empty_conv)
    then have "EvPoll url etag tags (Some e) \<in> set es2" using run(5) ran(1) by simp
    moreover have "last es2 = EvUpdateStatus b None"
      using run(7) ran(1) polling_polls [OF ran(6)] by auto
    ultimately have "failure_step wb'' e st' r None"
      using failed_poll_step [OF ran(6)] run(6,8) by blast
    moreover have "ConsecutiveFailures (Status wb'') = ConsecutiveFailures st"
      using preflight_status [OF ran(5)] run(3,4) by auto
    ultimately show ?thesis
      by (auto simp: failure_step_def Let_def maxConsecutiveFailures_def split: if_splits)
  qed (use run in auto)
qed

text \<open>
  The schedule of an outage, counted from a healthy bundle: five retries after 60, 120, 240,
  480 and 480 seconds in phase Syncing; from the sixth failure on the bundle is Failed and
  nothing is requeued.
\<close>

lemma outage_counts:
  "outage env req st0 n st r \<Longrightarrow> ConsecutiveFailures st0 = 0 \<Longrightarrow> ConsecutiveFailures st = of_nat n"
proof (induction rule: outage.induct)
  case (first st r)
  then show ?case using outage_run_step by fastforce
next
  case (again n st r st' r')
  then show ?case using outage_run_step [OF again(2)] by simp
qed

lemma sint_of_nat_32: "n < 2 ^ 31 \<Longrightarrow> sint (of_nat n :: int32) = int n"
  using sint_word_of_int_32 [of "int n"] by simp

lemma outage_schedule:
  assumes "outage env req st0 n st r" "ConsecutiveFailures st0 = 0" "n < 2 ^ 31"
  shows "if n \<le> 5 then Phase st = PhaseSyncing \<and> (\<exists>d. r = Ret (d, None) \<and> sint d = backoff_spec n)
    else Phase st = PhaseFailed \<and> r = Ret (0, None)"
proof -
  have count: "ConsecutiveFailures st = of_nat n" by (rule outage_counts [OF assms(1,2)])
  obtain st1 where "outage_run env req st1 st r" using assms(1) by (auto elim: outage.cases)
  note step = outage_run_step [OF this]
  then have next_count: "ConsecutiveFailures st1 + 1 = of_nat n" using count by simp
  have sint: "sint (of_nat n :: int32) = int n" by (rule sint_of_nat_32 [OF assms(3)])
  have "sint (CalculateBackoff (of_nat n)) = backoff_spec n" if "n \<le> 5"
    using CalculateBackoff_small [of "of_nat n"] that by (simp add: sint)
  then show ?thesis using step unfolding next_count sint by auto
qed

section \<open>The recorded job\<close>

text \<open>While the recorded job exists, a run creates none.\<close>

lemma reconciling_active_no_create:
  assumes "reconciling env req r es" "EvGetJob k (Inr j) \<in> set es"
  shows "filter is_create es = []"
  using assms(1)
proof cases
  case (stopped wb es')
  then show ?thesis using assms(2) by (simp add: setup_no_get_job [OF preflight_setup])
next
  case (ran wb wb' es1 es2)
  then have "EvGetJob k (Inr j) \<in> set es2"
    using assms(2) setup_no_get_job [OF preflight_setup [OF ran(5)]] by simp
  then have "filter is_create es2 = []" using polling_creates [OF ran(6)]
    by (auto dest: handling_active_no_create)
  then show ?thesis using setup_no_create [OF preflight_setup [OF ran(5)]] by (simp add: ran(1))
qed (use assms in auto)

text \<open>
  The bundle that is saved after a job was created already has the job's tag as its applied
  tag, so the next successful poll with that tag settles it without looking at the job.
\<close>

lemma append_two_eq: "xs @ [a, b] = ys @ [c, d] \<longleftrightarrow> xs = ys \<and> a = c \<and> b = d"
  by (metis append1_eq_conv append_Cons append_Nil append_assoc)

lemma created_job_saved:
  assumes "creation env wb tag r (pre @ [EvCreateJob j None, EvUpdateStatus b None])"
  shows "ActiveJobName (Status b) = JobName j \<and> LastJobStatus (Status b) = JobStatusRunning \<and>
    Phase (Status b) = PhaseSyncing \<and> (tag \<noteq> '''' \<longrightarrow> LastAppliedTag (Status b) = tag) \<and>
    LastETag (Status b) = LastETag (Status wb)"
proof -
  obtain es where es: "creation env wb tag r es" "es = pre @ [EvCreateJob j None, EvUpdateStatus b None]"
    using assms by blast
  then have mem: "filter is_create es \<noteq> []" by simp
  from es(1) show ?thesis
  proof cases
    case (rejected b0 es' job b' e u)
    then have "(EvUpdateStatus b0 None # es') @ [EvCreateJob job (Some e), EvUpdateStatus b' u]
      = pre @ [EvCreateJob j None, EvUpdateStatus b None]" using es(2) by simp
    then show ?thesis unfolding append_two_eq by simp
  next
    case (created b0 es' job b' u)
    then have "(EvUpdateStatus b0 None # es') @ [EvCreateJob job None, EvUpdateStatus b' u]
      = pre @ [EvCreateJob j None, EvUpdateStatus b None]" using es(2) by simp
    then have "job = j" "b' = b" unfolding append_two_eq by simp_all
    with created show ?thesis by (simp add: claimed_def written_def status_frame_def)
  qed (use mem in \<open>auto simp: reads_no_create\<close>)
qed

lemma applied_tag_settles:
  assumes keeps: "server_keeps env" and tags: "tags \<noteq> []" "LastAppliedTag (Status wb) = last tags"
    and phase: "Phase (Status wb) \<noteq> PhaseSynced"
  shows "emits (handle_tags env wb tags i) (\<lambda>r es. \<exists>st u. es = [EvUpdateStatus (wb\<lparr>Status := st\<rparr>) u] \<and>
    r = Ret (0, u) \<and> Phase st = PhaseSynced \<and> ActiveJobName st = ActiveJobName (Status wb) \<and>
    LastJobStatus st = LastJobStatus (Status wb))"
proof -
  have latest: "tags ! (length tags - 1) = last tags" using tags(1) by (simp add: last_conv_nth)
  show ?thesis unfolding handle_tags_def Let_def latest result_defs
    by (simp add: tags phase, intro synced.write_then [OF keeps])
      (auto simp: written_def status_frame_def intro!: emits_return)
qed

end
