(* ===== verification/Ctl_Progress.thy ===== *)
theory Ctl_Progress
  imports Ctl_Safety
begin

text \<open>
  How far one run of \<open>Reconcile\<close> brings a bundle. A run makes a bounded number of calls; a
  tag that the status calls applied is settled without a look at its job; and a run that
  asks for no other leaves the bundle Synced with the last tag, Failed, or gone.
\<close>

section \<open>An applied tag\<close>

lemma polling_applied:
  assumes "polling env wb r es" "EvPoll url etag tags None \<in> set es" "tags \<noteq> []" "LastAppliedTag (Status wb) = last tags"
  shows "(\<forall>ev \<in> set es. \<not> is_create ev) \<and> (\<forall>k x. EvGetJob k x \<notin> set es) \<and>
    (if Phase (Status wb) = PhaseSynced then r = Ret (0, None) \<and> last es = EvPoll url etag tags None
     else \<exists>b u. last es = EvUpdateStatus b u \<and> r = Ret (0, u) \<and> Phase (Status b) = PhaseSynced \<and>
       LastAppliedTag (Status b) = last tags \<and> ActiveJobName (Status b) = ActiveJobName (Status wb) \<and>
       LastJobStatus (Status b) = LastJobStatus (Status wb))"
  using assms(1)
proof cases
  case (settled tags' etag' st u)
  then show ?thesis using assms(2) by (auto simp: written_def status_frame_def polled_def Let_def)
next
  case (deploying tags' etag' es')
  have "filter is_poll es' = []" using handling_inner [OF deploying(4)] by (simp add: inner_def)
  then show ?thesis using assms(2,4) deploying by (auto simp: filter_empty_conv)
qed (use assms in auto)

lemma reconciling_applied:
  assumes "reconciling env req r (EvGetBundle k (Inr wb) # es)" "ContainsFinalizer env (Finalizers wb) finalizerName"
    "EvPoll url etag tags None \<in> set es" "tags \<noteq> []" "LastAppliedTag (Status wb) = last tags"
  shows "filter is_create es = [] \<and> (\<forall>jk x. EvGetJob jk x \<notin> set es) \<and>
    (if Phase (Status wb) = PhaseSynced then r = Ret (0, None) \<and> last es = EvPoll url etag tags None
     else \<exists>b u. last es = EvUpdateStatus b u \<and> r = Ret (0, u) \<and> Phase (Status b) = PhaseSynced \<and>
       LastAppliedTag (Status b) = last tags \<and> ActiveJobName (Status b) = ActiveJobName (Status wb) \<and>
       LastJobStatus (Status b) = LastJobStatus (Status wb))"
  using assms(1)
proof cases
  case stopped
  then show ?thesis using assms(3) preflight_inner by (fastforce simp: inner_def filter_empty_conv)
next
  case (ran wb' es1 es2)
  have no_poll: "EvPoll url etag tags None \<notin> set es1"
    using preflight_inner [OF ran(6)] by (auto simp: inner_def filter_empty_conv)
  obtain t where st: "Status wb' = (Status wb)\<lparr>ResolvedTargetNamespace := t\<rparr>"
    using preflight_status [OF ran(6) assms(2)] by blast
  have "es2 \<noteq> []" using polling_polls [OF ran(7)] by auto
  moreover have "EvPoll url etag tags None \<in> set es2" using no_poll assms(3) ran(2) by auto
  ultimately show ?thesis
    using polling_applied [OF ran(7) _ assms(4)] assms(5) setup_no_create [OF preflight_setup [OF ran(6)]]
      setup_no_get_job [OF preflight_setup [OF ran(6)]]
    by (auto simp: st ran(2) filter_empty_conv)
qed (use assms in auto)

section \<open>The status that records a job\<close>

lemma handling_created_saved:
  assumes "handling env wb tag r (pre @ [EvCreateJob j None, EvUpdateStatus b None])"
  shows "ActiveJobName (Status b) = JobName j \<and> LastJobStatus (Status b) = JobStatusRunning \<and>
    Phase (Status b) = PhaseSyncing \<and> (tag \<noteq> '''' \<longrightarrow> LastAppliedTag (Status b) = tag) \<and>
    LastETag (Status b) = LastETag (Status wb)"
  using assms
proof cases
  case idle
  then show ?thesis by (intro created_job_saved)
next
  case (lost e es)
  then obtain pre' where "es = pre' @ [EvCreateJob j None, EvUpdateStatus b None]"
    by (cases pre) auto
  from created_job_saved [OF lost(4) [unfolded this]] show ?thesis by simp
next
  case (active job es)
  then have "EvCreateJob j None \<in> set es" by (cases pre) auto
  with monitoring_no_create [OF active(5)] show ?thesis by (auto simp: filter_empty_conv)
qed auto

lemma reconciling_created_saved:
  assumes "reconciling env req r (pre @ [EvCreateJob j None, EvUpdateStatus b None])" "EvPoll url etag tags None \<in> set pre"
    "last tags \<noteq> ''''"
  shows "ActiveJobName (Status b) = JobName j \<and> LastJobStatus (Status b) = JobStatusRunning \<and>
    Phase (Status b) = PhaseSyncing \<and> LastAppliedTag (Status b) = last tags \<and>
    (\<exists>wb. poll_answer env wb tags (LastETag (Status b)) None)"
  using assms(1)
proof cases
  case (stopped wb es)
  have "EvCreateJob j None \<in> set (pre @ [EvCreateJob j None, EvUpdateStatus b None])" by simp
  with setup_no_create [OF preflight_setup [OF stopped(5)]] show ?thesis
    unfolding stopped(1) by (simp add: filter_empty_conv) (metis is_create.simps(1))
next
  case (ran wb wb' es1 es2)
  have no_create: "filter is_create (EvGetBundle req (Inr wb) # es1) = []"
    using setup_no_create [OF preflight_setup [OF ran(5)]] by simp
  obtain mid where mid: "pre = EvGetBundle req (Inr wb) # es1 @ mid" "es2 = mid @ [EvCreateJob j None, EvUpdateStatus b None]"
    using split_after_prefix [OF no_create, of es2 pre j None "[EvUpdateStatus b None]"] ran(1) by auto
  have "EvPoll url etag tags None \<notin> set es1"
    using preflight_inner [OF ran(5)] by (auto simp: inner_def filter_empty_conv)
  then have poll: "EvPoll url etag tags None \<in> set mid" using assms(2) mid(1) by simp
  have "filter is_create es2 \<noteq> []" using mid(2) by simp
  then obtain tags' etag' es3 where es3: "es2 = EvPoll (URL (Registry (Spec wb'))) (LastETag (Status wb')) tags' None # es3"
    "handling env (polled wb' etag') (last tags') r es3" and answer: "poll_answer env wb' tags' etag' None"
    using polling_creates [OF ran(6)] by blast
  obtain mid' where mid': "mid = EvPoll (URL (Registry (Spec wb'))) (LastETag (Status wb')) tags' None # mid'"
    "es3 = mid' @ [EvCreateJob j None, EvUpdateStatus b None]" using mid(2) es3(1) poll by (cases mid) auto
  have "filter is_poll es3 = []" using handling_inner [OF es3(2)] by (simp add: inner_def)
  then have "tags' = tags" using poll mid' by (auto simp: filter_empty_conv)
  with handling_created_saved [OF es3(2) [unfolded mid'(2)]] assms(3) answer show ?thesis by (auto simp: polled_def Let_def)
qed (use assms in \<open>auto simp: append_eq_Cons_conv Cons_eq_append_conv\<close>)

section \<open>A run that asks for no other\<close>

text \<open>
  \<open>final env es b u\<close>: the run ended with a status update that leaves the bundle Synced, with
  the last tag of its poll applied, or Failed. The update was accepted, except that a missing
  ServiceAccount ends a run even when its report was not.
\<close>

definition final :: "event list \<Rightarrow> WerfBundle \<Rightarrow> err option \<Rightarrow> bool" where
  "final es b u \<longleftrightarrow> last es = EvUpdateStatus b u \<and>
     (u = None \<or> (\<exists>k e. EvGetServiceAccount k (Some e) \<in> set es)) \<and>
     (Phase (Status b) = PhaseFailed \<or> Phase (Status b) = PhaseSynced \<and>
        (\<exists>url etag tags. EvPoll url etag tags None \<in> set es \<and> tags \<noteq> [] \<and> LastAppliedTag (Status b) = last tags))"

lemma final_append: "final es b u \<Longrightarrow> es \<noteq> [] \<Longrightarrow> final (es' @ es) b u"
  by (auto simp: final_def)

lemma final_Cons: "final es b u \<Longrightarrow> es \<noteq> [] \<Longrightarrow> final (ev # es) b u"
  using final_append [of es b u "[ev]"] by simp

text \<open>
  The results after which controller-runtime queues the same request again: an error (a panic
  is recovered and counts as one), or a positive delay.
\<close>

definition requeued :: "reconcile_result \<Rightarrow> bool" where
  "requeued r \<longleftrightarrow> (case r of Ret (d, e) \<Rightarrow> e \<noteq> None \<or> 0 < sint d | Panic msg \<Rightarrow> True)"

lemma requeued_simps [simp]:
  "requeued (Ret (d, e)) \<longleftrightarrow> e \<noteq> None \<or> 0 < sint d" "requeued (Panic msg)"
  by (simp_all add: requeued_def)

lemma creation_rest:
  assumes "creation env wb tag r es" "\<not> requeued r"
  shows "\<exists>b. last es = EvUpdateStatus b None \<and> Phase (Status b) = PhaseFailed \<and> es \<noteq> []"
  using assms by cases (auto simp: written_def split: option.splits)

lemma monitoring_rest:
  assumes "monitoring wb job tag r es" "\<not> requeued r"
  shows "\<exists>b. last es = EvUpdateStatus b None \<and> es \<noteq> [] \<and>
    (Phase (Status b) = PhaseFailed \<or> Phase (Status b) = PhaseSynced \<and> LastAppliedTag (Status b) = tag)"
  using assms by cases auto

lemma handling_rest:
  assumes "handling env wb tag r es" "\<not> requeued r"
  shows "\<exists>b. last es = EvUpdateStatus b None \<and> es \<noteq> [] \<and>
    (Phase (Status b) = PhaseFailed \<or> Phase (Status b) = PhaseSynced \<and> LastAppliedTag (Status b) = tag)"
  using assms by cases (auto dest: creation_rest monitoring_rest)

lemma CalculateBackoff_pos: "sint f \<le> 5 \<Longrightarrow> 0 < sint (CalculateBackoff f)"
proof (cases "sint f \<le> 0")
  case False
  assume "sint f \<le> 5"
  then have "sint (CalculateBackoff f) = backoff_spec (nat (sint f))" using False by (intro CalculateBackoff_small) simp_all
  then show ?thesis using backoff_spec_bounds [of "nat (sint f)"] by simp
qed (simp add: CalculateBackoff_def baseDuration_def)

text \<open>A poll interval that jitter neither drops nor overflows.\<close>

definition paced :: "'k Env \<Rightarrow> WerfBundle \<Rightarrow> bool" where
  "paced env wb \<longleftrightarrow> 10 \<le> sint (poll_interval env wb) \<and> 11 * sint (poll_interval env wb) < 10 * 2 ^ 63"

lemma paced_same: "same_object wb wb' \<Longrightarrow> paced env wb' = paced env wb"
  by (simp add: paced_def poll_interval_same)

lemma paced_status [simp]: "paced env (wb\<lparr>Status := st\<rparr>) = paced env wb"
  by (rule paced_same) (simp add: same_object_def)

lemma jittered_requeued:
  "jittered env (poll_interval env wb) r \<Longrightarrow> rand_in_range env \<Longrightarrow> paced env wb \<Longrightarrow> requeued r"
  by (cases r) (auto simp: jittered_def near_interval_def paced_def)

lemma polling_rest:
  assumes "polling env wb r es" "\<not> requeued r" "rand_in_range env" "paced env wb"
  shows "(\<exists>b. final es b None) \<or> (Phase (Status wb) = PhaseSynced \<and>
    (\<exists>url etag tags. es = [EvPoll url etag tags None] \<and> tags \<noteq> [] \<and> LastAppliedTag (Status wb) = last tags))"
  using assms(1)
proof cases
  case (unreachable e st u tags)
  then have "u = None \<and> Phase st = PhaseFailed"
    using assms(2) CalculateBackoff_pos [of "ConsecutiveFailures (Status wb) + 1"]
    by (auto simp: failure_step_def Let_def maxConsecutiveFailures_def split: if_splits option.splits)
  with unreachable show ?thesis by (auto simp: final_def intro!: exI [of _ "wb\<lparr>Status := st\<rparr>"])
next
  case (settled tags etag st u)
  then show ?thesis using assms(2) by (auto simp: final_def written_def intro!: exI [of _ "wb\<lparr>Status := st\<rparr>"])
next
  case (deploying tags etag es')
  from handling_rest [OF deploying(4) assms(2)] obtain b where "last es' = EvUpdateStatus b None" "es' \<noteq> []"
    "Phase (Status b) = PhaseFailed \<or> Phase (Status b) = PhaseSynced \<and> LastAppliedTag (Status b) = last tags" by blast
  with deploying show ?thesis by (auto simp: final_def intro!: exI [of _ b])
qed (use jittered_requeued [OF _ assms(3,4)] assms(2) in \<open>auto split: option.splits\<close>)

lemma preflight_rest:
  "preflight env wb (Inl r) es \<Longrightarrow> \<not> requeued r \<Longrightarrow> \<exists>b u. final es b u"
  by (erule preflight.cases) (auto simp: final_def written_def)

lemma reconciling_rest:
  assumes "reconciling env req r (EvGetBundle k (Inr wb) # es)" "\<not> requeued r" "DeletionTimestamp wb = None"
    "ContainsFinalizer env (Finalizers wb) finalizerName" "rand_in_range env" "paced env wb"
  shows "(\<exists>b u. final es b u) \<or> (Phase (Status wb) = PhaseSynced \<and> (\<forall>b u. EvUpdateStatus b u \<notin> set es \<or> Phase (Status b) = PhaseSynced) \<and>
    (\<exists>url etag tags. last es = EvPoll url etag tags None \<and> tags \<noteq> [] \<and> LastAppliedTag (Status wb) = last tags))"
  using assms(1)
proof cases
  case stopped
  then show ?thesis using preflight_rest assms(2) by blast
next
  case (ran wb' es1 es2)
  have same: "same_object wb wb'" using preflight_validated [OF ran(6)] by blast
  obtain t where st: "Status wb' = (Status wb)\<lparr>ResolvedTargetNamespace := t\<rparr>"
    using preflight_status [OF ran(6) assms(4)] by blast
  have "(\<exists>b. final es2 b None) \<or> (Phase (Status wb') = PhaseSynced \<and>
    (\<exists>url etag tags. es2 = [EvPoll url etag tags None] \<and> tags \<noteq> [] \<and> LastAppliedTag (Status wb') = last tags))"
    by (rule polling_rest [OF ran(7) assms(2,5)]) (use assms(6) in \<open>simp add: paced_same [OF same]\<close>)
  then show ?thesis
  proof
    assume "\<exists>b. final es2 b None"
    moreover have "es2 \<noteq> []" using polling_polls [OF ran(7)] by auto
    ultimately show ?thesis unfolding ran(2) using final_append by blast
  next
    assume r: "Phase (Status wb') = PhaseSynced \<and>
      (\<exists>url etag tags. es2 = [EvPoll url etag tags None] \<and> tags \<noteq> [] \<and> LastAppliedTag (Status wb') = last tags)"
    have "Phase (Status b) = PhaseSynced" if "EvUpdateStatus b u \<in> set es1" for b u
      using ran(6) that r st assms(4)
      by cases (auto simp: with_finalizer_def with_target_def with_account_def set_target_def split: if_splits)
    with r st ran(2) show ?thesis by auto
  qed
qed (use assms in auto)

section \<open>The number of calls\<close>

text \<open>The calls of a run but the reads of logs, one for every pod of a finished job.\<close>

fun is_log_read :: "event \<Rightarrow> bool" where
  "is_log_read (EvPodLogs n p c) = True"
| "is_log_read _ = False"

definition calls :: "event list \<Rightarrow> nat" where
  "calls es = length (filter (\<lambda>ev. \<not> is_log_read ev) es)"

lemma calls_simps [simp]:
  "calls [] = 0" "calls (ev # es) = (if is_log_read ev then 0 else 1) + calls es" "calls (es @ es') = calls es + calls es'"
  by (simp_all add: calls_def)

lemma calls_length: "calls es \<le> length es"
  by (simp add: calls_def)

abbreviation sources_of :: "WerfBundle \<Rightarrow> nat" where
  "sources_of wb \<equiv> length (ValuesFrom (Converge (Spec wb)))"

lemma fetch_source_calls: "emits (fetch_source env i s b t) (\<lambda>r es. calls es \<le> 2)"
  unfolding fetch_source_def
  by (intro emits_intros emits_bind [OF config_map_fetch.fetch_emits] emits_bind [OF secret_fetch.fetch_emits]) auto

lemma resolve_sources_calls: "emits (resolve_sources env i ss b t maps) (\<lambda>r es. calls es \<le> 2 * length ss)"
proof (induction ss arbitrary: i maps)
  case (Cons s ss)
  show ?case unfolding resolve_sources.simps
    by (rule emits_bind [OF fetch_source_calls], intro emits_intros) (auto intro: emits_mono [OF Cons.IH])
qed (auto intro: emits_intros)

lemma ResolveValues_calls: "emits (ResolveValues env ss b t) (\<lambda>r es. calls es \<le> 2 * length ss)"
  unfolding ResolveValues_def by (rule emits_bind [OF resolve_sources_calls]) (auto intro!: emits_intros)

lemma Build_calls: "emits (Build env (controller_builder env wb) tag) (\<lambda>r es. calls es \<le> 2 * sources_of wb)"
proof -
  have args: "emits (build_args (controller_builder env wb) wb tag) (\<lambda>r es. calls es \<le> 2 * sources_of wb)"
    unfolding build_args_def Let_def
    by (simp, intro conjI impI emits_bind [OF ResolveValues_calls] emits_intros) auto
  show ?thesis unfolding Build_def controller_builder_simps option.case
    by (rule emits_bind [OF jobName_emits], intro emits_intros emits_bind [OF args]) auto
qed

lemma create_converge_job_calls:
  assumes keeps: "server_keeps env"
  shows "emits (create_converge_job env wb tag) (\<lambda>r es. calls es \<le> 3 + 2 * sources_of wb)"
  unfolding create_converge_job_def result_defs
proof (rule syncing.write_then [OF keeps], goal_cases)
  case (2 st wb')
  then have [simp]: "sources_of wb' = sources_of wb" by (simp add: same_object_def)
  show ?case unfolding sum.case create_job_def
    apply (rule emits_bind [OF Build_calls])
    apply (intro emits_intros failed.write_then [OF keeps] emits_call_bind emits_bind [OF update_status_emits [OF keeps]])
    apply auto
    done
qed (auto intro!: emits_return)

lemma collect_logs_calls: "emits (collect_logs env ns pods ls) (\<lambda>r es. calls es = 0)"
proof (induction pods arbitrary: ls)
  case (Cons pod pods)
  have "emits (getPodLogs env pod c ns) (\<lambda>r es. calls es = 0)" for c
    unfolding getPodLogs_def stream_pod_logs_def by (intro emits_call_bind emits_intros) auto
  then show ?case
    by (cases "PodContainers pod") (auto intro: Cons.IH intro!: emits_bind emits_mono [OF Cons.IH])
qed (auto intro: emits_intros)

lemma attach_logs_calls: "emits (attach_logs env wb job) (\<lambda>r es. calls es \<le> 3)"
proof -
  have capture: "emits (CaptureJobLogs env n ns) (\<lambda>r es. calls es \<le> 1)" for n ns
    unfolding CaptureJobLogs_def list_pods_def
    by (intro emits_call_bind emits_intros emits_bind [OF collect_logs_calls]) auto
  have store: "emits (storeJobLogs env wb n l) (\<lambda>r es. calls es \<le> 2)" for wb n l
    unfolding storeJobLogs_def Let_def create_configmap_def update_configmap_def
    by (intro emits_intros emits_call_bind) auto
  show ?thesis unfolding attach_logs_def
    by (rule emits_bind [OF capture], intro emits_intros emits_bind [OF store]) auto
qed

lemma monitorJobCompletion_calls:
  assumes keeps: "server_keeps env"
  shows "emits (monitorJobCompletion env wb job tag) (\<lambda>r es. calls es \<le> 4)"
  unfolding monitorJobCompletion_def result_defs
  by (intro emits_intros emits_bind [OF attach_logs_calls] synced.write_then [OF keeps] failed.write_then [OF keeps])
    (auto intro!: emits_return)

lemma ensureJobExists_calls:
  assumes keeps: "server_keeps env"
  shows "emits (ensureJobExists env wb tag) (\<lambda>r es. calls es \<le> 5 + 2 * sources_of wb)"
  unfolding ensureJobExists_def get_job_def fail_with_def
  by (intro emits_intros emits_call_bind)
    (auto intro: emits_mono [OF create_converge_job_calls [OF keeps]] emits_mono [OF monitorJobCompletion_calls [OF keeps]])

lemma poll_and_deploy_calls:
  assumes keeps: "server_keeps env"
  shows "emits (poll_and_deploy env wb) (\<lambda>r es. calls es \<le> 6 + 2 * sources_of wb)"
proof -
  have tags: "emits (handle_tags env wb' tags i) (\<lambda>r es. calls es \<le> 5 + 2 * sources_of wb)"
    if "sources_of wb' = sources_of wb" for wb' tags i
    unfolding handle_tags_def Let_def result_defs
    by (intro emits_intros syncing.write_then [OF keeps] synced.write_then [OF keeps])
      (auto simp: that intro!: emits_return emits_mono [OF requeue_jittered_emits] emits_mono [OF ensureJobExists_calls [OF keeps]])
  have "sources_of (polled wb etag) = sources_of wb" for etag
    using polled_simps(1) [of wb etag] by (simp add: same_object_def)
  note tags = tags [OF this]
  have failure: "emits (handleRegistryError env wb e i) (\<lambda>r es. calls es \<le> 1)" for e i
  proof (cases "errors_As_NotModified e")
    case True
    then show ?thesis by (auto simp: handleRegistryError_def intro!: emits_mono [OF requeue_jittered_emits])
  next
    case False
    then show ?thesis by (intro emits_mono [OF handleRegistryError_emits [OF keeps]]) auto
  qed
  show ?thesis unfolding poll_and_deploy_def Let_def poll_registry_def
    by (intro emits_call_bind emits_intros) (auto intro: emits_mono [OF tags] emits_mono [OF failure])
qed

lemma preflight_length: "preflight env wb x es \<Longrightarrow> length es \<le> 4"
  by (erule preflight.cases) (auto simp: with_finalizer_def with_target_def with_account_def split: if_splits)

lemma preflight_passed_length: "preflight env wb (Inr wb') es \<Longrightarrow> length es \<le> 3"
  by (erule preflight.cases) (auto simp: with_finalizer_def with_target_def with_account_def split: if_splits)

lemma Reconcile_calls:
  assumes keeps: "server_keeps env"
  shows "emits (Reconcile env req) (\<lambda>r es. \<exists>x. hd es = EvGetBundle req x \<and>
    calls es \<le> (case x of Inl e \<Rightarrow> 1 | Inr wb \<Rightarrow> 10 + 2 * sources_of wb))"
proof -
  have stages: "emits (then_stage (ensure_finalizer env wb) (\<lambda>wb. then_stage (check_cross_namespace env wb) (\<lambda>wb.
      then_stage (store_target_namespace env wb) (\<lambda>wb. then_stage (check_service_account env wb) (\<lambda>wb.
      poll_and_deploy env wb))))) (\<lambda>r es. calls es \<le> 9 + 2 * sources_of wb)" for wb
  proof (rule stages_emit [OF keeps])
    fix r es
    assume "preflight env wb (Inl r) es"
    from preflight_length [OF this] calls_length [of es] show "calls es \<le> 9 + 2 * sources_of wb" by simp
  next
    fix wb' es
    assume p: "preflight env wb (Inr wb') es"
    then have "sources_of wb' = sources_of wb" using preflight_validated [OF p] by (simp add: same_object_def)
    with preflight_passed_length [OF p] calls_length [of es]
    show "emits (poll_and_deploy env wb') (\<lambda>r es'. calls (es @ es') \<le> 9 + 2 * sources_of wb)"
      by (intro emits_mono [OF poll_and_deploy_calls [OF keeps]]) simp
  qed
  show ?thesis unfolding Reconcile_def get_bundle_def
    by (intro emits_call_bind emits_intros)
      (auto simp: fail_with_def result_defs finalize_def update_bundle_def
        intro!: emits_intros emits_call_bind emits_mono [OF stages])
qed

end
