(* ===== verification/Ctl_System.thy ===== *)
theory Ctl_System
  imports Ctl_Safety
begin

text \<open>
  The operator and its cluster over many runs. A state holds the status that the API server
  has of one bundle and the Jobs that were created for it. A run of \<open>Reconcile\<close> is
  interleaved with steps of the cluster, in which jobs progress, finish or are removed; its
  calls are answered from the state and change it. The invariant is that at most one job is
  unfinished, and that it is the one that the status names.
\<close>

section \<open>States and steps\<close>

record system =
  saved :: WerfBundleStatus
  live :: "Job list"

definition job_key :: "Job \<Rightarrow> NamespacedName" where
  "job_key j = key (JobName j) (JobNamespace j)"

abbreviation live_keys :: "system \<Rightarrow> NamespacedName list" where
  "live_keys s \<equiv> map job_key (live s)"

text \<open>The reading of a job's counters by \<open>monitorJobCompletion\<close>.\<close>

definition unfinished :: "Job \<Rightarrow> bool" where
  "unfinished j \<longleftrightarrow> \<not> 0 < sint (Succeeded j) \<and> \<not> 0 < sint (Failed j)"

text \<open>A step of the cluster: a job reports progress, where finished stays finished, or is removed.\<close>

inductive cluster_step :: "system \<Rightarrow> system \<Rightarrow> bool" where
  reported: "live s = js @ j # js' \<Longrightarrow> job_key j' = job_key j \<Longrightarrow> (unfinished j' \<Longrightarrow> unfinished j) \<Longrightarrow>
    cluster_step s (s\<lparr>live := js @ j' # js'\<rparr>)"
| removed: "live s = js @ j # js' \<Longrightarrow> cluster_step s (s\<lparr>live := js @ js'\<rparr>)"

text \<open>
  The answers of the API server agree with the state; an accepted status update and an
  accepted job change it. A status update that returned an error may have been stored.
\<close>

fun answered :: "'k Env \<Rightarrow> WerfBundleSpec \<Rightarrow> event \<Rightarrow> system \<Rightarrow> system \<Rightarrow> bool" where
  "answered env spec (EvGetBundle k x) s s' \<longleftrightarrow> s' = s \<and> (\<forall>wb. x = Inr wb \<longrightarrow> Spec wb = spec \<and> Status wb = saved s)"
| "answered env spec (EvUpdateBundle b x) s s' \<longleftrightarrow> s' = s \<and> (\<forall>wb. x = Inr wb \<longrightarrow> Status wb = saved s)"
| "answered env spec (EvUpdateStatus b u) s s' \<longleftrightarrow> s' = s\<lparr>saved := Status b\<rparr> \<or> (u \<noteq> None \<and> s' = s)"
| "answered env spec (EvGetJob k x) s s' \<longleftrightarrow> s' = s \<and>
     (case x of Inr j \<Rightarrow> j \<in> set (live s) \<and> job_key j = k | Inl e \<Rightarrow> IsNotFound env e \<longrightarrow> k \<notin> set (live_keys s))"
| "answered env spec (EvCreateJob j a) s s' \<longleftrightarrow>
     (if a = None then job_key j \<notin> set (live_keys s) \<and> s' = s\<lparr>live := j # live s\<rparr> else s' = s)"
| "answered env spec ev s s' \<longleftrightarrow> s' = s"

text \<open>
  A run on a bundle that the client cached before the last update, with reads of any age: the
  API server refuses every update of the bundle, whose resource version is an old one, but the
  creation of a job carries none and is answered as in any other run.
\<close>

fun stale_answered :: "'k Env \<Rightarrow> WerfBundleSpec \<Rightarrow> event \<Rightarrow> system \<Rightarrow> system \<Rightarrow> bool" where
  "stale_answered env spec (EvUpdateBundle b x) s s' \<longleftrightarrow> s' = s \<and> (\<exists>e. x = Inl e)"
| "stale_answered env spec (EvUpdateStatus b u) s s' \<longleftrightarrow> s' = s \<and> u \<noteq> None"
| "stale_answered env spec (EvCreateJob j a) s s' \<longleftrightarrow> answered env spec (EvCreateJob j a) s s'"
| "stale_answered env spec ev s s' \<longleftrightarrow> s' = s"

inductive interleaved :: "(event \<Rightarrow> system \<Rightarrow> system \<Rightarrow> bool) \<Rightarrow> system \<Rightarrow> event list \<Rightarrow> system \<Rightarrow> bool"
  for ans :: "event \<Rightarrow> system \<Rightarrow> system \<Rightarrow> bool"
where
  rest: "interleaved ans s [] s"
| call: "ans ev s s1 \<Longrightarrow> interleaved ans s1 es s' \<Longrightarrow> interleaved ans s (ev # es) s'"
| step: "cluster_step s s1 \<Longrightarrow> interleaved ans s1 es s' \<Longrightarrow> interleaved ans s es s'"

text \<open>The status update that follows a created job succeeds.\<close>

definition recorded :: "event list \<Rightarrow> bool" where
  "recorded es \<longleftrightarrow>
     (\<forall>pre j post b e. es = pre @ EvCreateJob j None # post \<longrightarrow> EvUpdateStatus b (Some e) \<notin> set post)"

inductive reachable :: "'k Env \<Rightarrow> NamespacedName \<Rightarrow> WerfBundleSpec \<Rightarrow> system \<Rightarrow> system \<Rightarrow> bool"
  for env :: "'k Env" and req :: NamespacedName and spec :: WerfBundleSpec and s0 :: system
where
  start: "reachable env req spec s0 s0"
| run: "reachable env req spec s0 s \<Longrightarrow> run_state (Reconcile env req) w = (r, w') \<Longrightarrow> trace w' = trace w @ es \<Longrightarrow>
    recorded es \<Longrightarrow> interleaved (answered env spec) s es s' \<Longrightarrow> reachable env req spec s0 s'"
| stale: "reachable env req spec s0 s \<Longrightarrow> run_state (Reconcile env req) w = (r, w') \<Longrightarrow> trace w' = trace w @ es \<Longrightarrow>
    interleaved (stale_answered env spec) s es s' \<Longrightarrow> reachable env req spec s0 s'"

section \<open>The invariant\<close>

definition single :: "string \<Rightarrow> system \<Rightarrow> bool" where
  "single ns s \<longleftrightarrow> distinct (live_keys s) \<and>
     (\<forall>j \<in> set (live s). unfinished j \<longrightarrow> job_key j = key (ActiveJobName (saved s)) ns \<and> JobName j \<noteq> '''')"

definition quiet :: "system \<Rightarrow> bool" where
  "quiet s \<longleftrightarrow> distinct (live_keys s) \<and> (\<forall>j \<in> set (live s). \<not> unfinished j)"

text \<open>Between the creation of a job and the update that records it.\<close>

definition pending :: "NamespacedName \<Rightarrow> system \<Rightarrow> bool" where
  "pending k s \<longleftrightarrow> distinct (live_keys s) \<and> (\<forall>j \<in> set (live s). unfinished j \<longrightarrow> job_key j = k \<and> NName k \<noteq> '''')"

lemma quiet_single: "quiet s \<Longrightarrow> single ns s"
  by (simp add: quiet_def single_def)

lemma single_pending: "single ns s \<longleftrightarrow> pending (key (ActiveJobName (saved s)) ns) s"
  by (auto simp: single_def pending_def job_key_def)

lemma quiet_pending: "quiet s \<Longrightarrow> pending k s"
  by (simp add: quiet_def pending_def)

lemma cluster_step_saved: "cluster_step s s' \<Longrightarrow> saved s' = saved s"
  by (auto elim: cluster_step.cases)

lemma cluster_step_pending: "cluster_step s s' \<Longrightarrow> pending k s \<Longrightarrow> pending k s'"
  by (induction rule: cluster_step.induct) (auto simp: pending_def)

lemma cluster_step_quiet: "cluster_step s s' \<Longrightarrow> quiet s \<Longrightarrow> quiet s'"
  by (induction rule: cluster_step.induct) (auto simp: quiet_def)

lemma interleaved_append:
  assumes "interleaved ans s (es @ es') s''"
  shows "\<exists>s'. interleaved ans s es s' \<and> interleaved ans s' es' s''"
  using assms
proof (induction s "es @ es'" s'' arbitrary: es rule: interleaved.induct)
  case (rest s)
  then show ?case by (auto intro: interleaved.rest)
next
  case (call ev s s1 es1 s')
  show ?case
  proof (cases es)
    case Nil
    then show ?thesis using call by (auto intro: interleaved.intros)
  next
    case (Cons ev' es2)
    then show ?thesis using call by (auto intro: interleaved.call)
  qed
qed (auto intro: interleaved.step)

lemma interleaved_Cons:
  "interleaved ans s (ev # es) s'' \<Longrightarrow>
   \<exists>s1 s2. interleaved ans s [] s1 \<and> ans ev s1 s2 \<and> interleaved ans s2 es s''"
proof (induction s "ev # es" s'' rule: interleaved.induct)
  case (step s s1 s')
  then show ?case by (auto intro: interleaved.step)
qed (auto intro: interleaved.rest)

text \<open>Calls that neither create a job nor change which job the status names.\<close>

fun neutral :: "string \<Rightarrow> event \<Rightarrow> bool" where
  "neutral a (EvUpdateStatus b u) = (ActiveJobName (Status b) = a)"
| "neutral a (EvCreateJob j x) = (x \<noteq> None)"
| "neutral a _ = True"

lemma answered_neutral:
  "answered env spec ev s s' \<Longrightarrow> neutral a ev \<Longrightarrow> ActiveJobName (saved s) = a \<Longrightarrow>
   live s' = live s \<and> ActiveJobName (saved s') = a"
  by (cases ev) (auto split: if_splits)

lemma interleaved_neutral:
  "interleaved (answered env spec) s es s' \<Longrightarrow> list_all (neutral a) es \<Longrightarrow> ActiveJobName (saved s) = a \<Longrightarrow> pending k s \<Longrightarrow>
   ActiveJobName (saved s') = a \<and> pending k s'"
proof (induction rule: interleaved.induct)
  case (call ev s s1 es s')
  then show ?case using answered_neutral [OF call(1)] by (auto simp: pending_def)
next
  case (step s s1 es s')
  then show ?case by (simp add: cluster_step_saved cluster_step_pending)
qed auto

lemma single_neutral:
  "interleaved (answered env spec) s es s' \<Longrightarrow> list_all (neutral a) es \<Longrightarrow> ActiveJobName (saved s) = a \<Longrightarrow> single ns s \<Longrightarrow>
   ActiveJobName (saved s') = a \<and> single ns s'"
  using interleaved_neutral [of env spec s es s' a "key a ns"] by (auto simp: single_pending)

text \<open>Without an accepted job, a quiet state stays quiet whatever is written.\<close>

fun accepted_job :: "event \<Rightarrow> bool" where
  "accepted_job (EvCreateJob j x) = (x = None)"
| "accepted_job _ = False"

lemma answered_quiet: "answered env spec ev s s' \<Longrightarrow> \<not> accepted_job ev \<Longrightarrow> live s' = live s"
  by (cases ev) (auto split: if_splits)

lemma interleaved_quiet:
  "interleaved (answered env spec) s es s' \<Longrightarrow> \<forall>ev \<in> set es. \<not> accepted_job ev \<Longrightarrow> quiet s \<Longrightarrow> quiet s'"
proof (induction rule: interleaved.induct)
  case (call ev s s1 es s')
  then show ?case using answered_quiet [OF call(1)] by (auto simp: quiet_def)
next
  case (step s s1 es s')
  then show ?case by (simp add: cluster_step_quiet)
qed auto

section \<open>Every handler keeps it\<close>

lemma recorded_append: "recorded (es @ es') \<Longrightarrow> recorded es'"
  unfolding recorded_def by (metis append.assoc)

lemma recorded_Cons: "recorded (ev # es) \<Longrightarrow> recorded es"
  using recorded_append [of "[ev]" es] by simp

lemma reads_not_accepted: "list_all (reads_of wb) es \<Longrightarrow> ev \<in> set es \<Longrightarrow> \<not> accepted_job ev"
  by (cases ev) (auto simp: reads_of_def list_all_iff)

lemma logs_not_accepted: "list_all (log_event wb job) es \<Longrightarrow> ev \<in> set es \<Longrightarrow> \<not> accepted_job ev"
  by (cases ev) (auto simp: list_all_iff)

lemma built_key:
  assumes "built env wb tag (Ret (Inr j))"
  shows "job_key j = key (JobName j) (target_of wb) \<and> JobName j \<noteq> ''''"
  using assms by (auto simp: built_def job_for_def job_key_def target_of_def job_name_result_def is_job_name_def)

text \<open>The finished job that a run found was the only one.\<close>

lemma finished_quiet:
  assumes "single ns s" "j \<in> set (live s)" "job_key j = key (ActiveJobName (saved s)) ns" "\<not> unfinished j"
  shows "quiet s"
proof -
  have "j' = j" if "j' \<in> set (live s)" "unfinished j'" for j'
  proof (rule inj_onD [of job_key "set (live s)"])
    show "inj_on job_key (set (live s))" using assms(1) by (simp add: single_def distinct_map)
    show "job_key j' = job_key j" using assms that by (simp add: single_def)
  qed (use assms that in auto)
  with assms show ?thesis unfolding quiet_def single_def by blast
qed

lemma creation_single:
  assumes "creation env wb tag r es" "interleaved (answered env spec) s es s'" "recorded es" "quiet s"
  shows "single (target_of wb) s'"
  using assms(1)
proof cases
  case (created b es1 job b' u)
  note job = built_key [OF created(4)]
  have u: "u = None"
  proof (rule ccontr)
    assume "u \<noteq> None"
    moreover have "es = (EvUpdateStatus b None # es1) @ EvCreateJob job None # [EvUpdateStatus b' u]"
      using created by simp
    ultimately show False using assms(3) unfolding recorded_def by (metis list.set_intros(1) not_Some_eq)
  qed
  have split: "es = (EvUpdateStatus b None # es1) @ [EvCreateJob job None, EvUpdateStatus b' None]"
    using created u by simp
  obtain s1 where s1: "interleaved (answered env spec) s (EvUpdateStatus b None # es1) s1"
    "interleaved (answered env spec) s1 [EvCreateJob job None, EvUpdateStatus b' None] s'"
    using interleaved_append [OF assms(2) [unfolded split]] by blast
  have q1: "quiet s1"
    by (rule interleaved_quiet [OF s1(1) _ assms(4)]) (use created in \<open>auto dest: reads_not_accepted\<close>)
  obtain s2 s3 where s2: "interleaved (answered env spec) s1 [] s2" "answered env spec (EvCreateJob job None) s2 s3"
    "interleaved (answered env spec) s3 [EvUpdateStatus b' None] s'"
    using interleaved_Cons [OF s1(2)] by blast
  have "quiet s2" by (rule interleaved_quiet [OF s2(1) _ q1]) simp
  with s2(2) job have p3: "pending (job_key job) s3"
    by (auto simp: quiet_def pending_def)
  obtain s4 s5 where s4: "interleaved (answered env spec) s3 [] s4" "answered env spec (EvUpdateStatus b' None) s4 s5"
    "interleaved (answered env spec) s5 [] s'"
    using interleaved_Cons [OF s2(3)] by blast
  have "pending (job_key job) s4" using interleaved_neutral [OF s4(1) _ refl p3] by simp
  with s4(2) created job have "single (target_of wb) s5"
    by (simp add: single_pending pending_def)
  then show ?thesis using single_neutral [OF s4(3) _ refl] by simp
next
  case not_claimed
  then show ?thesis
    using interleaved_quiet [OF assms(2) _ assms(4)] by (auto intro: quiet_single)
next
  case (panicked b es1 msg)
  then show ?thesis
    using interleaved_quiet [OF assms(2) _ assms(4)] by (auto intro!: quiet_single dest: reads_not_accepted)
next
  case (not_built b es1 e b' u)
  then show ?thesis
    using interleaved_quiet [OF assms(2) _ assms(4)] by (auto intro!: quiet_single dest: reads_not_accepted)
next
  case (rejected b es1 job b' e u)
  then show ?thesis
    using interleaved_quiet [OF assms(2) _ assms(4)] by (auto intro!: quiet_single dest: reads_not_accepted)
qed

lemma monitoring_single:
  assumes "monitoring wb job tag r es" "interleaved (answered env spec) s es s'" "single ns s"
    "job \<in> set (live s)" "job_key job = key (ActiveJobName (saved s)) ns"
  shows "single ns s'"
  using assms(1)
proof cases
  case running
  then show ?thesis using single_neutral [OF assms(2) _ refl assms(3)] by simp
next
  case (succeeded es1 st u)
  then have "quiet s" by (intro finished_quiet [OF assms(3-5)]) (simp add: unfinished_def)
  then show ?thesis using succeeded
    by (intro quiet_single interleaved_quiet [OF assms(2)]) (auto dest: logs_not_accepted)
next
  case (failed es1 st u)
  then have "quiet s" by (intro finished_quiet [OF assms(3-5)]) (simp add: unfinished_def)
  then show ?thesis using failed
    by (intro quiet_single interleaved_quiet [OF assms(2)]) (auto dest: logs_not_accepted)
qed

text \<open>What a handler starts from: the bundle as the server has it, in an invariant state.\<close>

definition in_step :: "string \<Rightarrow> WerfBundle \<Rightarrow> system \<Rightarrow> bool" where
  "in_step ns wb s \<longleftrightarrow> single ns s \<and> ActiveJobName (Status wb) = ActiveJobName (saved s) \<and> target_of wb = ns"

lemma in_step_neutral:
  assumes "interleaved (answered env spec) s es s'" "list_all (neutral (ActiveJobName (Status wb))) es" "in_step ns wb s"
  shows "in_step ns wb s'"
  using single_neutral [OF assms(1,2), of ns] assms(3) by (auto simp: in_step_def)

lemma handling_single:
  assumes "handling env wb tag r es" "interleaved (answered env spec) s es s'" "recorded es" "in_step ns wb s"
  shows "single ns s'"
  using assms(1)
proof cases
  case idle
  have "quiet s" using assms(4) idle by (auto simp: in_step_def single_def quiet_def job_key_def)
  then show ?thesis using creation_single [OF idle(2) assms(2,3)] assms(4) by (simp add: in_step_def)
next
  case (unreadable e)
  then show ?thesis using in_step_neutral [OF assms(2) _ assms(4)] by (simp add: in_step_def)
next
  case (lost e es1)
  obtain s1 s2 where s: "interleaved (answered env spec) s [] s1" "answered env spec (EvGetJob (active_key wb) (Inl e)) s1 s2"
    "interleaved (answered env spec) s2 es1 s'"
    using interleaved_Cons [OF assms(2) [unfolded lost(1)]] by blast
  have "in_step ns wb s1" by (rule in_step_neutral [OF s(1) _ assms(4)]) simp
  with s(2) lost(3) have "active_key wb \<notin> set (live_keys s2)" "single ns s2"
    "active_key wb = key (ActiveJobName (saved s2)) ns"
    by (auto simp: in_step_def active_key_def)
  then have "quiet s2" unfolding quiet_def single_def by (metis image_eqI list.set_map)
  moreover have "target_of (forget_job wb) = ns" using assms(4) by (simp add: in_step_def target_of_def forget_job_def)
  ultimately show ?thesis
    using creation_single [OF lost(4) s(3) recorded_Cons [OF assms(3) [unfolded lost(1)]]] by simp
next
  case (active job es1)
  obtain s1 s2 where s: "interleaved (answered env spec) s [] s1" "answered env spec (EvGetJob (active_key wb) (Inr job)) s1 s2"
    "interleaved (answered env spec) s2 es1 s'"
    using interleaved_Cons [OF assms(2) [unfolded active(1)]] by blast
  have "in_step ns wb s1" by (rule in_step_neutral [OF s(1) _ assms(4)]) simp
  with s(2) show ?thesis
    by (intro monitoring_single [OF active(5) s(3)]) (auto simp: in_step_def active_key_def)
qed

lemma polled_active [simp]: "ActiveJobName (Status (polled wb etag)) = ActiveJobName (Status wb)"
  "target_of (polled wb etag) = target_of wb"
  by (simp_all add: polled_def Let_def target_of_def)

lemma polling_single:
  assumes "polling env wb r es" "interleaved (answered env spec) s es s'" "recorded es" "in_step ns wb s"
  shows "single ns s'"
  using assms(1)
proof cases
  case (deploying tags etag es1)
  obtain s1 where s1: "interleaved (answered env spec) s [EvPoll (URL (Registry (Spec wb))) (LastETag (Status wb)) tags None] s1"
    "interleaved (answered env spec) s1 es1 s'"
    using interleaved_append [of "answered env spec" s "[EvPoll (URL (Registry (Spec wb))) (LastETag (Status wb)) tags None]" es1 s']
      assms(2) deploying(1) by auto
  have "in_step ns (polled wb etag) s1"
    using in_step_neutral [OF s1(1) _ assms(4)] by (simp add: in_step_def)
  then show ?thesis
    using handling_single [OF deploying(4) s1(2) recorded_Cons [OF assms(3) [unfolded deploying(1)]]] by blast
qed (use in_step_neutral [OF assms(2) _ assms(4)] in
    \<open>auto simp: in_step_def failure_step_def written_def status_frame_def Let_def split: if_splits\<close>)
section \<open>Every run keeps it\<close>

lemma with_finalizer_in_step:
  assumes "with_finalizer env wb wb' es" "interleaved (answered env spec) s es s'" "in_step ns wb s"
  shows "in_step ns wb' s'"
proof (cases "ContainsFinalizer env (Finalizers wb) finalizerName")
  case True
  with assms(1) have "wb' = wb" "es = []" by (simp_all add: with_finalizer_def)
  then show ?thesis using in_step_neutral [OF assms(2) _ assms(3)] by simp
next
  case False
  with assms(1) have es: "es = [EvUpdateBundle (wb\<lparr>Finalizers := AddFinalizer env (Finalizers wb) finalizerName\<rparr>) (Inr wb')]"
    and same: "same_object wb wb'" by (simp_all add: with_finalizer_def)
  obtain s1 s2 where s: "interleaved (answered env spec) s [] s1" "answered env spec (hd es) s1 s2" "interleaved (answered env spec) s2 [] s'"
    using interleaved_Cons [OF assms(2) [unfolded es]] es by auto
  have "in_step ns wb s1" by (rule in_step_neutral [OF s(1) _ assms(3)]) simp
  with s(2) same have "in_step ns wb' s2" by (auto simp: es in_step_def same_object_keys)
  then show ?thesis using in_step_neutral [OF s(3)] by simp
qed

lemma with_target_in_step:
  assumes "with_target wb wb' es" "interleaved (answered env spec) s es s'" "in_step ns wb s"
  shows "in_step ns wb' s'"
proof -
  have "list_all (neutral (ActiveJobName (Status wb))) es" "ActiveJobName (Status wb') = ActiveJobName (Status wb)"
    "target_of wb' = target_of wb"
    using assms(1) by (auto simp: with_target_def set_target_def same_object_keys split: if_splits)
  then show ?thesis using in_step_neutral [OF assms(2) _ assms(3)] by (simp add: in_step_def)
qed

lemma preflight_in_step:
  assumes "preflight env wb x es" "interleaved (answered env spec) s es s'" "in_step ns wb s"
  shows "single ns s' \<and> (\<forall>wb'. x = Inr wb' \<longrightarrow> in_step ns wb' s')"
proof -
  have finish: "in_step ns wb' s'" if "in_step ns wb' t" "interleaved (answered env spec) t es' s'"
      "list_all (neutral (ActiveJobName (Status wb'))) es'" for wb' t es'
    by (rule in_step_neutral [OF that(2,3,1)])
  have fin: "\<exists>s1. in_step ns wb1 s1 \<and> interleaved (answered env spec) s1 es2 s'"
    if "with_finalizer env wb wb1 es1" "es = es1 @ es2" for wb1 es1 es2
    using interleaved_append [of "answered env spec" s es1 es2 s'] assms(2) with_finalizer_in_step [OF that(1) _ assms(3)]
    by (auto simp: that(2))
  have tgt: "\<exists>s2. in_step ns wb2 s2 \<and> interleaved (answered env spec) s2 es3 s'"
    if "with_finalizer env wb wb1 es1" "with_target wb1 wb2 es2" "es = es1 @ es2 @ es3" for wb1 wb2 es1 es2 es3
    using fin [OF that(1,3)] interleaved_append [of "answered env spec" _ es2 es3 s'] with_target_in_step [OF that(2)] by blast
  from assms(1) show ?thesis
  proof cases
    case (no_finalizer e)
    then show ?thesis using finish [OF assms(3,2)] by (simp add: in_step_def)
  next
    case (forbidden wb1 es1 e st u)
    from fin [OF forbidden(3,2)] obtain s1 where s1: "in_step ns wb1 s1"
      "interleaved (answered env spec) s1 [EvUpdateStatus (wb1\<lparr>Status := st\<rparr>) u] s'" by blast
    then show ?thesis using finish [OF s1] forbidden by (simp add: in_step_def written_def status_frame_def)
  next
    case (no_target wb1 es1 e)
    from fin [OF no_target(3,2)] obtain s1 where s1: "in_step ns wb1 s1"
      "interleaved (answered env spec) s1 [EvUpdateStatus (set_target wb1) (Some e)] s'" by blast
    then show ?thesis using finish [OF s1] no_target by (simp add: in_step_def set_target_def)
  next
    case (no_account wb1 es1 wb2 es2 st e u)
    from tgt [OF no_account(3,5,2)] obtain s2 where s2: "in_step ns wb2 s2"
      "interleaved (answered env spec) s2 [EvGetServiceAccount (account_key wb2) (Some e), EvUpdateStatus (wb2\<lparr>Status := st\<rparr>) u] s'"
      by blast
    then show ?thesis using finish [OF s2] no_account by (simp add: in_step_def written_def status_frame_def)
  next
    case (passed wb1 es1 wb2 es2 es3)
    from tgt [OF passed(3,5,2)] obtain s2 where s2: "in_step ns wb2 s2" "interleaved (answered env spec) s2 es3 s'" by blast
    then show ?thesis using finish [OF s2] passed by (auto simp: in_step_def with_account_def split: if_splits)
  qed
qed

lemma reconciling_single:
  assumes "reconciling env req r es" "interleaved (answered env spec) s es s'" "recorded es" "single ns s"
    and ns: "ns = GetTargetNamespace (Converge spec) (NNamespace req)"
  shows "single ns s'"
proof -
  have fetched: "\<exists>s1. in_step ns wb s1 \<and> interleaved (answered env spec) s1 es1 s'"
    if es: "es = EvGetBundle req (Inr wb) # es1" and wb: "Namespace wb = NNamespace req" for wb es1
  proof -
    obtain s1 s2 where s: "interleaved (answered env spec) s [] s1" "answered env spec (EvGetBundle req (Inr wb)) s1 s2"
      "interleaved (answered env spec) s2 es1 s'"
      using interleaved_Cons [OF assms(2) [unfolded es]] by blast
    have "single ns s1" using single_neutral [OF s(1) _ refl assms(4)] by simp
    with s(2,3) wb show ?thesis by (auto simp: in_step_def ns target_of_def)
  qed
  from assms(1) show ?thesis
  proof cases
    case (stopped wb es1)
    with fetched obtain s1 where "in_step ns wb s1" "interleaved (answered env spec) s1 es1 s'" by blast
    then show ?thesis using preflight_in_step [OF stopped(5)] by blast
  next
    case (ran wb wb' es1 es2)
    with fetched obtain s1 where s1: "in_step ns wb s1" "interleaved (answered env spec) s1 (es1 @ es2) s'" by blast
    then obtain s2 where s2: "interleaved (answered env spec) s1 es1 s2" "interleaved (answered env spec) s2 es2 s'"
      using interleaved_append by blast
    have "in_step ns wb' s2" using preflight_in_step [OF ran(5) s2(1) s1(1)] by blast
    moreover have "recorded es2" using recorded_append [of "EvGetBundle req (Inr wb) # es1" es2] assms(3) ran(1) by simp
    ultimately show ?thesis using polling_single [OF ran(6) s2(2)] by blast
  qed (use single_neutral [OF assms(2) _ refl assms(4)] in auto)
qed

text \<open>A stale run creates no job: a job needs a claim that the API server accepted.\<close>

lemma stale_updates_refused:
  "interleaved (stale_answered env spec) s es s' \<Longrightarrow> EvUpdateStatus b None \<notin> set es"
  by (induction rule: interleaved.induct) auto

lemma stale_no_job:
  assumes "reconciling env req r es" "interleaved (stale_answered env spec) s es s'" "ev \<in> set es"
  shows "\<not> accepted_job ev"
proof
  assume "accepted_job ev"
  then obtain j where "ev = EvCreateJob j None" by (cases ev) auto
  then obtain pre post where es: "es = pre @ EvCreateJob j None # post" using assms(3) by (meson split_list)
  from reconciling_safe [OF assms(1)] have "justified env req pre j" by (simp add: safe_creates_def es)
  then obtain b where "EvUpdateStatus b None \<in> set es" by (auto simp: justified_def es)
  with stale_updates_refused [OF assms(2)] show False by blast
qed

lemma stale_pending:
  "interleaved (stale_answered env spec) s es s' \<Longrightarrow> \<forall>ev \<in> set es. \<not> accepted_job ev \<Longrightarrow> pending k s \<Longrightarrow>
   saved s' = saved s \<and> pending k s'"
proof (induction rule: interleaved.induct)
  case (call ev s s1 es s')
  then have "s1 = s" by (cases ev) auto
  with call show ?case by simp
next
  case (step s s1 es s')
  then show ?case by (simp add: cluster_step_saved cluster_step_pending)
qed simp

lemma stale_single:
  assumes "reconciling env req r es" "interleaved (stale_answered env spec) s es s'" "single ns s"
  shows "single ns s'"
  using stale_pending [OF assms(2) _ assms(3) [unfolded single_pending]] stale_no_job [OF assms(1,2)]
  by (auto simp: single_pending)

lemma reachable_single:
  assumes "reachable env req spec s0 s" "server_keeps env"
    and ns: "ns = GetTargetNamespace (Converge spec) (NNamespace req)" and "single ns s0"
  shows "single ns s"
  using assms(1)
proof (induction rule: reachable.induct)
  case (run s w r w' es s')
  have "reconciling env req r es"
    using emits_run [OF Reconcile_refinement [OF assms(2)] run(2)] run(3) by auto
  from reconciling_single [OF this run(5,4) run.IH ns] show ?case .
next
  case (stale s w r w' es s')
  have "reconciling env req r es"
    using emits_run [OF Reconcile_refinement [OF assms(2)] stale(2)] stale(3) by auto
  from stale_single [OF this stale(4) stale.IH] show ?case .
qed (rule assms(4))

lemma single_at_most_one:
  assumes "single ns s"
  shows "length (filter unfinished (live s)) \<le> 1"
proof -
  let ?u = "filter unfinished (live s)"
  have "distinct (map job_key ?u)" using assms by (auto simp: single_def intro: distinct_map_filter)
  moreover have "job_key j = key (ActiveJobName (saved s)) ns" if "j \<in> set ?u" for j
    using assms that by (auto simp: single_def)
  then have "set (map job_key ?u) \<subseteq> {key (ActiveJobName (saved s)) ns}" by auto
  ultimately show ?thesis
    by (metis card.empty card_insert_if distinct_card empty_iff finite.emptyI finite_insert card_mono length_map
        One_nat_def)
qed

end
