(* ===== verification/Ctl_Runs.thy ===== *)
theory Ctl_Runs
  imports Ctl_Progress Ctl_System
begin

text \<open>
  Runs in a row for one bundle, each from the status that the ones before have saved. Two
  registries are compared. One that answers every poll with its tags brings the bundle to
  Synced within three runs that are not hindered. One that answers an ETag that it has sent
  with "not modified" leaves a bundle that has just got its job in phase Syncing for good.
\<close>

section \<open>Rows of runs\<close>

text \<open>The status in the API server after the accepted updates of a run.\<close>

fun store_event :: "event \<Rightarrow> WerfBundleStatus \<Rightarrow> WerfBundleStatus" where
  "store_event (EvUpdateStatus b u) st = (if u = None then Status b else st)"
| "store_event _ st = st"

definition saved_after :: "event list \<Rightarrow> WerfBundleStatus \<Rightarrow> WerfBundleStatus" where
  "saved_after es st = fold store_event es st"

lemma saved_after_simps [simp]:
  "saved_after [] st = st" "saved_after (ev # es) st = saved_after es (store_event ev st)"
  "saved_after (es @ es') st = saved_after es' (saved_after es st)"
  by (simp_all add: saved_after_def)

text \<open>One run on a bundle with the operator's finalizer that is not being deleted. The spec is
  the one at its time; the trace may grow in between.\<close>

definition one_run :: "'k Env \<Rightarrow> NamespacedName \<Rightarrow> WerfBundleStatus \<Rightarrow> event list \<Rightarrow> WerfBundleStatus \<Rightarrow> bool" where
  "one_run env req st es st' \<longleftrightarrow>
     (\<exists>w r w' wb. run_state (Reconcile env req) w = (r, w') \<and> trace w' = trace w @ EvGetBundle req (Inr wb) # es \<and>
        DeletionTimestamp wb = None \<and> ContainsFinalizer env (Finalizers wb) finalizerName \<and> Status wb = st \<and>
        st' = saved_after es st)"

lemma one_run_reconciling:
  assumes "server_keeps env" "one_run env req st es st'"
  shows "\<exists>r wb. reconciling env req r (EvGetBundle req (Inr wb) # es) \<and> DeletionTimestamp wb = None \<and>
    ContainsFinalizer env (Finalizers wb) finalizerName \<and> Status wb = st \<and> st' = saved_after es st"
  using assms(2) emits_run [OF Reconcile_refinement [OF assms(1)]] unfolding one_run_def by fastforce

text \<open>\<open>polls es\<close>: the bundle passed the validations and the registry was asked.\<close>

definition polls :: "event list \<Rightarrow> bool" where
  "polls es \<longleftrightarrow> (\<exists>url etag tags e. EvPoll url etag tags e \<in> set es)"

lemma preflight_saved:
  assumes "preflight env wb (Inr wb') es" "ContainsFinalizer env (Finalizers wb) finalizerName"
  shows "saved_after es (Status wb) = Status wb' \<and> (\<exists>t. Status wb' = (Status wb)\<lparr>ResolvedTargetNamespace := t\<rparr>)"
proof (rule conjI [OF _ preflight_status [OF assms]])
  show "saved_after es (Status wb) = Status wb'"
    using assms(1)
  proof cases
    case (passed wb1 es1 es2 es3)
    then have "wb1 = wb" "es1 = []" using assms(2) by (simp_all add: with_finalizer_def)
    with passed show ?thesis by (auto simp: with_target_def with_account_def split: if_splits)
  qed
qed

lemma polling_run:
  assumes "server_keeps env" "one_run env req st es st'" "polls es"
  shows "\<exists>r wb es1 es2. polling env wb r es2 \<and> es = es1 @ es2 \<and> list_all setup_event es1 \<and> inner es1 \<and>
    (\<exists>t. Status wb = st\<lparr>ResolvedTargetNamespace := t\<rparr>) \<and> st' = saved_after es2 (Status wb)"
proof -
  obtain r wb where run: "reconciling env req r (EvGetBundle req (Inr wb) # es)"
    and wb: "ContainsFinalizer env (Finalizers wb) finalizerName" "Status wb = st" "st' = saved_after es st"
    "DeletionTimestamp wb = None"
    using one_run_reconciling [OF assms(1,2)] by blast
  from run show ?thesis
  proof cases
    case stopped
    then show ?thesis using assms(3) preflight_inner by (fastforce simp: polls_def inner_def filter_empty_conv)
  next
    case (ran wb' es1 es2)
    note pre = preflight_saved [OF ran(5) wb(1)]
    have "list_all setup_event es1" "inner es1" using preflight_setup [OF ran(5)] preflight_inner [OF ran(5)] by auto
    with pre ran wb show ?thesis by (intro exI [of _ r] exI [of _ wb'] exI [of _ es1] exI [of _ es2]) auto
  qed (use assms(3) wb in \<open>auto simp: polls_def\<close>)
qed

section \<open>A registry that says "not modified"\<close>

text \<open>The registry keeps its tags, under one ETag, and answers that ETag with 304.\<close>

definition unchanged_registry :: "'k Env \<Rightarrow> string \<Rightarrow> string list \<Rightarrow> bool" where
  "unchanged_registry env current tags \<longleftrightarrow>
     (\<forall>url auth etag k. if etag = current
        then \<exists>ts t e. fst (RegistryListTags env url auth etag k) = (ts, t, Some e) \<and> errors_As_NotModified e
        else fst (RegistryListTags env url auth etag k) = (tags, current, None))"

lemma unchanged_answer:
  assumes "unchanged_registry env current tags" "poll_answer env wb ts t e"
  shows "if LastETag (Status wb) = current then \<exists>e'. e = Some e' \<and> errors_As_NotModified e'
    else ts = tags \<and> t = current \<and> e = None"
proof -
  obtain k k' where a: "RegistryListTags env (URL (Registry (Spec wb))) None (LastETag (Status wb)) k = ((ts, t, e), k')"
    using assms(2) unfolding poll_answer_def by blast
  have "if LastETag (Status wb) = current
        then \<exists>ts' t' e'. fst (RegistryListTags env (URL (Registry (Spec wb))) None (LastETag (Status wb)) k) = (ts', t', Some e') \<and> errors_As_NotModified e'
        else fst (RegistryListTags env (URL (Registry (Spec wb))) None (LastETag (Status wb)) k) = (tags, current, None)"
    using assms(1) unfolding unchanged_registry_def by blast
  then show ?thesis using a by (auto split: if_splits)
qed

lemma polling_not_modified:
  assumes "polling env wb r es" "unchanged_registry env (LastETag (Status wb)) tags"
  shows "\<exists>ev. es = [ev] \<and> is_poll ev \<and> jittered env (poll_interval env wb) r"
  using assms(1) by cases (use unchanged_answer [OF assms(2)] in fastforce)+

lemma one_run_not_modified:
  assumes "server_keeps env" "one_run env req st es st'" "polls es" "unchanged_registry env (LastETag st) tags"
  shows "(\<exists>t. st' = st\<lparr>ResolvedTargetNamespace := t\<rparr>) \<and> (\<forall>k x. EvGetJob k x \<notin> set es)"
proof -
  obtain r wb es1 es2 t where p: "polling env wb r es2" "es = es1 @ es2" "list_all setup_event es1"
    "Status wb = st\<lparr>ResolvedTargetNamespace := t\<rparr>" "st' = saved_after es2 (Status wb)"
    using polling_run [OF assms(1-3)] by blast
  obtain ev where "es2 = [ev]" "is_poll ev"
    using polling_not_modified [OF p(1), of tags] assms(4) p(4) by auto
  with p setup_no_get_job [OF p(3)] show ?thesis by (cases ev) auto
qed

inductive polling_runs :: "'k Env \<Rightarrow> NamespacedName \<Rightarrow> WerfBundleStatus \<Rightarrow> nat \<Rightarrow> WerfBundleStatus \<Rightarrow> bool"
  for env :: "'k Env" and req :: NamespacedName and st0 :: WerfBundleStatus
where
  none: "polling_runs env req st0 0 st0"
| more: "polling_runs env req st0 n st \<Longrightarrow> one_run env req st es st' \<Longrightarrow> polls es \<Longrightarrow> polling_runs env req st0 (Suc n) st'"

lemma polling_runs_not_modified:
  assumes "server_keeps env" "unchanged_registry env (LastETag st0) tags"
  shows "polling_runs env req st0 n st \<Longrightarrow> \<exists>t. st = st0\<lparr>ResolvedTargetNamespace := t\<rparr>"
proof (induction rule: polling_runs.induct)
  case none
  then show ?case by (intro exI [of _ "ResolvedTargetNamespace st0"]) simp
next
  case (more n st es st')
  then obtain t where st: "st = st0\<lparr>ResolvedTargetNamespace := t\<rparr>" by blast
  then have "unchanged_registry env (LastETag st) tags" using assms(2) by simp
  from one_run_not_modified [OF assms(1) more.hyps(2,3) this] st show ?case by auto
qed

section \<open>A registry that answers every poll\<close>

text \<open>
  A run is hindered when a status update is refused, the recorded job cannot be read, or that
  job still runs. What happens in between to jobs and API server is left open.
\<close>

fun hinders :: "'k Env \<Rightarrow> event \<Rightarrow> bool" where
  "hinders env (EvUpdateStatus b u) = (u \<noteq> None)"
| "hinders env (EvGetJob k (Inl e)) = (\<not> IsNotFound env e)"
| "hinders env (EvGetJob k (Inr j)) = unfinished j"
| "hinders env _ = False"

definition unhindered :: "'k Env \<Rightarrow> string \<Rightarrow> event list \<Rightarrow> bool" where
  "unhindered env tag es \<longleftrightarrow> (\<forall>ev \<in> set es. \<not> hinders env ev) \<and>
     (\<exists>url etag tags. EvPoll url etag tags None \<in> set es \<and> tags \<noteq> [] \<and> last tags = tag)"

inductive unhindered_runs :: "'k Env \<Rightarrow> NamespacedName \<Rightarrow> string \<Rightarrow> WerfBundleStatus \<Rightarrow> nat \<Rightarrow> WerfBundleStatus \<Rightarrow> bool"
  for env :: "'k Env" and req :: NamespacedName and tag :: string and st0 :: WerfBundleStatus
where
  none: "unhindered_runs env req tag st0 0 st0"
| more: "unhindered_runs env req tag st0 n st \<Longrightarrow> one_run env req st es st' \<Longrightarrow> unhindered env tag es \<Longrightarrow>
    unhindered_runs env req tag st0 (Suc n) st'"

text \<open>How many unhindered runs a status is away from Synced.\<close>

definition distance :: "string \<Rightarrow> WerfBundleStatus \<Rightarrow> nat" where
  "distance tag st =
     (if LastAppliedTag st = tag then (if Phase st = PhaseSynced then 0 else 1)
      else if ActiveJobName st = '''' then 2 else 3)"

lemma creation_distance:
  assumes "creation env wb tag r es" "\<forall>ev \<in> set es. \<not> hinders env ev" "tag \<noteq> ''''"
  shows "distance tag (saved_after es st) \<le> 1"
proof -
  have reads: "saved_after es st = st" if "list_all (reads_of wb) es" for es st
    using that
  proof (induction es arbitrary: st)
    case (Cons ev es)
    then show ?case by (cases ev) (auto simp: reads_of_def)
  qed simp
  show ?thesis using assms by cases (auto simp: reads distance_def claimed_def)
qed

lemma monitoring_distance:
  assumes "monitoring wb job tag r es" "\<forall>ev \<in> set es. \<not> hinders env ev" "\<not> unfinished job"
  shows "distance tag (saved_after es st) \<le> 2"
proof -
  have logs: "saved_after es st = st" if "list_all (log_event wb job) es" for es st
    using that
  proof (induction es arbitrary: st)
    case (Cons ev es)
    then show ?case by (cases ev) auto
  qed simp
  show ?thesis using assms
    by cases (auto simp: logs distance_def finished_status_def unfinished_def)
qed

lemma handling_distance:
  assumes "handling env wb tag r es" "\<forall>ev \<in> set es. \<not> hinders env ev" "tag \<noteq> ''''"
    "LastAppliedTag (Status wb) \<noteq> tag"
  shows "distance tag (saved_after es st) < distance tag (Status wb)"
  using assms(1)
proof cases
  case idle
  then have "distance tag (Status wb) = 2" using assms(4) by (simp add: distance_def)
  with creation_distance [OF idle(2) assms(2,3), of st] show ?thesis by simp
next
  case (lost e es')
  then have "\<forall>ev \<in> set es'. \<not> hinders env ev" "distance tag (Status wb) = 3"
    using assms(2,4) by (simp_all add: distance_def)
  with creation_distance [OF lost(4) _ assms(3), of st] lost(1) show ?thesis by simp
next
  case (active job es')
  then have "\<forall>ev \<in> set es'. \<not> hinders env ev" "\<not> unfinished job" "distance tag (Status wb) = 3"
    using assms(2,4) by (auto simp: distance_def)
  with monitoring_distance [OF active(5), of env st] active(1) show ?thesis by simp
qed (use assms(2) in auto)

lemma polling_distance:
  assumes "polling env wb r es" "\<forall>ev \<in> set es. \<not> hinders env ev" "EvPoll url etag tags None \<in> set es"
    "tags \<noteq> []" "last tags = tag" "tag \<noteq> ''''"
  shows "distance tag (saved_after es (Status wb)) \<le> distance tag (Status wb) - 1"
  using assms(1)
proof cases
  case (deploying tags' etag' es')
  have "filter is_poll es' = []" using handling_inner [OF deploying(4)] by (simp add: inner_def)
  then have tag: "last tags' = tag" using assms(3,5) deploying(1) by (auto simp: filter_empty_conv)
  have "ActiveJobName (Status (polled wb etag')) = ActiveJobName (Status wb)" by (simp add: polled_def Let_def)
  then have "distance tag (Status (polled wb etag')) = distance tag (Status wb)" by (simp add: distance_def)
  moreover have "\<forall>ev \<in> set es'. \<not> hinders env ev" using assms(2) deploying(1) by simp
  moreover have "LastAppliedTag (Status (polled wb etag')) \<noteq> last tags'" using deploying(3) by simp
  ultimately have "distance tag (saved_after es' (Status wb)) < distance tag (Status wb)"
    using handling_distance [OF deploying(4)] tag assms(6) by metis
  then show ?thesis using deploying(1) by simp
qed (use assms in \<open>auto simp: distance_def written_def\<close>)

lemma one_run_distance:
  assumes "server_keeps env" "one_run env req st es st'" "unhindered env tag es" "tag \<noteq> ''''"
  shows "distance tag st' \<le> distance tag st - 1"
proof -
  obtain url etag tags where poll: "EvPoll url etag tags None \<in> set es" "tags \<noteq> []" "last tags = tag"
    and free: "\<forall>ev \<in> set es. \<not> hinders env ev"
    using assms(3) unfolding unhindered_def by blast
  then have "polls es" unfolding polls_def by blast
  from polling_run [OF assms(1,2) this] obtain r wb es1 es2 t where p: "polling env wb r es2" "es = es1 @ es2"
    "inner es1" "Status wb = st\<lparr>ResolvedTargetNamespace := t\<rparr>" "st' = saved_after es2 (Status wb)" by blast
  have "EvPoll url etag tags None \<in> set es2" using poll(1) p(2,3) by (auto simp: inner_def filter_empty_conv)
  from polling_distance [OF p(1) _ this poll(2,3) assms(4)] free p
  have "distance tag st' \<le> distance tag (Status wb) - 1" by simp
  moreover have "distance tag (Status wb) = distance tag st" by (simp add: p(4) distance_def)
  ultimately show ?thesis by simp
qed

lemma unhindered_runs_distance:
  assumes "server_keeps env" "tag \<noteq> ''''"
  shows "unhindered_runs env req tag st0 n st \<Longrightarrow> distance tag st \<le> distance tag st0 - n"
proof (induction rule: unhindered_runs.induct)
  case (more n st es st')
  then show ?case using one_run_distance [OF assms(1) more.hyps(2,3) assms(2)] by simp
qed simp

lemma distance_bound: "distance tag st \<le> 3"
  by (simp add: distance_def)

lemma distance_0: "distance tag st = 0 \<longleftrightarrow> LastAppliedTag st = tag \<and> Phase st = PhaseSynced"
  by (simp add: distance_def)

end
