(* ===== verification/Op_Manager.thy ===== *)
theory Op_Manager
  imports Job_Builder
begin

text \<open>
  The start of the operator: \<open>cmd/main.go\<close> and \<open>SetupWithManager\<close> of the controller. Of the
  standard library's \<open>flag\<close> only the variables and their defaults are modelled: the zap
  library registers flags of its own, so the command line is not known from the source. The
  constructors and methods of controller-runtime and client-go are the fields of a record
  \<open>Runtime\<close>; a trace keeps which were called and how they answered.
\<close>

section \<open>Options\<close>

record Flags =
  metricsAddr :: string
  metricsCertPath :: string
  metricsCertName :: string
  metricsCertKey :: string
  webhookCertPath :: string
  webhookCertName :: string
  webhookCertKey :: string
  enableLeaderElection :: bool
  probeAddr :: string
  secureMetrics :: bool
  enableHTTP2 :: bool

definition default_flags :: Flags where
  "default_flags = \<lparr>metricsAddr = ''0'', metricsCertPath = '''', metricsCertName = ''tls.crt'',
     metricsCertKey = ''tls.key'', webhookCertPath = '''', webhookCertName = ''tls.crt'', webhookCertKey = ''tls.key'',
     enableLeaderElection = False, probeAddr = '':8081'', secureMetrics = True, enableHTTP2 = False\<rparr>"

text \<open>The part of a \<open>tls.Config\<close> that the operator sets.\<close>

record TLSConfig =
  NextProtos :: "string list"

definition disableHTTP2 :: "TLSConfig \<Rightarrow> TLSConfig" where
  "disableHTTP2 c = c\<lparr>NextProtos := [''http/1.1'']\<rparr>"

definition tls_options :: "Flags \<Rightarrow> (TLSConfig \<Rightarrow> TLSConfig) list" where
  "tls_options flags = (if \<not> enableHTTP2 flags then [] @ [disableHTTP2] else [])"

record ServerOptions =
  BindAddress :: string
  SecureServing :: bool
  TLSOpts :: "(TLSConfig \<Rightarrow> TLSConfig) list"
  Authenticated :: bool
  CertDir :: string
  CertName :: string
  KeyName :: string

text \<open>Options whose remaining fields have their zero values.\<close>

definition server_options :: "string \<Rightarrow> bool \<Rightarrow> (TLSConfig \<Rightarrow> TLSConfig) list \<Rightarrow> ServerOptions" where
  "server_options addr secure opts = \<lparr>BindAddress = addr, SecureServing = secure, TLSOpts = opts, Authenticated = False,
     CertDir = '''', CertName = '''', KeyName = ''''\<rparr>"

definition webhook_options :: "Flags \<Rightarrow> ServerOptions" where
  "webhook_options flags =
     (let options = server_options '''' False (tls_options flags)
      in if 0 < length (webhookCertPath flags) then
           options\<lparr>CertDir := webhookCertPath flags, CertName := webhookCertName flags, KeyName := webhookCertKey flags\<rparr>
         else options)"

definition metrics_options :: "Flags \<Rightarrow> ServerOptions" where
  "metrics_options flags =
     (let options = server_options (metricsAddr flags) (secureMetrics flags) (tls_options flags);
          options = (if secureMetrics flags then options\<lparr>Authenticated := True\<rparr> else options)
      in if 0 < length (metricsCertPath flags) then
           options\<lparr>CertDir := metricsCertPath flags, CertName := metricsCertName flags, KeyName := metricsCertKey flags\<rparr>
         else options)"

record ManagerOptions =
  Metrics :: ServerOptions
  Webhook :: ServerOptions
  HealthProbeBindAddress :: string
  LeaderElection :: bool
  LeaderElectionID :: string

definition manager_options :: "Flags \<Rightarrow> ManagerOptions" where
  "manager_options flags = \<lparr>Metrics = metrics_options flags, Webhook = webhook_options flags,
     HealthProbeBindAddress = probeAddr flags, LeaderElection = enableLeaderElection flags,
     LeaderElectionID = ''247e2318.werf.io''\<rparr>"

lemma manager_options_simps:
  "TLSOpts (Metrics (manager_options flags)) = tls_options flags"
  "TLSOpts (Webhook (manager_options flags)) = tls_options flags"
  "Authenticated (Metrics (manager_options flags)) = secureMetrics flags"
  "SecureServing (Metrics (manager_options flags)) = secureMetrics flags"
  by (simp_all add: manager_options_def metrics_options_def webhook_options_def server_options_def Let_def)

lemma tls_options_protocols:
  "NextProtos (fold (\<lambda>f c. f c) (tls_options flags) c) = (if enableHTTP2 flags then NextProtos c else [''http/1.1''])"
  by (simp add: tls_options_def disableHTTP2_def)

section \<open>The runtime\<close>

text \<open>What \<open>NewControllerManagedBy\<close> is given: the kinds it watches, the event filter.\<close>

datatype EventFilter = GenerationChangedPredicate

record 'c Registration =
  For :: string
  Owns :: "string list"
  WithEventFilter :: "EventFilter list"
  CompletedClientset :: 'c

datatype 'c boot_event =
    NewManagerCalled ManagerOptions "err option"
  | NewForConfigCalled "err + 'c"
  | CompleteCalled "'c Registration" "err option"
  | AddHealthzCheckCalled string "err option"
  | AddReadyzCheckCalled string "err option"
  | StartCalled "err option"

record ('k, 'c) Runtime =
  NewManager :: "ManagerOptions \<Rightarrow> 'k \<Rightarrow> err option \<times> 'k"
  NewForConfig :: "'k \<Rightarrow> (err + 'c) \<times> 'k"
  Complete :: "'c Registration \<Rightarrow> 'k \<Rightarrow> err option \<times> 'k"
  AddHealthzCheck :: "string \<Rightarrow> 'k \<Rightarrow> err option \<times> 'k"
  AddReadyzCheck :: "string \<Rightarrow> 'k \<Rightarrow> err option \<times> 'k"
  Start :: "'k \<Rightarrow> err option \<times> 'k"

type_synonym ('k, 'c) booting = "'k \<times> 'c boot_event list"

definition boot_call :: "('k \<Rightarrow> 'a \<times> 'k) \<Rightarrow> ('a \<Rightarrow> 'c boot_event) \<Rightarrow> (('k, 'c) booting, 'a) state" where
  "boot_call f ev = State (\<lambda>(k, es). case f k of (a, k') \<Rightarrow> (a, (k', es @ [ev a])))"

text \<open>The reconciler by its field \<open>Clientset\<close>, which is nil before \<open>main\<close> or \<open>SetupWithManager\<close> sets it.\<close>

definition SetupWithManager :: "('k, 'c) Runtime \<Rightarrow> 'c option \<Rightarrow> (('k, 'c) booting, err option) state" where
  "SetupWithManager rt r_Clientset =
     do {
       c \<leftarrow> (case r_Clientset of
               None \<Rightarrow> do {
                 c \<leftarrow> boot_call (NewForConfig rt) NewForConfigCalled;
                 State_Monad.return (case c of
                   Inl e \<Rightarrow> Inl (WrapError ''failed to create Kubernetes clientset: '' e)
                 | Inr c \<Rightarrow> Inr c)
               }
             | Some c \<Rightarrow> State_Monad.return (Inr c));
       case c of
         Inl e \<Rightarrow> State_Monad.return (Some e)
       | Inr c \<Rightarrow>
           (let reg = \<lparr>For = ''WerfBundle'', Owns = [''Job''], WithEventFilter = [GenerationChangedPredicate],
                  CompletedClientset = c\<rparr>
            in boot_call (Complete rt reg) (CompleteCalled reg))
     }"

text \<open>\<open>main\<close> returns the exit code of the process.\<close>

definition main :: "('k, 'c) Runtime \<Rightarrow> Flags \<Rightarrow> (('k, 'c) booting, int) state" where
  "main rt flags =
     do {
       e \<leftarrow> boot_call (NewManager rt (manager_options flags)) (NewManagerCalled (manager_options flags));
       if e \<noteq> None then State_Monad.return 1 else do {
         c \<leftarrow> boot_call (NewForConfig rt) NewForConfigCalled;
         case c of
           Inl e \<Rightarrow> State_Monad.return 1
         | Inr clientset \<Rightarrow> do {
             e \<leftarrow> SetupWithManager rt (Some clientset);
             if e \<noteq> None then State_Monad.return 1 else do {
               e \<leftarrow> boot_call (AddHealthzCheck rt ''healthz'') (AddHealthzCheckCalled ''healthz'');
               if e \<noteq> None then State_Monad.return 1 else do {
                 e \<leftarrow> boot_call (AddReadyzCheck rt ''readyz'') (AddReadyzCheckCalled ''readyz'');
                 if e \<noteq> None then State_Monad.return 1 else do {
                   e \<leftarrow> boot_call (Start rt) StartCalled;
                   State_Monad.return (if e \<noteq> None then 1 else 0)
                 }
               }
             }
           }
       }
     }"

section \<open>The order of the start\<close>

lemma wp_boot_call [wp_simps]:
  "wp (boot_call f ev) Q (k, es) = (case f k of (a, k') \<Rightarrow> Q a (k', es @ [ev a]))"
  by (simp add: boot_call_def wp_def split: prod.splits)

fun accepted :: "'c boot_event \<Rightarrow> bool" where
  "accepted (NewManagerCalled opts e) = (e = None)"
| "accepted (NewForConfigCalled c) = (\<exists>x. c = Inr x)"
| "accepted (CompleteCalled reg e) = (e = None)"
| "accepted (AddHealthzCheckCalled n e) = (e = None)"
| "accepted (AddReadyzCheckCalled n e) = (e = None)"
| "accepted (StartCalled e) = (e = None)"

text \<open>The calls of a start in their order, each with its answer.\<close>

fun boot_step :: "'c boot_event \<Rightarrow> nat" where
  "boot_step (NewManagerCalled opts e) = 0"
| "boot_step (NewForConfigCalled c) = 1"
| "boot_step (CompleteCalled reg e) = 2"
| "boot_step (AddHealthzCheckCalled n e) = 3"
| "boot_step (AddReadyzCheckCalled n e) = 4"
| "boot_step (StartCalled e) = 5"

definition boot_log :: "Flags \<Rightarrow> int \<Rightarrow> 'c boot_event list \<Rightarrow> bool" where
  "boot_log flags code es \<longleftrightarrow> es \<noteq> [] \<and> map boot_step es = [0..<length es] \<and>
     (\<forall>ev \<in> set (butlast es). accepted ev) \<and>
     code = (if accepted (last es) then 0 else 1) \<and> (accepted (last es) \<longrightarrow> length es = 6) \<and>
     (\<forall>opts e. NewManagerCalled opts e \<in> set es \<longrightarrow> opts = manager_options flags) \<and>
     (\<forall>reg e. CompleteCalled reg e \<in> set es \<longrightarrow> NewForConfigCalled (Inr (CompletedClientset reg)) \<in> set es)"

lemma main_log: "wp (main rt flags) (\<lambda>code (k', es). boot_log flags code es) (k, [])"
  unfolding main_def SetupWithManager_def Let_def
  by (simp add: wp_simps split: prod.split sum.split option.split) (simp add: boot_log_def upt_rec)

text \<open>The clientset of the reconciler is made when it is missing.\<close>

lemma SetupWithManager_clientset:
  "wp (SetupWithManager rt None) (\<lambda>e (k', es). case es of
     [NewForConfigCalled (Inl e')] \<Rightarrow> e = Some (WrapError ''failed to create Kubernetes clientset: '' e')
   | [NewForConfigCalled (Inr c), CompleteCalled reg e'] \<Rightarrow> e = e' \<and> CompletedClientset reg = c
   | _ \<Rightarrow> False) (k, [])"
  unfolding SetupWithManager_def Let_def by (simp add: wp_simps split: prod.split sum.split)

section \<open>What starts a run\<close>

text \<open>
  A change of a watched object, with the generations before and after. Documented behaviour
  of the builder of controller-runtime: \<open>Requests\<close> are the bundles that a registration makes
  it reconcile. An update that leaves the generation alone is dropped by the predicate; a
  change of an owned object concerns only the owner whose reference is that of a controller.
\<close>

datatype change = Created | Updated int int | Deleted

record 'c Watches =
  BundleRequests :: "'c Registration \<Rightarrow> change \<Rightarrow> NamespacedName \<Rightarrow> NamespacedName list"
  JobRequests :: "'c Registration \<Rightarrow> change \<Rightarrow> Job \<Rightarrow> NamespacedName list"

definition builder_laws :: "'c Watches \<Rightarrow> bool" where
  "builder_laws ws \<longleftrightarrow>
     (\<forall>reg g k. GenerationChangedPredicate \<in> set (WithEventFilter reg) \<longrightarrow> BundleRequests ws reg (Updated g g) k = []) \<and>
     (\<forall>reg ch k. For reg = ''WerfBundle'' \<longrightarrow>
        BundleRequests ws reg ch k \<in> {[], [k]} \<and> (\<forall>g g'. ch = Updated g g' \<longrightarrow> g \<noteq> g' \<longrightarrow> BundleRequests ws reg ch k = [k])) \<and>
     (\<forall>reg ch j. (\<forall>ref \<in> set (OwnerReferences j). IsController ref \<noteq> Some True) \<longrightarrow> JobRequests ws reg ch j = [])"

lemma built_not_controlled:
  "built env wb tag (Ret (Inr j)) \<Longrightarrow> \<forall>ref \<in> set (OwnerReferences j). IsController ref \<noteq> Some True"
  by (auto simp: built_def job_for_def)

end
