(* ===== verification/Ctl_Queue.thy ===== *)
theory Ctl_Queue
  imports Ctl_Progress Op_Manager
begin

text \<open>
  The operator with its queue of requests, for one bundle. A state holds the bundle as the API
  server has it and whether a request for it is waiting, now or after a delay. What puts a
  request into the queue is the result of a run or a change that \<open>SetupWithManager\<close> watches.
  The invariant is that a bundle without a waiting request needs none.
\<close>

section \<open>States and steps\<close>

record operator =
  stored :: "WerfBundle option"
  queued :: bool

text \<open>
  The API server's part in one call of a run: reads return what is stored; an accepted update
  of the object keeps its status and its spec; an object whose deletion was requested goes with its
  last finalizer; a status update that returned an error may have been stored.
\<close>

fun stores :: "'k Env \<Rightarrow> event \<Rightarrow> WerfBundle option \<Rightarrow> WerfBundle option \<Rightarrow> bool" where
  "stores env (EvGetBundle k x) o1 o2 \<longleftrightarrow> o2 = o1 \<and>
     (case x of Inr wb \<Rightarrow> o1 = Some wb | Inl e \<Rightarrow> IsNotFound env e \<longrightarrow> o1 = None)"
| "stores env (EvUpdateBundle b x) o1 o2 \<longleftrightarrow>
     (case x of
        Inl e \<Rightarrow> o2 = o1
      | Inr wb \<Rightarrow> (\<exists>ob. o1 = Some ob \<and> same_object ob wb \<and> Status wb = Status ob \<and>
          DeletionTimestamp wb = DeletionTimestamp ob \<and> Finalizers wb = Finalizers b \<and>
          (o2 = Some wb \<or> (DeletionTimestamp ob \<noteq> None \<and> o2 = None))))"
| "stores env (EvUpdateStatus b u) o1 o2 \<longleftrightarrow>
     o2 = map_option (\<lambda>ob. ob\<lparr>Status := Status b\<rparr>) o1 \<or> (u \<noteq> None \<and> o2 = o1)"
| "stores env ev o1 o2 \<longleftrightarrow> o2 = o1"

fun stores_all :: "'k Env \<Rightarrow> event list \<Rightarrow> WerfBundle option \<Rightarrow> WerfBundle option \<Rightarrow> bool" where
  "stores_all env [] o1 o2 \<longleftrightarrow> o2 = o1"
| "stores_all env (ev # es) o1 o2 \<longleftrightarrow> (\<exists>o'. stores env ev o1 o' \<and> stores_all env es o' o2)"

text \<open>
  \<open>Reconcile\<close> drops the error when the report of a missing ServiceAccount is refused. Such
  runs are left out: nothing brings their bundle back.
\<close>

definition reported :: "event list \<Rightarrow> bool" where
  "reported es \<longleftrightarrow> (\<forall>k e b u. EvGetServiceAccount k (Some e) \<in> set es \<longrightarrow> last es = EvUpdateStatus b u \<longrightarrow> u = None)"

inductive operator_step ::
  "'k Env \<Rightarrow> 'c Watches \<Rightarrow> 'c Registration \<Rightarrow> NamespacedName \<Rightarrow> operator \<Rightarrow> operator \<Rightarrow> bool"
  for env :: "'k Env" and ws :: "'c Watches" and reg :: "'c Registration" and req :: NamespacedName
where
  run: "queued s \<Longrightarrow> run_state (Reconcile env req) w = (r, w') \<Longrightarrow> trace w' = trace w @ es \<Longrightarrow> reported es \<Longrightarrow>
    stores_all env es (stored s) x \<Longrightarrow> operator_step env ws reg req s \<lparr>stored = x, queued = requeued r\<rparr>"
| overtaken: "queued s \<Longrightarrow> run_state (Reconcile env req) w = (r, w') \<Longrightarrow> g \<noteq> g' \<Longrightarrow> paced env wb \<Longrightarrow>
    operator_step env ws reg req s
      \<lparr>stored = Some wb, queued = requeued r \<or> req \<in> set (BundleRequests ws reg (Updated g g') req)\<rparr>"
| edited: "stored s = Some wb \<Longrightarrow> g \<noteq> g' \<Longrightarrow> paced env wb' \<Longrightarrow> Status wb' = Status wb \<Longrightarrow>
    operator_step env ws reg req s
      \<lparr>stored = Some wb', queued = queued s \<or> req \<in> set (BundleRequests ws reg (Updated g g') req)\<rparr>"
| job_changed: "built env b tag (Ret (Inr j)) \<Longrightarrow>
    operator_step env ws reg req s (s\<lparr>queued := queued s \<or> req \<in> set (JobRequests ws reg ch j)\<rparr>)"
| removed: "operator_step env ws reg req s (s\<lparr>stored := None\<rparr>)"
| resynced: "operator_step env ws reg req s (s\<lparr>queued := True\<rparr>)"

inductive operator_steps ::
  "'k Env \<Rightarrow> 'c Watches \<Rightarrow> 'c Registration \<Rightarrow> NamespacedName \<Rightarrow> operator \<Rightarrow> operator \<Rightarrow> bool"
  for env :: "'k Env" and ws :: "'c Watches" and reg :: "'c Registration" and req :: NamespacedName and s0 :: operator
where
  start: "operator_steps env ws reg req s0 s0"
| step: "operator_steps env ws reg req s0 s \<Longrightarrow> operator_step env ws reg req s s' \<Longrightarrow> operator_steps env ws reg req s0 s'"

section \<open>The invariant\<close>

text \<open>Nothing is left to do: no bundle, a deletion without the operator's finalizer, or an end phase.\<close>

definition at_rest :: "'k Env \<Rightarrow> WerfBundle option \<Rightarrow> bool" where
  "at_rest env x \<longleftrightarrow> (case x of None \<Rightarrow> True | Some wb \<Rightarrow>
     (DeletionTimestamp wb \<noteq> None \<and> \<not> ContainsFinalizer env (Finalizers wb) finalizerName) \<or>
     Phase (Status wb) = PhaseFailed \<or> Phase (Status wb) = PhaseSynced)"

definition all_paced :: "'k Env \<Rightarrow> WerfBundle option \<Rightarrow> bool" where
  "all_paced env x \<longleftrightarrow> (\<forall>wb. x = Some wb \<longrightarrow> paced env wb)"

definition attended :: "'k Env \<Rightarrow> operator \<Rightarrow> bool" where
  "attended env s \<longleftrightarrow> all_paced env (stored s) \<and> (queued s \<or> at_rest env (stored s))"

text \<open>Documented behaviour of \<open>controllerutil\<close>: a finalizer that was removed is not contained.\<close>

definition finalizer_laws :: "'k Env \<Rightarrow> bool" where
  "finalizer_laws env \<longleftrightarrow> (\<forall>fs f. \<not> ContainsFinalizer env (RemoveFinalizer env fs f) f)"

lemma stores_all_append:
  "stores_all env (es @ es') o1 o3 \<longleftrightarrow> (\<exists>o2. stores_all env es o1 o2 \<and> stores_all env es' o2 o3)"
  by (induction es arbitrary: o1) auto

lemma stores_paced: "stores env ev o1 o2 \<Longrightarrow> all_paced env o1 \<Longrightarrow> all_paced env o2"
  by (cases ev; cases o1) (auto simp: all_paced_def dest: paced_same split: sum.splits)

lemma stores_all_paced: "stores_all env es o1 o2 \<Longrightarrow> all_paced env o1 \<Longrightarrow> all_paced env o2"
  by (induction es arbitrary: o1) (auto dest: stores_paced)

text \<open>A bundle that is not being deleted stays until the end of the run.\<close>

definition alive :: "WerfBundle option \<Rightarrow> bool" where
  "alive x \<longleftrightarrow> (\<exists>wb. x = Some wb \<and> DeletionTimestamp wb = None)"

lemma stores_alive: "stores env ev o1 o2 \<Longrightarrow> alive o1 \<Longrightarrow> alive o2"
  by (cases ev) (auto simp: alive_def split: sum.splits)

lemma stores_all_alive: "stores_all env es o1 o2 \<Longrightarrow> alive o1 \<Longrightarrow> alive o2"
  by (induction es arbitrary: o1) (auto dest: stores_alive)

lemma final_at_rest:
  assumes "final es b u" "es \<noteq> []" "reported es" "stores_all env es o1 o2" "alive o1"
  shows "at_rest env o2"
proof -
  have last: "es = butlast es @ [EvUpdateStatus b u]" using assms(1,2) by (metis append_butlast_last_id final_def)
  have u: "u = None" using assms(1,3) unfolding final_def reported_def by blast
  obtain o' where "stores_all env (butlast es) o1 o'" "stores env (EvUpdateStatus b u) o' o2"
    using assms(4) by (subst (asm) last) (auto simp: stores_all_append)
  moreover from stores_all_alive [OF this(1) assms(5)] obtain ob where "o' = Some ob" unfolding alive_def by blast
  ultimately show ?thesis using assms(1) u by (auto simp: at_rest_def final_def)
qed

lemma preflight_stores:
  assumes "preflight env wb (Inr wb') es" "stores_all env es (Some wb) o2" "DeletionTimestamp wb = None"
  shows "\<exists>ob. o2 = Some ob \<and> Status ob = Status wb' \<and> same_object wb ob"
  using assms(1)
proof cases
  case (passed wb1 es1 es2 es3)
  note assms(2) [unfolded passed(1) stores_all_append]
  then obtain o1 o2' where st: "stores_all env es1 (Some wb) o1" "stores_all env es2 o1 o2'" "stores_all env es3 o2' o2"
    by blast
  have "\<exists>ob. o1 = Some ob \<and> same_object wb ob \<and> Status ob = Status wb1"
    using st(1) passed(2) assms(3) by (auto simp: with_finalizer_def split: if_splits)
  then show ?thesis using st(2,3) passed(4,5)
    by (auto simp: with_target_def with_account_def split: if_splits)
qed

lemma reported_append: "reported (es @ es') \<Longrightarrow> es' \<noteq> [] \<Longrightarrow> reported es'"
  unfolding reported_def by (metis Un_iff last_appendR set_append)

text \<open>A run that asks for no other leaves nothing to do.\<close>

lemma reconciling_at_rest:
  assumes "reconciling env req r es" "\<not> requeued r" "reported es" "stores_all env es o1 o2"
    and "rand_in_range env" "finalizer_laws env" "all_paced env o1"
  shows "at_rest env o2"
  using assms(1)
proof cases
  case (unavailable e)
  then show ?thesis using assms(2,4) by (auto simp: at_rest_def)
next
  case (deleted wb)
  then show ?thesis using assms(4) by (auto simp: at_rest_def)
next
  case (finalized wb x)
  then obtain wb' where "x = Inr wb'" using assms(2) by (cases x) auto
  then show ?thesis using finalized assms(4,6) by (auto simp: at_rest_def finalizer_laws_def)
next
  case (stopped wb es1)
  from preflight_rest [OF stopped(5) assms(2)] obtain b u where fin: "final es1 b u" by blast
  have st: "stores_all env es1 (Some wb) o2" "es1 \<noteq> []"
    using stopped(5) assms(4) by (auto simp: stopped(1) elim: preflight.cases)
  have "reported es1" using assms(3) st(2) by (simp add: reported_def stopped(1))
  with final_at_rest [OF fin st(2) _ st(1)] stopped(2) show ?thesis by (simp add: alive_def)
next
  case (ran wb wb' es1 es2)
  obtain o' where st: "stores_all env es1 (Some wb) o'" "stores_all env es2 o' o2" and o1: "o1 = Some wb"
    using assms(4) by (auto simp: ran(1) stores_all_append)
  obtain ob where ob: "o' = Some ob" "Status ob = Status wb'"
    using preflight_stores [OF ran(5) st(1) ran(2)] by blast
  have "paced env wb'"
    using paced_same preflight_validated [OF ran(5)] assms(7) o1 by (auto simp: all_paced_def)
  from polling_rest [OF ran(6) assms(2,5) this] show ?thesis
  proof
    assume "\<exists>b. final es2 b None"
    then obtain b where fin: "final es2 b None" ..
    have "alive o'" using stores_all_alive [OF st(1)] ran(2) by (simp add: alive_def)
    moreover have "es2 \<noteq> []" using polling_polls [OF ran(6)] by auto
    moreover from this have "reported es2"
      using reported_append [of "EvGetBundle req (Inr wb) # es1" es2] assms(3) ran(1) by simp
    ultimately show ?thesis using final_at_rest [OF fin _ _ st(2)] by blast
  next
    assume "Phase (Status wb') = PhaseSynced \<and>
      (\<exists>url etag tags. es2 = [EvPoll url etag tags None] \<and> tags \<noteq> [] \<and> LastAppliedTag (Status wb') = last tags)"
    then show ?thesis using st(2) ob by (auto simp: at_rest_def)
  qed
qed

lemma edit_is_queued:
  "builder_laws ws \<Longrightarrow> For reg = ''WerfBundle'' \<Longrightarrow> g \<noteq> g' \<Longrightarrow> BundleRequests ws reg (Updated g g') req = [req]"
  unfolding builder_laws_def by blast

lemma operator_step_attended:
  assumes "operator_step env ws reg req s s'" "server_keeps env" "rand_in_range env" "finalizer_laws env"
    and "builder_laws ws" "For reg = ''WerfBundle''" "attended env s"
  shows "attended env s'"
  using assms(1)
proof cases
  case (run w r w' es x)
  have "reconciling env req r es"
    using emits_run [OF Reconcile_refinement [OF assms(2)] run(3)] run(4) by auto
  from reconciling_at_rest [OF this _ run(5,6) assms(3,4)] stores_all_paced [OF run(6)] assms(7) run(1)
  show ?thesis by (auto simp: attended_def)
next
  case overtaken
  then show ?thesis using edit_is_queued [OF assms(5,6)] by (simp add: attended_def all_paced_def)
next
  case edited
  then show ?thesis using edit_is_queued [OF assms(5,6)] by (simp add: attended_def all_paced_def)
qed (use assms(7) in \<open>auto simp: attended_def all_paced_def at_rest_def\<close>)

lemma operator_steps_attended:
  assumes "operator_steps env ws reg req s0 s" "server_keeps env" "rand_in_range env" "finalizer_laws env"
    and "builder_laws ws" "For reg = ''WerfBundle''" "attended env s0"
  shows "attended env s"
  using assms(1)
proof (induction rule: operator_steps.induct)
  case (step s s')
  from operator_step_attended [OF step(2) assms(2-6) step.IH] show ?case .
qed (rule assms(7))

end
