(* ===== verification/Op_Scheme.thy ===== *)
theory Op_Scheme
  imports Job_Builder
begin

text \<open>
  The registration of the API types: \<open>api/v1alpha1/groupversion_info.go\<close>, \<open>init\<close> of
  \<open>werfbundle_types.go\<close>, and the scheme of \<open>cmd/main.go\<close> with its \<open>init\<close>. Schemes and their
  builders belong to apimachinery, controller-runtime and client-go: they are the fields of a
  record \<open>SchemeLib\<close>. The reconciler is given the scheme of \<open>main\<close>, and \<open>Build\<close> reads the owner
  reference of a job from it.
\<close>

record GroupVersionInfo =
  Group :: string
  Version :: string

text \<open>The types by the prototypes that are registered, \<open>&WerfBundle{}\<close> and \<open>&WerfBundleList{}\<close>.\<close>

datatype prototype = WerfBundlePrototype | WerfBundleListPrototype

record ('b, 's) SchemeLib =
  NewScheme :: 's
  NewSchemeBuilder :: "GroupVersionInfo \<Rightarrow> 'b"
  Register :: "prototype list \<Rightarrow> 'b \<Rightarrow> 'b"
  BuilderAddToScheme :: "'b \<Rightarrow> 's \<Rightarrow> err option \<times> 's"
  ClientgoAddToScheme :: "'s \<Rightarrow> err option \<times> 's"
  KindsOf :: "'s \<Rightarrow> prototype \<Rightarrow> err + GroupVersionKind list"

definition api_GroupVersion :: GroupVersionInfo where
  "api_GroupVersion = \<lparr>Group = ''werf.io'', Version = ''v1alpha1''\<rparr>"

definition SchemeBuilder :: "('b, 's) SchemeLib \<Rightarrow> 'b" where
  "SchemeBuilder L = NewSchemeBuilder L api_GroupVersion"

text \<open>\<open>init\<close> of the package changes the builder in place; \<open>AddToScheme\<close> is called after it.\<close>

definition api_init :: "('b, 's) SchemeLib \<Rightarrow> 'b \<Rightarrow> 'b" where
  "api_init L b = Register L [WerfBundlePrototype, WerfBundleListPrototype] b"

definition AddToScheme :: "('b, 's) SchemeLib \<Rightarrow> 's \<Rightarrow> err option \<times> 's" where
  "AddToScheme L s = BuilderAddToScheme L (api_init L (SchemeBuilder L)) s"

text \<open>\<open>utilruntime.Must\<close> panics with the error.\<close>

definition Must :: "err option \<Rightarrow> unit outcome" where
  "Must e = (case e of None \<Rightarrow> Ret () | Some e \<Rightarrow> Panic (Error e))"

definition main_init :: "('b, 's) SchemeLib \<Rightarrow> 's outcome" where
  "main_init L =
     (let (e, s) = ClientgoAddToScheme L (NewScheme L) in
      bind_outcome (Must e) (\<lambda>_.
        let (e, s) = AddToScheme L s in
        bind_outcome (Must e) (\<lambda>_. Ret s)))"

section \<open>The kind of a bundle\<close>

text \<open>\<open>GroupVersion.String()\<close> and the name of a type by reflection, as a scheme uses them.\<close>

definition gv_text :: "GroupVersionInfo \<Rightarrow> string" where
  "gv_text gv = (if Group gv = '''' then Version gv else Group gv @ ''/'' @ Version gv)"

definition type_name :: "prototype \<Rightarrow> string" where
  "type_name t = (case t of WerfBundlePrototype \<Rightarrow> ''WerfBundle'' | WerfBundleListPrototype \<Rightarrow> ''WerfBundleList'')"

text \<open>
  Documented behaviour of schemes: a new scheme knows no type, client-go registers none of
  this repository's, and a builder registers its types under its group and version.
\<close>

definition scheme_laws :: "('b, 's) SchemeLib \<Rightarrow> bool" where
  "scheme_laws L \<longleftrightarrow>
     (\<forall>t. \<exists>e. KindsOf L (NewScheme L) t = Inl e) \<and>
     (\<forall>s e s'. ClientgoAddToScheme L s = (e, s') \<longrightarrow> KindsOf L s' = KindsOf L s) \<and>
     (\<forall>gv ts s s' t. BuilderAddToScheme L (Register L ts (NewSchemeBuilder L gv)) s = (None, s') \<longrightarrow>
        t \<in> set ts \<longrightarrow> (\<exists>e. KindsOf L s t = Inl e) \<longrightarrow>
        KindsOf L s' t = Inr [\<lparr>GroupVersion = gv_text gv, GVKKind = type_name t\<rparr>])"

lemma main_init_kinds:
  assumes laws: "scheme_laws L" and init: "main_init L = Ret s"
  shows "KindsOf L s t = Inr [\<lparr>GroupVersion = ''werf.io/v1alpha1'', GVKKind = type_name t\<rparr>]"
proof -
  obtain s1 where s1: "ClientgoAddToScheme L (NewScheme L) = (None, s1)" "AddToScheme L s1 = (None, s)"
    using init by (auto simp: main_init_def Must_def bind_outcome_Ret_iff split: prod.splits option.splits)
  have "\<exists>e. KindsOf L s1 t = Inl e" using laws s1(1) unfolding scheme_laws_def by metis
  moreover have "t \<in> set [WerfBundlePrototype, WerfBundleListPrototype]" by (cases t) simp_all
  ultimately have "KindsOf L s t = Inr [\<lparr>GroupVersion = gv_text api_GroupVersion, GVKKind = type_name t\<rparr>]"
    using laws s1(2) unfolding scheme_laws_def AddToScheme_def api_init_def SchemeBuilder_def by blast
  then show ?thesis by (simp add: gv_text_def api_GroupVersion_def)
qed

lemma main_init_panics:
  "main_init L = Panic msg \<Longrightarrow> \<exists>e. msg = Error e \<and>
     (fst (ClientgoAddToScheme L (NewScheme L)) = Some e \<or> fst (AddToScheme L (snd (ClientgoAddToScheme L (NewScheme L)))) = Some e)"
  by (auto simp: main_init_def Must_def split: prod.splits option.splits)

text \<open>A job that was built with the scheme of \<open>main\<close> is owned by a bundle of this API.\<close>

lemma owner_with_main_scheme:
  assumes "scheme_laws L" "main_init L = Ret s" "ObjectKinds env = (\<lambda>wb. KindsOf L s WerfBundlePrototype)"
    and "job_for env wb tag args j"
  shows "OwnerReferences j = [\<lparr>APIVersion = ''werf.io/v1alpha1'', Kind = ''WerfBundle'', OwnerName = Name wb,
    OwnerUID = UID wb, IsController = None\<rparr>]"
  using assms(3,4) main_init_kinds [OF assms(1,2), of WerfBundlePrototype]
  by (auto simp: job_for_def type_name_def)

end
