(* ===== verification/Mem_Cluster.thy ===== *)
theory Mem_Cluster
  imports Ctl_Runs Ctl_Queue Op_Scheme
begin

text \<open>
  An in-memory Kubernetes cluster and registry that satisfies every documented behaviour the
  theorems name: the environment on which concrete runs of the operator are computed. It is
  no model of code in the repository.
\<close>

section \<open>The store\<close>

record cluster_state =
  stored_bundle :: "WerfBundle option"
  accounts :: "NamespacedName list"
  configmaps :: "(NamespacedName \<times> gomap) list"
  secrets :: "(NamespacedName \<times> (string \<times> 8 word list) list) list"
  jobs :: "Job list"
  pods :: "(NamespacedName \<times> string) list"
  registry_tags :: "err + (string list \<times> string)"
  clock :: int

definition not_found :: err where "not_found = StatusError ''NotFound'' ''not found''"
definition conflict :: err where "conflict = StatusError ''Conflict'' ''the object has been modified''"
definition already_exists :: err where "already_exists = StatusError ''AlreadyExists'' ''already exists''"

fun has_reason :: "string \<Rightarrow> err \<Rightarrow> bool" where
  "has_reason reason (StatusError r msg) = (r = reason)"
| "has_reason reason (WrapError prefix e) = has_reason reason e"
| "has_reason reason _ = False"

definition find_key :: "('a \<Rightarrow> NamespacedName) \<Rightarrow> NamespacedName \<Rightarrow> 'a list \<Rightarrow> 'a option" where
  "find_key f k xs = List.find (\<lambda>x. f x = k) xs"

definition or_not_found :: "'a option \<Rightarrow> err + 'a" where
  "or_not_found x = (case x of None \<Rightarrow> Inl not_found | Some a \<Rightarrow> Inr a)"

definition bundle_key :: "WerfBundle \<Rightarrow> NamespacedName" where
  "bundle_key wb = key (Name wb) (Namespace wb)"

text \<open>A write of the bundle succeeds when it was made from the stored object.\<close>

definition mem_write ::
  "(WerfBundle \<Rightarrow> WerfBundle \<Rightarrow> WerfBundle) \<Rightarrow> WerfBundle \<Rightarrow> cluster_state \<Rightarrow> (err + WerfBundle) \<times> cluster_state" where
  "mem_write f wb c =
     (case stored_bundle c of
        None \<Rightarrow> (Inl not_found, c)
      | Some old \<Rightarrow>
          if Name old = Name wb \<and> Namespace old = Namespace wb \<and> UID old = UID wb \<and> Spec old = Spec wb
          then (Inr (f old wb), c\<lparr>stored_bundle := Some (f old wb)\<rparr>) else (Inl conflict, c))"

definition mem_create_job :: "Job \<Rightarrow> cluster_state \<Rightarrow> err option \<times> cluster_state" where
  "mem_create_job j c =
     (if find_key job_key (job_key j) (jobs c) = None then (None, c\<lparr>jobs := j # jobs c\<rparr>)
      else (Some already_exists, c))"

definition mem_list_tags :: "string \<Rightarrow> cluster_state \<Rightarrow> (string list \<times> string \<times> err option) \<times> cluster_state" where
  "mem_list_tags etag c =
     ((case registry_tags c of
         Inl e \<Rightarrow> ([], '''', Some e)
       | Inr (tags, current) \<Rightarrow>
           if etag \<noteq> '''' \<and> etag = current then ([], current, Some NotModifiedError) else (tags, current, None)), c)"

definition mem_env :: "cluster_state Env" where
  "mem_env = \<lparr>
     IsNotFound = has_reason ''NotFound'',
     IsAlreadyExists = has_reason ''AlreadyExists'',
     ContainsFinalizer = (\<lambda>fs f. f \<in> set fs),
     AddFinalizer = (\<lambda>fs f. if f \<in> set fs then fs else fs @ [f]),
     RemoveFinalizer = (\<lambda>fs f. filter (\<lambda>x. x \<noteq> f) fs),
     ParseQuantity = (\<lambda>s. if s = ''lots'' then Inl (ErrorString ''quantities must match the regular expression'')
       else Inr (Quantity s)),
     ObjectKinds = (\<lambda>wb. Inr [\<lparr>GroupVersion = ''werf.io/v1alpha1'', GVKKind = ''WerfBundle''\<rparr>]),
     SetControllerReference = (\<lambda>wb cm. Inr (cm\<lparr>CmOwner := Some \<lparr>APIVersion = ''werf.io/v1alpha1'',
       Kind = ''WerfBundle'', OwnerName = Name wb, OwnerUID = UID wb,
       IsController = Some True\<rparr>\<rparr>)),
     Unmarshal = (\<lambda>s. if s = ''{'' then Inl (ErrorString ''yaml: did not find expected node content'')
       else Inr (YMap [(''value'', YString s)])),
     FractionNanos = (\<lambda>f digits unit. 0),
     GetBundle = (\<lambda>k c. (case stored_bundle c of
        None \<Rightarrow> Inl not_found | Some wb \<Rightarrow> if bundle_key wb = k then Inr wb else Inl not_found, c)),
     UpdateBundle = mem_write (\<lambda>old wb. wb\<lparr>Status := Status old\<rparr>),
     UpdateBundleStatus = mem_write (\<lambda>old wb. old\<lparr>Status := Status wb\<rparr>),
     GetServiceAccount = (\<lambda>k c. (if k \<in> set (accounts c) then None else Some not_found, c)),
     GetConfigMap = (\<lambda>k c. (or_not_found (map_of (configmaps c) k), c)),
     GetSecret = (\<lambda>k c. (or_not_found (map_of (secrets c) k), c)),
     GetJob = (\<lambda>k c. (or_not_found (find_key job_key k (jobs c)), c)),
     CreateJob = mem_create_job,
     CreateConfigMap = (\<lambda>cm c. if map_of (configmaps c) (key (CmName cm) (CmNamespace cm)) = None
       then (None, c\<lparr>configmaps := (key (CmName cm) (CmNamespace cm), CmData cm) # configmaps c\<rparr>)
       else (Some already_exists, c)),
     UpdateConfigMap = (\<lambda>cm c.
       (None, c\<lparr>configmaps := (key (CmName cm) (CmNamespace cm), CmData cm) # configmaps c\<rparr>)),
     ListPods = (\<lambda>ns sel c. (Inr (map (\<lambda>(k, log). \<lparr>PodName = NName k, PodContainers = [''werf'']\<rparr>)
       (filter (\<lambda>(k, log). NNamespace k = ns) (pods c))), c)),
     StreamPodLogs = (\<lambda>ns pod container n c. (case map_of (pods c) (key pod ns) of
        None \<Rightarrow> Inl not_found | Some log \<Rightarrow> Inr (Inr log), c)),
     RegistryListTags = (\<lambda>url auth. mem_list_tags),
     Now = (\<lambda>c. (clock c, c\<lparr>clock := clock c + 1\<rparr>)),
     RandIntn = (\<lambda>n c. (0, c)),
     RandRead = (\<lambda>n c. (Inr (replicate n 171), c))\<rparr>"

section \<open>The documented behaviours hold\<close>

lemma mem_env_simps [simp]:
  "IsNotFound mem_env = has_reason ''NotFound''"
  "ContainsFinalizer mem_env fs f = (f \<in> set fs)"
  "ParseQuantity mem_env s = (if s = ''lots'' then Inl (ErrorString ''quantities must match the regular expression'')
     else Inr (Quantity s))"
  by (simp_all add: mem_env_def)

lemma mem_server_keeps: "server_keeps mem_env"
  by (auto simp: server_keeps_def mem_env_def mem_write_def same_object_def bundle_key_def or_not_found_def
      find_key_def job_key_def find_Some_iff split: option.splits if_splits)

lemma mem_reads_pure: "reads_pure mem_env"
  by (simp add: reads_pure_def mem_env_def)

lemma mem_not_found_laws: "not_found_laws mem_env"
  by (auto simp: not_found_laws_def mem_env_def or_not_found_def not_found_def isNotFoundError_def
      errors_Is_ErrNotFound_def split: option.splits)

lemma mem_rand_in_range: "rand_in_range mem_env"
  by (simp add: rand_in_range_def mem_env_def)

section \<open>A bundle and a cluster\<close>

definition demo_spec :: "string \<Rightarrow> string \<Rightarrow> WerfBundleSpec" where
  "demo_spec target account = \<lparr>
     Registry = \<lparr>URL = ''ghcr.io/org/app'', RegistrySecretRef = None, PollInterval = ''10m''\<rparr>,
     Converge = \<lparr>ServiceAccountName = account, TargetNamespace = target, ResourceLimits = None,
       LogRetentionDays = None, ValuesFrom = []\<rparr>\<rparr>"

definition demo_bundle :: "WerfBundleSpec \<Rightarrow> WerfBundleStatus \<Rightarrow> WerfBundle" where
  "demo_bundle spec st = \<lparr>Name = ''app'', Namespace = ''team'', UID = ''u1'', DeletionTimestamp = None,
     Finalizers = [], Spec = spec, Status = st\<rparr>"

definition demo_cluster :: "WerfBundle \<Rightarrow> err + (string list \<times> string) \<Rightarrow> cluster_state world" where
  "demo_cluster wb registry = \<lparr>cluster = \<lparr>stored_bundle = Some wb, accounts = [key ''deployer'' ''prod''],
     configmaps = [], secrets = [], jobs = [], pods = [], registry_tags = registry, clock = 1000\<rparr>, trace = []\<rparr>"

abbreviation demo_key :: NamespacedName where "demo_key \<equiv> key ''app'' ''team''"

section \<open>Runs\<close>

lemmas stage_simps = Reconcile_def ensure_finalizer_def check_cross_namespace_def
  ValidateCrossNamespaceDeployment_def store_target_namespace_def check_service_account_def
  validateServiceAccount_def ValidateServiceAccountExists_def poll_and_deploy_def poll_interval_def
  handle_tags_def polled_def finalize_def stage_defs GetTargetNamespace_def finalizerName_def

lemmas handler_simps = ensureJobExists_def create_converge_job_def monitorJobCompletion_def
  updateStatusSyncing_def updateStatusSynced_def updateStatusFailed_def Build_def jobName_def
  build_args_def build_job_def getResourceLimit_def mustParseResource_def resource_text_def
  owner_reference_def result_defs handleRegistryError_def count_failure_def maxConsecutiveFailures_def

lemmas mem_simps = mem_env_def mem_write_def mem_list_tags_def mem_create_job_def find_key_def
  or_not_found_def bundle_key_def job_key_def demo_cluster_def demo_bundle_def demo_spec_def
  zero_status_def client_defs call_def Let_def

lemmas run_simps = stage_simps handler_simps mem_simps

lemma hash_v110: "tag_hash ''v1.1.0'' = Ret ''4b926c5f''"
  by (simp add: tag_hash_def fnv32a_def slice_to_def hex_nat_def radix_step radix_small of_char_def)

lemma name_v110:
  "full_name ''app'' ''4b926c5f'' (EncodeToString (fill_buffer 4 (replicate 4 171))) = Ret ''app-4b926c5f-abababab''"
  by code_simp

lemma hash_v144: "unat (fnv32a ''v1.4.4'') = 207921568"
  by (simp add: fnv32a_def of_char_def)

lemma tag_hash_v144: "\<exists>msg. tag_hash ''v1.4.4'' = Panic msg"
  by (simp add: tag_hash_cases hash_v144)

text \<open>A bundle for another namespace with a new tag in the registry: its first run.\<close>

definition fresh_demo :: WerfBundle where
  "fresh_demo = demo_bundle (demo_spec ''prod'' ''deployer'') zero_status"

definition fresh_world :: "cluster_state world" where
  "fresh_world = demo_cluster (demo_bundle (demo_spec ''prod'' ''deployer'') zero_status)
     (Inr ([''v1.0.0'', ''v1.1.0''], ''e1''))"

definition first_world :: "cluster_state world" where
  "first_world = snd (run_state (Reconcile mem_env demo_key) fresh_world)"

lemma first_run: "run_state (Reconcile mem_env demo_key) fresh_world = (Ret (duration_of (5 * second), None), first_world)"
  by (rule prod_eqI) (simp_all add: first_world_def fresh_world_def run_simps hash_v110 name_v110)

lemma first_trace: "\<exists>pre j b. trace first_world = pre @ [EvCreateJob j None, EvUpdateStatus b None] \<and>
    JobName j = ''app-4b926c5f-abababab'' \<and> JobNamespace j = ''prod''"
  by (simp add: first_world_def fresh_world_def run_simps hash_v110 name_v110)

lemma first_polls: "EvPoll ''ghcr.io/org/app'' '''' [''v1.0.0'', ''v1.1.0''] None \<in> set (trace first_world)"
  by (simp add: first_world_def fresh_world_def run_simps hash_v110 name_v110)

lemma create_run: "\<exists>r w' pre j b. run_state (create_converge_job mem_env fresh_demo ''v1.1.0'') fresh_world = (r, w') \<and>
    trace w' = trace fresh_world @ pre @ [EvCreateJob j None, EvUpdateStatus b None] \<and>
    JobName j = ''app-4b926c5f-abababab'' \<and> Phase (Status b) = PhaseSyncing"
  by (simp add: fresh_world_def fresh_demo_def run_simps hash_v110 name_v110)

text \<open>The bundle as the first run leaves it.\<close>

definition recorded_demo :: WerfBundle where
  "recorded_demo = fresh_demo\<lparr>Finalizers := [finalizerName], Status := zero_status\<lparr>Phase := PhaseSyncing,
     LastAppliedTag := ''v1.1.0'', LastETag := ''e1'', ActiveJobName := ''app-4b926c5f-abababab'',
     LastJobStatus := JobStatusRunning, ResolvedTargetNamespace := ''prod''\<rparr>\<rparr>"

lemma first_recorded: "\<exists>pre j. trace first_world = pre @ [EvCreateJob j None, EvUpdateStatus recorded_demo None] \<and>
    EvPoll ''ghcr.io/org/app'' '''' [''v1.0.0'', ''v1.1.0''] None \<in> set pre \<and> JobName j = ''app-4b926c5f-abababab''"
  by (simp add: first_world_def fresh_world_def recorded_demo_def fresh_demo_def run_simps hash_v110 name_v110)

text \<open>A later run from that status, after the registry has renewed its ETag.\<close>

definition second_world :: "cluster_state world" where
  "second_world = demo_cluster recorded_demo (Inr ([''v1.0.0'', ''v1.1.0''], ''e2''))"

definition synced_demo :: WerfBundle where
  "synced_demo = recorded_demo\<lparr>Status := (Status recorded_demo)\<lparr>Phase := PhaseSynced, LastSyncTime := Some 1000,
     LastETag := ''e2''\<rparr>\<rparr>"

lemma second_run: "\<exists>w'. run_state (Reconcile mem_env demo_key) second_world = (Ret (0, None), w') \<and>
    trace w' = trace second_world @ EvGetBundle demo_key (Inr recorded_demo) # [EvGetServiceAccount (key ''deployer'' ''prod'') None,
      EvPoll ''ghcr.io/org/app'' ''e1'' [''v1.0.0'', ''v1.1.0''] None, EvUpdateStatus synced_demo None]"
  by (simp add: second_world_def synced_demo_def recorded_demo_def fresh_demo_def run_simps) (simp add: phase_defs)

text \<open>And one from the status that this run saves, after another renewal.\<close>

definition synced_world :: "cluster_state world" where
  "synced_world = demo_cluster synced_demo (Inr ([''v1.0.0'', ''v1.1.0''], ''e3''))"

lemma synced_run: "\<exists>w'. run_state (Reconcile mem_env demo_key) synced_world = (Ret (0, None), w') \<and>
    trace w' = trace synced_world @ EvGetBundle demo_key (Inr synced_demo) # [EvGetServiceAccount (key ''deployer'' ''prod'') None,
      EvPoll ''ghcr.io/org/app'' ''e2'' [''v1.0.0'', ''v1.1.0''] None]"
  by (simp add: synced_world_def synced_demo_def recorded_demo_def fresh_demo_def run_simps)

lemma demo_unhindered_runs:
  "unhindered_runs mem_env demo_key ''v1.1.0'' (Status recorded_demo) (Suc (Suc (Suc 0))) (Status synced_demo)"
proof -
  obtain w' where second: "run_state (Reconcile mem_env demo_key) second_world = (Ret (0, None), w')"
    "trace w' = trace second_world @ EvGetBundle demo_key (Inr recorded_demo) # [EvGetServiceAccount (key ''deployer'' ''prod'') None,
      EvPoll ''ghcr.io/org/app'' ''e1'' [''v1.0.0'', ''v1.1.0''] None, EvUpdateStatus synced_demo None]" (is "_ = _ @ _ # ?es")
    using second_run by blast
  obtain v' where synced: "run_state (Reconcile mem_env demo_key) synced_world = (Ret (0, None), v')"
    "trace v' = trace synced_world @ EvGetBundle demo_key (Inr synced_demo) # [EvGetServiceAccount (key ''deployer'' ''prod'') None,
      EvPoll ''ghcr.io/org/app'' ''e2'' [''v1.0.0'', ''v1.1.0''] None]" (is "_ = _ @ _ # ?fs")
    using synced_run by blast
  have live: "DeletionTimestamp recorded_demo = None" "DeletionTimestamp synced_demo = None"
    "ContainsFinalizer mem_env (Finalizers recorded_demo) finalizerName" "ContainsFinalizer mem_env (Finalizers synced_demo) finalizerName"
    by (simp_all add: synced_demo_def recorded_demo_def fresh_demo_def demo_bundle_def)
  have 1: "one_run mem_env demo_key (Status recorded_demo) ?es (Status synced_demo)"
    unfolding one_run_def using second live
    by (intro exI [of _ second_world] exI [of _ "Ret (0, None)"] exI [of _ w'] exI [of _ recorded_demo]) simp
  have 2: "one_run mem_env demo_key (Status synced_demo) ?fs (Status synced_demo)"
    unfolding one_run_def using synced live
    by (intro exI [of _ synced_world] exI [of _ "Ret (0, None)"] exI [of _ v'] exI [of _ synced_demo]) simp
  have 3: "unhindered mem_env ''v1.1.0'' ?es" "unhindered mem_env ''v1.1.0'' ?fs" by (simp_all add: unhindered_def)
  show ?thesis by (rule unhindered_runs.more [OF unhindered_runs.more [OF unhindered_runs.more [OF unhindered_runs.none 1 3(1)]
        2 3(2)] 2 3(2)])
qed

text \<open>The status that is left when the job was rejected, and a later run from it.\<close>

definition failed_demo :: WerfBundle where
  "failed_demo = recorded_demo\<lparr>Status := (Status recorded_demo)\<lparr>Phase := PhaseFailed, ActiveJobName := '''',
     LastJobStatus := '''', LastErrorMessage := ''Failed to create Job: quota''\<rparr>\<rparr>"

definition failed_world :: "cluster_state world" where
  "failed_world = demo_cluster failed_demo (Inr ([''v1.0.0'', ''v1.1.0''], ''e2''))"

lemma failed_run: "\<exists>w' b. run_state (Reconcile mem_env demo_key) failed_world = (Ret (0, None), w') \<and>
    trace w' = trace failed_world @ EvGetBundle demo_key (Inr failed_demo) # [EvGetServiceAccount (key ''deployer'' ''prod'') None,
      EvPoll ''ghcr.io/org/app'' ''e1'' [''v1.0.0'', ''v1.1.0''] None, EvUpdateStatus b None]"
  by (simp add: failed_world_def failed_demo_def recorded_demo_def fresh_demo_def run_simps) (simp add: phase_defs)
text \<open>The same with the registry at a tag whose hash has seven digits.\<close>

definition short_hash_world :: "cluster_state world" where
  "short_hash_world = demo_cluster (demo_bundle (demo_spec ''prod'' ''deployer'') zero_status)
     (Inr ([''v1.0.0'', ''v1.4.4''], ''''))"

definition crashed_world :: "cluster_state world" where
  "crashed_world = snd (run_state (Reconcile mem_env demo_key) short_hash_world)"

lemma crashed_run: "\<exists>msg. run_state (Reconcile mem_env demo_key) short_hash_world = (Panic msg, crashed_world)"
proof -
  obtain msg where "tag_hash ''v1.4.4'' = Panic msg" using tag_hash_v144 ..
  then have "fst (run_state (Reconcile mem_env demo_key) short_hash_world) = Panic msg"
    by (simp add: short_hash_world_def run_simps)
  then show ?thesis unfolding crashed_world_def by (metis prod.collapse)
qed

text \<open>A run that fails before any job: no ServiceAccount named for another namespace.\<close>

definition forbidden_demo :: WerfBundle where
  "forbidden_demo = demo_bundle (demo_spec ''prod'' '''') zero_status"

definition forbidden_world :: "cluster_state world" where
  "forbidden_world = demo_cluster forbidden_demo (Inr ([''v1.1.0''], ''''))"

lemma forbidden_run: "\<exists>r w' es. run_state (Reconcile mem_env demo_key) forbidden_world = (r, w') \<and>
    trace w' = trace forbidden_world @ EvGetBundle demo_key (Inr forbidden_demo) # es"
  by (simp add: forbidden_world_def forbidden_demo_def run_simps)

text \<open>A bundle that is being deleted.\<close>

definition deleted_demo :: WerfBundle where
  "deleted_demo = (demo_bundle (demo_spec ''prod'' ''deployer'') zero_status)
     \<lparr>DeletionTimestamp := Some 900, Finalizers := [finalizerName]\<rparr>"

definition deleted_world :: "cluster_state world" where
  "deleted_world = demo_cluster deleted_demo (Inr ([''v1.1.0''], ''''))"

lemma deleted_run: "\<exists>r w' es. run_state (Reconcile mem_env demo_key) deleted_world = (r, w') \<and>
    trace w' = trace deleted_world @ EvGetBundle demo_key (Inr deleted_demo) # es"
  by (simp add: deleted_world_def deleted_demo_def run_simps)

text \<open>A bundle whose recorded job still runs, with a newer tag in the registry.\<close>

definition busy_demo :: WerfBundle where
  "busy_demo = (demo_bundle (demo_spec ''prod'' ''deployer'')
     (zero_status\<lparr>Phase := PhaseSyncing, LastAppliedTag := ''v1.0.0'', ActiveJobName := ''app-job'',
        LastJobStatus := JobStatusRunning, ResolvedTargetNamespace := ''prod''\<rparr>))\<lparr>Finalizers := [finalizerName]\<rparr>"

definition demo_job :: Job where
  "demo_job = \<lparr>JobName = ''app-job'', JobNamespace = ''prod'', JobLabels = [], BackoffLimit = 0,
     TTLSecondsAfterFinished = 604800, PodLabels = [], RestartPolicy = ''Never'',
     PodServiceAccountName = ''deployer'', Containers = [], OwnerReferences = [], Succeeded = 0, Failed = 0\<rparr>"

definition with_jobs :: "Job list \<Rightarrow> cluster_state world \<Rightarrow> cluster_state world" where
  "with_jobs js w = w\<lparr>cluster := (cluster w)\<lparr>jobs := js\<rparr>\<rparr>"

definition busy_world :: "cluster_state world" where
  "busy_world = with_jobs [demo_job] (demo_cluster busy_demo (Inr ([''v1.0.0'', ''v1.1.0''], '''')))"

lemma busy_run: "run_state (Reconcile mem_env demo_key) busy_world = (Ret (duration_of (5 * second), None),
    busy_world\<lparr>trace := [EvGetBundle demo_key (Inr busy_demo), EvGetServiceAccount (key ''deployer'' ''prod'') None,
      EvPoll ''ghcr.io/org/app'' '''' [''v1.0.0'', ''v1.1.0''] None, EvGetJob (key ''app-job'' ''prod'') (Inr demo_job)]\<rparr>)"
  by (simp add: busy_world_def busy_demo_def with_jobs_def demo_job_def run_simps)

text \<open>A registry that cannot be reached.\<close>

definition outage_demo :: WerfBundle where
  "outage_demo = (demo_bundle (demo_spec ''prod'' ''deployer'') (zero_status\<lparr>ResolvedTargetNamespace := ''prod''\<rparr>))
     \<lparr>Finalizers := [finalizerName]\<rparr>"

definition outage_world :: "cluster_state world" where
  "outage_world = demo_cluster outage_demo (Inl (NetworkError (ErrorString ''dial tcp'')))"

definition outage_status :: WerfBundleStatus where
  "outage_status = (Status outage_demo)\<lparr>Phase := PhaseSyncing, ConsecutiveFailures := 1, LastErrorTime := Some 1000,
     LastAppliedTag := ''Registry error (attempt 1/5): network error: dial tcp''\<rparr>"

lemma outage_first_run: "\<exists>w'. run_state (Reconcile mem_env demo_key) outage_world = (Ret (duration_of (60 * second), None), w')
    \<and> trace w' = trace outage_world @ [EvGetBundle demo_key (Inr outage_demo), EvGetServiceAccount (key ''deployer'' ''prod'') None,
      EvPoll ''ghcr.io/org/app'' '''' [] (Some (NetworkError (ErrorString ''dial tcp''))),
      EvUpdateStatus (outage_demo\<lparr>Status := outage_status\<rparr>) None]"
  by (simp add: outage_world_def outage_demo_def outage_status_def errors_As_NotModified_def dec_int_def dec_nat_def
      radix_small CalculateBackoff_def baseDuration_def maxDuration_def run_simps)

lemma demo_outage: "outage mem_env demo_key (Status outage_demo) (Suc 0) outage_status (Ret (duration_of (60 * second), None))"
proof (rule outage.first)
  obtain w' where run: "run_state (Reconcile mem_env demo_key) outage_world = (Ret (duration_of (60 * second), None), w')"
    and es: "trace w' = trace outage_world @ [EvGetBundle demo_key (Inr outage_demo), EvGetServiceAccount (key ''deployer'' ''prod'') None,
      EvPoll ''ghcr.io/org/app'' '''' [] (Some (NetworkError (ErrorString ''dial tcp''))),
      EvUpdateStatus (outage_demo\<lparr>Status := outage_status\<rparr>) None]" (is "_ = _ @ ?es")
    using outage_first_run by blast
  have "reconciling mem_env demo_key (Ret (duration_of (60 * second), None)) ?es"
    using emits_run [OF Reconcile_refinement [OF mem_server_keeps] run] es by auto
  then show "outage_run mem_env demo_key (Status outage_demo) outage_status (Ret (duration_of (60 * second), None))"
    unfolding outage_run_def
    by (intro exI [of _ ?es] exI [of _ outage_demo] exI [of _ "outage_demo\<lparr>Status := outage_status\<rparr>"]) (auto simp: outage_demo_def errors_As_NotModified_def)
qed

lemma short_create_run: "\<exists>msg w' b es. run_state (create_converge_job mem_env fresh_demo ''v1.4.4'') short_hash_world = (Panic msg, w') \<and>
    trace w' = trace short_hash_world @ EvUpdateStatus b None # es \<and> LastAppliedTag (Status b) = ''v1.4.4''"
proof -
  obtain msg where "tag_hash ''v1.4.4'' = Panic msg" using tag_hash_v144 ..
  then show ?thesis by (simp add: short_hash_world_def fresh_demo_def run_simps)
qed

text \<open>A bundle with values from three sources, one of them absent.\<close>

definition values_demo :: "ValuesSource list" where
  "values_demo = [\<lparr>ConfigMapRef = Some ''base'', SecretRef = None, Optional = False\<rparr>,
     \<lparr>ConfigMapRef = Some ''extra'', SecretRef = None, Optional = True\<rparr>,
     \<lparr>ConfigMapRef = None, SecretRef = Some ''creds'', Optional = False\<rparr>]"

definition values_bundle :: WerfBundle where
  "values_bundle = fresh_demo\<lparr>Spec := (Spec fresh_demo)\<lparr>Converge := (Converge (Spec fresh_demo))
     \<lparr>ValuesFrom := values_demo\<rparr>\<rparr>\<rparr>"

definition values_world :: "cluster_state world" where
  "values_world = \<lparr>cluster = \<lparr>stored_bundle = None, accounts = [],
     configmaps = [(key ''base'' ''team'', [(''values.yaml'', ''low'')])],
     secrets = [(key ''creds'' ''prod'', [(''values.yaml'', [104, 105])])],
     jobs = [], pods = [], registry_tags = Inr ([], ''''), clock = 0\<rparr>, trace = []\<rparr>"

lemma values_spec: "sources_spec mem_env (cluster values_world) ''team'' ''prod'' values_demo
   = Some [[(''value'', ''low'')], [(''value'', ''hi'')]]"
  by code_simp

lemma values_bundle_simps:
  "Namespace values_bundle = ''team''" "ValuesFrom (Converge (Spec values_bundle)) = values_demo"
  "target_of values_bundle = ''prod''" "URL (Registry (Spec values_bundle)) = ''ghcr.io/org/app''"
  by (simp_all add: values_bundle_def fresh_demo_def demo_bundle_def demo_spec_def target_of_def GetTargetNamespace_def)

text \<open>The job of \<open>demo_job\<close> when it has succeeded.\<close>

definition done_job :: Job where
  "done_job = demo_job\<lparr>Succeeded := 1\<rparr>"
text \<open>The calls of the first run, answered from the state that the operator shares with its cluster.\<close>

definition fresh_system :: system where
  "fresh_system = \<lparr>saved = zero_status, live = []\<rparr>"

lemma first_calls: "\<exists>b1 b2 b3 b4 b5 j. trace first_world = [EvGetBundle demo_key (Inr fresh_demo), EvUpdateBundle b1 (Inr b2),
    EvUpdateStatus b3 None, EvGetServiceAccount (key ''deployer'' ''prod'') None,
    EvPoll ''ghcr.io/org/app'' '''' [''v1.0.0'', ''v1.1.0''] None, EvUpdateStatus b4 None, EvCreateJob j None, EvUpdateStatus b5 None] \<and>
    Status b2 = zero_status \<and> JobName j = ''app-4b926c5f-abababab'' \<and> Succeeded j = 0 \<and> Failed j = 0"
  by (simp add: first_world_def fresh_world_def fresh_demo_def run_simps hash_v110 name_v110)

text \<open>A run whose client has not seen the bundle yet.\<close>

lemma unseen_run: "\<exists>w'. run_state (Reconcile mem_env demo_key) values_world = (Ret (0, None), w') \<and>
    trace w' = trace values_world @ [EvGetBundle demo_key (Inl not_found)]"
  by (simp add: values_world_def run_simps not_found_def)

lemma unseen_stays: "interleaved (stale_answered env spec) s [EvGetBundle k x] s"
  by (rule interleaved.call [OF _ interleaved.rest]) simp

lemma first_reachable: "\<exists>s. reachable mem_env demo_key (demo_spec ''prod'' ''deployer'') fresh_system s \<and>
    map JobName (filter unfinished (live s)) = [''app-4b926c5f-abababab'']"
proof -
  obtain b1 b2 b3 b4 b5 j where es: "trace first_world = [EvGetBundle demo_key (Inr fresh_demo), EvUpdateBundle b1 (Inr b2),
    EvUpdateStatus b3 None, EvGetServiceAccount (key ''deployer'' ''prod'') None,
    EvPoll ''ghcr.io/org/app'' '''' [''v1.0.0'', ''v1.1.0''] None, EvUpdateStatus b4 None, EvCreateJob j None, EvUpdateStatus b5 None]"
    (is "_ = ?es") and facts: "Status b2 = zero_status" "JobName j = ''app-4b926c5f-abababab''" "Succeeded j = 0" "Failed j = 0"
    using first_calls by blast
  let ?s = "\<lparr>saved = Status b5, live = [j]\<rparr>"
  have "interleaved (answered mem_env (demo_spec ''prod'' ''deployer'')) fresh_system ?es ?s"
  proof -
    have step: "interleaved (answered mem_env (demo_spec ''prod'' ''deployer'')) s (ev # es) s'"
      if "interleaved (answered mem_env (demo_spec ''prod'' ''deployer'')) s1 es s'" "answered mem_env (demo_spec ''prod'' ''deployer'') ev s s1"
      for s ev es s' s1 using that by (rule interleaved.call [rotated])
    show ?thesis
      by (rule step [where ?s1.0 = fresh_system], rule step [where ?s1.0 = fresh_system],
          rule step [where ?s1.0 = "\<lparr>saved = Status b3, live = []\<rparr>"], rule step [where ?s1.0 = "\<lparr>saved = Status b3, live = []\<rparr>"],
          rule step [where ?s1.0 = "\<lparr>saved = Status b3, live = []\<rparr>"], rule step [where ?s1.0 = "\<lparr>saved = Status b4, live = []\<rparr>"],
          rule step [where ?s1.0 = "\<lparr>saved = Status b4, live = [j]\<rparr>"], rule step [where ?s1.0 = ?s, OF interleaved.rest],
          simp_all add: fresh_system_def fresh_demo_def demo_bundle_def facts)
  qed
  moreover have "recorded ?es"
    by (auto simp: recorded_def Cons_eq_append_conv)
  moreover have "trace first_world = trace fresh_world @ ?es" using es by (simp add: fresh_world_def demo_cluster_def)
  ultimately have "reachable mem_env demo_key (demo_spec ''prod'' ''deployer'') fresh_system ?s"
    using reachable.run [OF reachable.start first_run] by blast
  moreover obtain w' where "run_state (Reconcile mem_env demo_key) values_world = (Ret (0, None), w')"
    "trace w' = trace values_world @ [EvGetBundle demo_key (Inl not_found)]"
    using unseen_run by blast
  ultimately have "reachable mem_env demo_key (demo_spec ''prod'' ''deployer'') fresh_system ?s"
    using unseen_stays by (rule reachable.stale)
  then show ?thesis by (intro exI [of _ ?s]) (simp add: facts unfinished_def)
qed

text \<open>A runtime whose calls succeed, and a builder that keeps its laws.\<close>

definition mem_runtime :: "(unit, unit) Runtime" where
  "mem_runtime = \<lparr>NewManager = (\<lambda>opts k. (None, k)), NewForConfig = (\<lambda>k. (Inr (), k)), Complete = (\<lambda>reg k. (None, k)),
     AddHealthzCheck = (\<lambda>n k. (None, k)), AddReadyzCheck = (\<lambda>n k. (None, k)), Start = (\<lambda>k. (None, k))\<rparr>"

definition mem_watches :: "unit Watches" where
  "mem_watches = \<lparr>BundleRequests = (\<lambda>reg ch k. case ch of Updated g g' \<Rightarrow> if g = g' then [] else [k] | _ \<Rightarrow> [k]),
     JobRequests = (\<lambda>reg ch j. map (\<lambda>ref. key (OwnerName ref) (JobNamespace j))
       (filter (\<lambda>ref. IsController ref = Some True) (OwnerReferences j)))\<rparr>"

lemma mem_builder_laws: "builder_laws mem_watches"
  by (auto simp: builder_laws_def mem_watches_def filter_empty_conv split: change.splits)

text \<open>Two steps of the operator's queue: the second run from above, and a resync.\<close>

lemma mem_finalizer_laws: "finalizer_laws mem_env"
  by (simp add: finalizer_laws_def mem_env_def)

lemma synced_operator_steps:
  "operator_steps mem_env mem_watches reg demo_key \<lparr>stored = Some recorded_demo, queued = True\<rparr>
     \<lparr>stored = Some synced_demo, queued = False\<rparr>"
proof -
  obtain w' where w': "run_state (Reconcile mem_env demo_key) second_world = (Ret (0, None), w')"
    "trace w' = trace second_world @ EvGetBundle demo_key (Inr recorded_demo) # [EvGetServiceAccount (key ''deployer'' ''prod'') None,
      EvPoll ''ghcr.io/org/app'' ''e1'' [''v1.0.0'', ''v1.1.0''] None, EvUpdateStatus synced_demo None]" (is "_ = _ @ ?es")
    using second_run by blast
  have "recorded_demo\<lparr>Status := Status synced_demo\<rparr> = synced_demo" by (simp add: synced_demo_def)
  then have "stores_all mem_env ?es (Some recorded_demo) (Some synced_demo)" by simp
  moreover have "reported ?es" by (simp add: reported_def)
  ultimately have "operator_step mem_env mem_watches reg demo_key \<lparr>stored = Some recorded_demo, queued = True\<rparr>
      \<lparr>stored = Some synced_demo, queued = requeued (Ret (0, None))\<rparr>"
    using w' by (intro operator_step.run [where w = second_world and es = ?es]) simp_all
  then show ?thesis by (intro operator_steps.step [OF operator_steps.start]) simp
qed

lemma mem_start: "\<exists>es. run_state (main mem_runtime default_flags) ((), []) = (0, ((), es)) \<and> length es = 6"
  by (simp add: main_def SetupWithManager_def mem_runtime_def boot_call_def Let_def)

lemma mem_setup: "\<exists>reg. run_state (SetupWithManager mem_runtime (Some ())) ((), []) = (None, ((), [CompleteCalled reg None]))"
  by (simp add: SetupWithManager_def mem_runtime_def boot_call_def Let_def)

text \<open>Schemes as functions, builders as their group and types.\<close>

definition mem_schemes :: "(GroupVersionInfo \<times> prototype list, prototype \<Rightarrow> err + GroupVersionKind list) SchemeLib" where
  "mem_schemes = \<lparr>NewScheme = (\<lambda>t. Inl (ErrorString ''no kind is registered'')), NewSchemeBuilder = (\<lambda>gv. (gv, [])),
     Register = (\<lambda>ts (gv, ts'). (gv, ts' @ ts)),
     BuilderAddToScheme = (\<lambda>(gv, ts) s. (None, \<lambda>t. if t \<in> set ts
       then Inr [\<lparr>GroupVersion = gv_text gv, GVKKind = type_name t\<rparr>] else s t)),
     ClientgoAddToScheme = (\<lambda>s. (None, s)), KindsOf = (\<lambda>s. s)\<rparr>"

definition mem_scheme :: "prototype \<Rightarrow> err + GroupVersionKind list" where
  "mem_scheme = snd (AddToScheme mem_schemes (NewScheme mem_schemes))"

lemma mem_scheme_laws: "scheme_laws mem_schemes"
  by (simp add: scheme_laws_def mem_schemes_def)

lemma mem_main_init: "main_init mem_schemes = Ret mem_scheme"
  by (simp add: main_init_def mem_scheme_def AddToScheme_def Must_def mem_schemes_def split: prod.split)

lemma mem_object_kinds: "ObjectKinds mem_env = (\<lambda>wb. KindsOf mem_schemes mem_scheme WerfBundlePrototype)"
  by (simp add: mem_env_def mem_scheme_def AddToScheme_def api_init_def SchemeBuilder_def mem_schemes_def
      api_GroupVersion_def gv_text_def type_name_def)

text \<open>The same cluster with a registry whose tags never change.\<close>

definition still_env :: "cluster_state Env" where
  "still_env = mem_env\<lparr>RegistryListTags := (\<lambda>url auth etag k.
     (if etag = ''e1'' then ([], '''', Some NotModifiedError) else ([''v1.0.0'', ''v1.1.0''], ''e1'', None), k))\<rparr>"

lemma still_server_keeps: "server_keeps still_env"
  using mem_server_keeps by (simp add: server_keeps_def still_env_def)

lemma still_registry: "unchanged_registry still_env ''e1'' [''v1.0.0'', ''v1.1.0'']"
  by (simp add: unchanged_registry_def still_env_def errors_As_NotModified_def)

lemma still_first_run: "\<exists>r w' pre j. run_state (Reconcile still_env demo_key) fresh_world = (r, w') \<and>
    trace w' = trace fresh_world @ pre @ [EvCreateJob j None, EvUpdateStatus recorded_demo None] \<and>
    EvPoll ''ghcr.io/org/app'' '''' [''v1.0.0'', ''v1.1.0''] None \<in> set pre \<and> JobName j = ''app-4b926c5f-abababab''"
  by (simp add: still_env_def fresh_world_def recorded_demo_def fresh_demo_def run_simps hash_v110 name_v110)

lemma still_second_run: "\<exists>r w'. run_state (Reconcile still_env demo_key) second_world = (r, w') \<and>
    trace w' = trace second_world @ EvGetBundle demo_key (Inr recorded_demo) # [EvGetServiceAccount (key ''deployer'' ''prod'') None,
      EvPoll ''ghcr.io/org/app'' ''e1'' [] (Some NotModifiedError)]"
  by (simp add: still_env_def second_world_def recorded_demo_def fresh_demo_def run_simps requeue_jittered_def
      AddJitter_def errors_As_NotModified_def split: outcome.split)

lemma still_runs: "polling_runs still_env demo_key (Status recorded_demo) (Suc (Suc 0)) (Status recorded_demo)"
proof -
  obtain r w' where second: "run_state (Reconcile still_env demo_key) second_world = (r, w')"
    "trace w' = trace second_world @ EvGetBundle demo_key (Inr recorded_demo) # [EvGetServiceAccount (key ''deployer'' ''prod'') None,
      EvPoll ''ghcr.io/org/app'' ''e1'' [] (Some NotModifiedError)]" (is "_ = _ @ _ # ?es")
    using still_second_run by blast
  have live: "DeletionTimestamp recorded_demo = None" "ContainsFinalizer still_env (Finalizers recorded_demo) finalizerName"
    by (simp_all add: still_env_def mem_env_def recorded_demo_def fresh_demo_def demo_bundle_def)
  have 1: "one_run still_env demo_key (Status recorded_demo) ?es (Status recorded_demo)"
    unfolding one_run_def using second live
    by (intro exI [of _ second_world] exI [of _ r] exI [of _ w'] exI [of _ recorded_demo]) simp
  have 2: "polls ?es" by (auto simp: polls_def)
  show ?thesis by (rule polling_runs.more [OF polling_runs.more [OF polling_runs.none 1 2] 1 2])
qed

end
