(* ===== verification/Ctl_Crd.thy ===== *)
theory Ctl_Crd
  imports Ctl_Safety
begin

text \<open>
  The types that the kubebuilder markers of \<open>api/v1alpha1/werfbundle_types.go\<close> give the
  status in the CRD, and that every status update of a run has them. An update with another
  status is one that the API server refuses.
\<close>

section \<open>The type of a status\<close>

text \<open>The enumerations and bounds of the markers; an empty string is omitted by \<open>omitempty\<close>.\<close>

definition crd_status :: "WerfBundleStatus \<Rightarrow> bool" where
  "crd_status st \<longleftrightarrow>
     Phase st \<in> {'''', ''Syncing'', ''Synced'', ''Failed''} \<and>
     LastJobStatus st \<in> {'''', ''Succeeded'', ''Failed'', ''Running''} \<and>
     0 \<le> sint (ConsecutiveFailures st) \<and> sint (ConsecutiveFailures st) \<le> 6"

text \<open>The events that keep to it.\<close>

fun typed_write :: "event \<Rightarrow> bool" where
  "typed_write (EvUpdateStatus b u) = crd_status (Status b)"
| "typed_write _ = True"

lemma typed_writes:
  "list_all p es \<Longrightarrow> (\<And>b u. \<not> p (EvUpdateStatus b u)) \<Longrightarrow> list_all typed_write es"
  unfolding list_all_iff by (metis typed_write.elims(3))

lemma written_crd:
  assumes "written phase wb st" "phase \<in> {PhaseSyncing, PhaseSynced, PhaseFailed}" "crd_status (Status wb)"
  shows "crd_status st"
  using assms by (auto simp: written_def status_frame_def crd_status_def phase_defs)

section \<open>Every handler keeps it\<close>

lemma claimed_crd: "claimed wb tag b \<Longrightarrow> crd_status (Status wb) \<Longrightarrow> crd_status (Status b)"
  by (auto simp: claimed_def intro: written_crd)

lemma running_crd: "crd_status st \<Longrightarrow> crd_status (st\<lparr>ActiveJobName := n, LastJobStatus := JobStatusRunning\<rparr>)"
  by (simp add: crd_status_def job_status_defs)

lemma monitoring_crd: "monitoring wb job tag r es \<Longrightarrow> crd_status (Status wb) \<Longrightarrow> list_all typed_write es"
  by (induction rule: monitoring.induct)
    (auto simp: finished_status_def crd_status_def phase_defs job_status_defs intro: typed_writes)

lemma creation_crd: "creation env wb tag r es \<Longrightarrow> crd_status (Status wb) \<Longrightarrow> list_all typed_write es"
  by (induction rule: creation.induct)
    (auto simp: reads_of_def intro: claimed_crd running_crd typed_writes written_crd [OF _ _ claimed_crd])

lemma handling_crd: "handling env wb tag r es \<Longrightarrow> crd_status (Status wb) \<Longrightarrow> list_all typed_write es"
proof (induction rule: handling.induct)
  case (lost e r es)
  then have "crd_status (Status (forget_job wb))" by (simp add: crd_status_def)
  from creation_crd [OF lost(3) this] show ?case by simp
qed (auto intro: creation_crd monitoring_crd)

lemma polled_crd: "crd_status (Status wb) \<Longrightarrow> crd_status (Status (polled wb etag))"
  by (simp add: polled_def Let_def crd_status_def)

lemma failure_step_crd:
  assumes "failure_step wb e st r u" "crd_status (Status wb)" "sint (ConsecutiveFailures (Status wb)) < 6"
  shows "crd_status st"
proof -
  have "sint (ConsecutiveFailures (Status wb) + 1) = sint (ConsecutiveFailures (Status wb)) + 1"
    using assms(2,3) sint_word_of_int_32 [of "sint (ConsecutiveFailures (Status wb)) + 1"] by (simp add: crd_status_def)
  with assms show ?thesis by (auto simp: failure_step_def crd_status_def phase_defs Let_def split: if_splits)
qed

lemma polling_crd:
  "polling env wb r es \<Longrightarrow> crd_status (Status wb) \<Longrightarrow> sint (ConsecutiveFailures (Status wb)) < 6 \<Longrightarrow>
   list_all typed_write es"
  by (induction rule: polling.induct)
    (auto intro: failure_step_crd handling_crd polled_crd written_crd [OF _ _ polled_crd])

lemma set_target_crd: "crd_status (Status wb) \<Longrightarrow> crd_status (Status (set_target wb))"
  by (simp add: set_target_def crd_status_def)

lemma preflight_crd:
  assumes "preflight env wb x es" "ContainsFinalizer env (Finalizers wb) finalizerName" "crd_status (Status wb)"
  shows "list_all typed_write es \<and>
    (\<forall>wb'. x = Inr wb' \<longrightarrow> crd_status (Status wb') \<and> ConsecutiveFailures (Status wb') = ConsecutiveFailures (Status wb))"
  using assms
  by (induction rule: preflight.induct)
    (auto simp: with_finalizer_def with_target_def with_account_def set_target_def crd_status_def written_def
      status_frame_def phase_defs split: if_splits)

lemma reconciling_crd:
  assumes "reconciling env req r es" "hd es = EvGetBundle req (Inr wb)"
    "ContainsFinalizer env (Finalizers wb) finalizerName" "crd_status (Status wb)"
    "sint (ConsecutiveFailures (Status wb)) < 6"
  shows "list_all typed_write es"
  using assms(1)
proof cases
  case (stopped wb' es')
  then show ?thesis using assms(2-4) preflight_crd [OF stopped(5)] by simp
next
  case (ran wb' wb'' es1 es2)
  then have [simp]: "wb' = wb" using assms(2) by simp
  show ?thesis using preflight_crd [OF ran(5)] polling_crd [OF ran(6)] assms(3-5) by (simp add: ran(1))
qed auto

end
