(* ===== verification/Go_Store.thy ===== *)
theory Go_Store
  imports Op_Prelude
begin

text \<open>
  Go's heap as a store of typed cells, for the functions whose result depends on sharing: the
  generated deep copies. A pointer is an \<open>addr option\<close>, nil being \<open>None\<close>; a slice names its
  backing array and its window. The locale \<open>deep_copy\<close> is the contract of a copying function,
  and the lemmas after it build such functions from those of the parts: pointers, slices,
  structs.
\<close>

section \<open>The store\<close>

type_synonym addr = nat

record 'c store =
  cells :: "addr \<Rightarrow> 'c option"
  lim :: addr

text \<open>The allocator has handed out the addresses below \<open>lim\<close>.\<close>

definition fits :: "'c store \<Rightarrow> bool" where
  "fits s \<longleftrightarrow> (\<forall>a. lim s \<le> a \<longrightarrow> cells s a = None)"

text \<open>\<open>grows s t\<close>: the code from \<open>s\<close> to \<open>t\<close> allocated cells and wrote to no older one.\<close>

definition grows :: "'c store \<Rightarrow> 'c store \<Rightarrow> bool" where
  "grows s t \<longleftrightarrow> lim s \<le> lim t \<and> (\<forall>a < lim s. cells t a = cells s a)"

lemma grows_refl [simp, intro]: "grows s s"
  by (simp add: grows_def)

lemma grows_trans [trans]: "grows s t \<Longrightarrow> grows t u \<Longrightarrow> grows s u"
  by (auto simp: grows_def)

lemma grows_lim: "grows s t \<Longrightarrow> lim s \<le> lim t"
  by (simp add: grows_def)

lemma grows_cell: "grows s t \<Longrightarrow> a < lim s \<Longrightarrow> cells t a = cells s a"
  by (simp add: grows_def)

lemma fits_below: "fits s \<Longrightarrow> cells s a \<noteq> None \<Longrightarrow> a < lim s"
  unfolding fits_def by (meson not_le)

text \<open>A Go type whose values are kept in cells of their own, with its zero value.\<close>

record ('c, 'a) go_type =
  box :: "'a \<Rightarrow> 'c"
  unbox :: "'c \<Rightarrow> 'a option"
  zero_of :: 'a

definition boxes :: "('c, 'a) go_type \<Rightarrow> bool" where
  "boxes T \<longleftrightarrow> (\<forall>x. unbox T (box T x) = Some x)"

text \<open>\<open>new(T)\<close>, reading through a pointer and writing through one. Go's types exclude that a
  pointer of type \<open>*T\<close> leads to a cell of another type; such a read is the zero value here.\<close>

definition alloc :: "'c \<Rightarrow> ('c store, addr) state" where
  "alloc c = State (\<lambda>s. (lim s, s\<lparr>cells := (cells s)(lim s \<mapsto> c), lim := Suc (lim s)\<rparr>))"

definition new :: "('c, 'a) go_type \<Rightarrow> ('c store, addr) state" where
  "new T = alloc (box T (zero_of T))"

definition contents :: "('c, 'a) go_type \<Rightarrow> 'c store \<Rightarrow> addr \<Rightarrow> 'a option" where
  "contents T s a = Option.bind (cells s a) (unbox T)"

definition load :: "('c, 'a) go_type \<Rightarrow> addr \<Rightarrow> ('c store, 'a) state" where
  "load T a = State (\<lambda>s. (case contents T s a of Some x \<Rightarrow> x | None \<Rightarrow> zero_of T, s))"

definition assign :: "('c, 'a) go_type \<Rightarrow> addr \<Rightarrow> 'a \<Rightarrow> ('c store, unit) state" where
  "assign T a x = State (\<lambda>s. ((), s\<lparr>cells := (cells s)(a \<mapsto> box T x)\<rparr>))"

lemma run_alloc [simp]:
  "run_state (alloc c) s = (lim s, s\<lparr>cells := (cells s)(lim s \<mapsto> c), lim := Suc (lim s)\<rparr>)"
  by (simp add: alloc_def)

lemma run_new [simp]:
  "run_state (new T) s = (lim s, s\<lparr>cells := (cells s)(lim s \<mapsto> box T (zero_of T)), lim := Suc (lim s)\<rparr>)"
  by (simp add: new_def)

lemma run_load [simp]:
  "run_state (load T a) s = (case contents T s a of Some x \<Rightarrow> x | None \<Rightarrow> zero_of T, s)"
  by (simp add: load_def)

lemma run_assign [simp]:
  "run_state (assign T a x) s = ((), s\<lparr>cells := (cells s)(a \<mapsto> box T x)\<rparr>)"
  by (simp add: assign_def)

lemma contents_local: "cells t a = cells s a \<Longrightarrow> contents T t a = contents T s a"
  by (simp add: contents_def)

lemma contents_cell: "contents T s a = Some x \<Longrightarrow> cells s a \<noteq> None"
  by (cases "cells s a") (simp_all add: contents_def)

lemma contents_boxed: "boxes T \<Longrightarrow> cells s a = Some (box T x) \<Longrightarrow> contents T s a = Some x"
  by (simp add: contents_def boxes_def)

lemma grows_alloc: "grows s (s\<lparr>cells := (cells s)(lim s \<mapsto> c), lim := Suc (lim s)\<rparr>)"
  by (auto simp: grows_def)

lemma fits_alloc: "fits s \<Longrightarrow> fits (s\<lparr>cells := (cells s)(lim s \<mapsto> c), lim := Suc (lim s)\<rparr>)"
  by (auto simp: fits_def)

lemma grows_write: "grows s t \<Longrightarrow> lim s \<le> a \<Longrightarrow> grows s (t\<lparr>cells := (cells t)(a \<mapsto> c)\<rparr>)"
  by (auto simp: grows_def)

lemma fits_write: "fits t \<Longrightarrow> a < lim t \<Longrightarrow> fits (t\<lparr>cells := (cells t)(a \<mapsto> c)\<rparr>)"
  by (auto simp: fits_def)

section \<open>The contract of a deep copy\<close>

text \<open>
  A copying function takes the value \<open>*in\<close> and returns what it leaves in \<open>*out\<close>, with the
  store it leaves. \<open>view s x\<close> is the tree of plain values that \<open>x\<close> stands for in \<open>s\<close>, and
  \<open>reach s x\<close> the addresses it reads for that. The contract: the copy has the same tree,
  reaches only new cells, and the old cells are as they were. The other two laws say that
  tree and reach are those of \<open>reach s x\<close> alone, and that no pointer dangles.
\<close>

locale deep_copy =
  fixes DeepCopyInto :: "'a \<Rightarrow> ('c store, 'a) state"
    and view :: "'c store \<Rightarrow> 'a \<Rightarrow> 'v option"
    and reach :: "'c store \<Rightarrow> 'a \<Rightarrow> addr set"
  assumes copies: "fits s \<Longrightarrow> view s x = Some v \<Longrightarrow> run_state (DeepCopyInto x) s = (y, s') \<Longrightarrow>
      fits s' \<and> grows s s' \<and> view s' y = Some v \<and> reach s' y \<subseteq> {lim s..<lim s'}"
    and reads_reach: "view s x = Some v \<Longrightarrow> \<forall>a \<in> reach s x. cells t a = cells s a \<Longrightarrow>
      view t x = Some v \<and> reach t x = reach s x"
    and no_dangling: "view s x = Some v \<Longrightarrow> a \<in> reach s x \<Longrightarrow> cells s a \<noteq> None"
begin

lemma reach_below: "fits s \<Longrightarrow> view s x = Some v \<Longrightarrow> a \<in> reach s x \<Longrightarrow> a < lim s"
  using no_dangling fits_below by metis

lemma kept_when_growing:
  "fits s \<Longrightarrow> view s x = Some v \<Longrightarrow> grows s t \<Longrightarrow> view t x = Some v \<and> reach t x = reach s x"
  by (intro reads_reach) (auto intro: grows_cell reach_below)

lemma original_kept:
  assumes "fits s" "view s x = Some v" "run_state (DeepCopyInto x) s = (y, s')"
  shows "view s' x = Some v \<and> reach s' x = reach s x \<and> reach s' x \<inter> reach s' y = {}"
proof -
  note c = copies [OF assms]
  then have k: "view s' x = Some v \<and> reach s' x = reach s x"
    using kept_when_growing [OF assms(1,2)] by blast
  have "reach s x \<subseteq> {..<lim s}" using reach_below [OF assms(1,2)] by blast
  with c k show ?thesis by fastforce
qed

text \<open>After the copy, a write through the one is never seen through the other.\<close>

lemma copy_unaffected:
  assumes "fits s" "view s x = Some v" "run_state (DeepCopyInto x) s = (y, s')"
    "\<forall>a. lim s \<le> a \<longrightarrow> cells t a = cells s' a"
  shows "view t y = Some v"
  using reads_reach [of s' y v t] copies [OF assms(1-3)] assms(4) by fastforce

lemma original_unaffected:
  assumes "fits s" "view s x = Some v" "run_state (DeepCopyInto x) s = (y, s')"
    "\<forall>a < lim s. cells t a = cells s' a"
  shows "view t x = Some v"
  using reads_reach [of s x v t] copies [OF assms(1-3)] assms(2,4) reach_below [OF assms(1,2)] grows_cell by metis

lemma independent:
  assumes "fits s" "view s x = Some v" "run_state (DeepCopyInto x) s = (y, s')"
  shows "grows s s' \<and> view s' y = Some v \<and> view s' x = Some v \<and>
    (\<forall>t. (\<forall>a. lim s \<le> a \<longrightarrow> cells t a = cells s' a) \<longrightarrow> view t y = Some v) \<and>
    (\<forall>t. (\<forall>a < lim s. cells t a = cells s' a) \<longrightarrow> view t x = Some v)"
  using copies [OF assms] original_kept [OF assms] copy_unaffected [OF assms] original_unaffected [OF assms] by blast

end

section \<open>Copies of compound values\<close>

text \<open>A value without pointers is copied by \<open>*out = *in\<close> alone.\<close>

lemma plain_copy: "deep_copy State_Monad.return (\<lambda>s x. Some x) (\<lambda>s x. {})"
  by unfold_locales (auto simp: fits_def grows_def)

text \<open>\<open>*out = new(T); **out = **in\<close>: the cell of a type without pointers.\<close>

definition clone :: "('c, 'a) go_type \<Rightarrow> addr \<Rightarrow> ('c store, addr) state" where
  "clone T p = do { q \<leftarrow> new T; x \<leftarrow> load T p; assign T q x; State_Monad.return q }"

lemma clone_copy:
  fixes T :: "('c, 'a) go_type"
  assumes "boxes T"
  shows "deep_copy (clone T) (contents T) (\<lambda>s a. {a})"
proof unfold_locales
  fix s a v y s'
  assume h: "fits s" "contents T s a = Some v" "run_state (clone T a) s = (y, s')"
  have "a < lim s" using h(1) contents_cell [OF h(2)] by (rule fits_below)
  then have "contents T (s\<lparr>cells := (cells s)(lim s \<mapsto> box T (zero_of T)), lim := Suc (lim s)\<rparr>) a = Some v"
    using h(2) by (simp add: contents_def)
  with h(3) have "y = lim s" "s' = s\<lparr>cells := (cells s)(lim s \<mapsto> box T v), lim := Suc (lim s)\<rparr>"
    by (auto simp: clone_def)
  with h(1) assms show "fits s' \<and> grows s s' \<and> contents T s' y = Some v \<and> {y} \<subseteq> {lim s..<lim s'}"
    by (auto simp: fits_alloc grows_alloc contents_def boxes_def)
next
  fix s t :: "'c store" and a v
  assume "contents T s a = Some v" "\<forall>b \<in> {a}. cells t b = cells s b"
  then show "contents T t a = Some v \<and> {a} = {a}" by (simp add: contents_def)
next
  fix s a v b
  assume "contents T s a = Some v" "b \<in> {a}"
  then show "cells s b \<noteq> None" using contents_cell by fastforce
qed

text \<open>A nil pointer or slice is copied by \<open>*out = *in\<close>; the code looks behind one that is not nil.\<close>

definition unless_nil :: "'p option \<Rightarrow> ('p \<Rightarrow> ('s, 'p) state) \<Rightarrow> ('s, 'p option) state" where
  "unless_nil p f = (case p of None \<Rightarrow> State_Monad.return None
     | Some a \<Rightarrow> do { q \<leftarrow> f a; State_Monad.return (Some q) })"

definition view_ptr :: "('s \<Rightarrow> 'p \<Rightarrow> 'v option) \<Rightarrow> 's \<Rightarrow> 'p option \<Rightarrow> 'v option option" where
  "view_ptr v s p = (case p of None \<Rightarrow> Some None | Some a \<Rightarrow> map_option Some (v s a))"

definition reach_ptr :: "('s \<Rightarrow> 'p \<Rightarrow> addr set) \<Rightarrow> 's \<Rightarrow> 'p option \<Rightarrow> addr set" where
  "reach_ptr r s p = (case p of None \<Rightarrow> {} | Some a \<Rightarrow> r s a)"

lemma nilable_copy:
  fixes f :: "'p \<Rightarrow> ('c store, 'p) state"
  assumes c: "deep_copy f v r"
  shows "deep_copy (\<lambda>p. unless_nil p f) (view_ptr v) (reach_ptr r)"
proof unfold_locales
  fix s p w q s'
  assume h: "fits s" "view_ptr v s p = Some w" "run_state (unless_nil p f) s = (q, s')"
  show "fits s' \<and> grows s s' \<and> view_ptr v s' q = Some w \<and> reach_ptr r s' q \<subseteq> {lim s..<lim s'}"
  proof (cases p)
    case None
    with h show ?thesis by (auto simp: unless_nil_def view_ptr_def reach_ptr_def)
  next
    case (Some a)
    obtain b where b: "run_state (f a) s = (b, s')" "q = Some b"
      using h(3) Some by (auto simp: unless_nil_def split: prod.splits)
    obtain x where "v s a = Some x" "w = Some x" using h(2) Some by (auto simp: view_ptr_def)
    with deep_copy.copies [OF c h(1) _ b(1)] b(2) show ?thesis by (simp add: view_ptr_def reach_ptr_def)
  qed
next
  fix s t :: "'c store" and p w
  assume h: "view_ptr v s p = Some w" "\<forall>a \<in> reach_ptr r s p. cells t a = cells s a"
  show "view_ptr v t p = Some w \<and> reach_ptr r t p = reach_ptr r s p"
  proof (cases p)
    case None
    with h(1) show ?thesis by (simp add: view_ptr_def reach_ptr_def)
  next
    case (Some a)
    with h obtain x where "v s a = Some x" "w = Some x" "\<forall>b \<in> r s a. cells t b = cells s b"
      by (auto simp: view_ptr_def reach_ptr_def)
    with deep_copy.reads_reach [OF c, of s a x t] Some show ?thesis by (simp add: view_ptr_def reach_ptr_def)
  qed
next
  fix s :: "'c store" and p w a
  assume h: "view_ptr v s p = Some w" "a \<in> reach_ptr r s p"
  then obtain b x where "v s b = Some x" "a \<in> r s b"
    by (cases p) (auto simp: view_ptr_def reach_ptr_def)
  then show "cells s a \<noteq> None" by (rule deep_copy.no_dangling [OF c])
qed

text \<open>Two parts of a struct, copied one after the other.\<close>

definition both :: "('a \<Rightarrow> ('s, 'a) state) \<Rightarrow> ('b \<Rightarrow> ('s, 'b) state) \<Rightarrow> 'a \<times> 'b \<Rightarrow> ('s, 'a \<times> 'b) state" where
  "both f g z = do { x \<leftarrow> f (fst z); y \<leftarrow> g (snd z); State_Monad.return (x, y) }"

definition view_both :: "('s \<Rightarrow> 'a \<Rightarrow> 'v option) \<Rightarrow> ('s \<Rightarrow> 'b \<Rightarrow> 'w option) \<Rightarrow> 's \<Rightarrow> 'a \<times> 'b \<Rightarrow> ('v \<times> 'w) option" where
  "view_both v w s z = (case (v s (fst z), w s (snd z)) of (Some x, Some y) \<Rightarrow> Some (x, y) | _ \<Rightarrow> None)"

definition reach_both :: "('s \<Rightarrow> 'a \<Rightarrow> addr set) \<Rightarrow> ('s \<Rightarrow> 'b \<Rightarrow> addr set) \<Rightarrow> 's \<Rightarrow> 'a \<times> 'b \<Rightarrow> addr set" where
  "reach_both r q s z = r s (fst z) \<union> q s (snd z)"

lemma view_both_Some:
  "view_both v w s z = Some xy \<longleftrightarrow> v s (fst z) = Some (fst xy) \<and> w s (snd z) = Some (snd xy)"
  by (cases xy) (auto simp: view_both_def split: option.splits)

lemma both_copy:
  fixes f :: "'a \<Rightarrow> ('c store, 'a) state"
  assumes c: "deep_copy f v r" and d: "deep_copy g w q"
  shows "deep_copy (both f g) (view_both v w) (reach_both r q)"
proof unfold_locales
  fix s z xy z' s'
  assume h: "fits s" "view_both v w s z = Some xy" "run_state (both f g z) s = (z', s')"
  then obtain x1 s1 y1 where m: "run_state (f (fst z)) s = (x1, s1)" "run_state (g (snd z)) s1 = (y1, s')"
    "z' = (x1, y1)" by (auto simp: both_def split: prod.splits)
  from h(2) have vw: "v s (fst z) = Some (fst xy)" "w s (snd z) = Some (snd xy)"
    by (simp_all add: view_both_Some)
  from deep_copy.copies [OF c h(1) vw(1) m(1)]
  have 1: "fits s1" "grows s s1" "v s1 x1 = Some (fst xy)" "r s1 x1 \<subseteq> {lim s..<lim s1}" by auto
  from deep_copy.kept_when_growing [OF d h(1) vw(2) 1(2)] have "w s1 (snd z) = Some (snd xy)" by simp
  from deep_copy.copies [OF d 1(1) this m(2)]
  have 2: "fits s'" "grows s1 s'" "w s' y1 = Some (snd xy)" "q s' y1 \<subseteq> {lim s1..<lim s'}" by auto
  from deep_copy.kept_when_growing [OF c 1(1,3) 2(2)] have 3: "v s' x1 = Some (fst xy)" "r s' x1 = r s1 x1" by auto
  have "lim s \<le> lim s1" "lim s1 \<le> lim s'" using 1(2) 2(2) grows_lim by auto
  then have "reach_both r q s' z' \<subseteq> {lim s..<lim s'}"
    using 1(4) 2(4) 3(2) unfolding reach_both_def m(3) by fastforce
  with 1 2 3 m(3) show "fits s' \<and> grows s s' \<and> view_both v w s' z' = Some xy \<and> reach_both r q s' z' \<subseteq> {lim s..<lim s'}"
    by (simp add: view_both_Some grows_trans [OF 1(2) 2(2)])
next
  fix s t :: "'c store" and z xy
  assume "view_both v w s z = Some xy" "\<forall>a \<in> reach_both r q s z. cells t a = cells s a"
  then show "view_both v w t z = Some xy \<and> reach_both r q t z = reach_both r q s z"
    using deep_copy.reads_reach [OF c, of s "fst z" _ t] deep_copy.reads_reach [OF d, of s "snd z" _ t]
    by (simp add: view_both_Some reach_both_def)
next
  fix s z xy a
  assume "view_both v w s z = Some xy" "a \<in> reach_both r q s z"
  then show "cells s a \<noteq> None"
    using deep_copy.no_dangling [OF c] deep_copy.no_dangling [OF d]
    unfolding view_both_Some reach_both_def by blast
qed

text \<open>A struct is copied by copying its part \<open>get\<close> and putting the copy back.\<close>

lemma part_copy:
  fixes f :: "'a \<Rightarrow> ('c store, 'a) state"
  assumes c: "deep_copy f v r" and get: "\<And>x y. get (upd y x) = y"
    and mk: "\<And>x y. mk (upd y x) = mk x"
  shows "deep_copy (\<lambda>x. do { y \<leftarrow> f (get x); State_Monad.return (upd y x) })
    (\<lambda>s x. map_option (mk x) (v s (get x))) (\<lambda>s x. r s (get x))"
proof unfold_locales
  fix s x w x' s'
  assume h: "fits s" "map_option (mk x) (v s (get x)) = Some w"
    "run_state (do { y \<leftarrow> f (get x); State_Monad.return (upd y x) }) s = (x', s')"
  then obtain u y where "v s (get x) = Some u" "w = mk x u" "run_state (f (get x)) s = (y, s')" "x' = upd y x"
    by (auto split: prod.splits)
  with deep_copy.copies [OF c h(1), of "get x" u y s']
  show "fits s' \<and> grows s s' \<and> map_option (mk x') (v s' (get x')) = Some w \<and> r s' (get x') \<subseteq> {lim s..<lim s'}"
    by (simp add: get mk)
next
  fix s t :: "'c store" and x w
  assume h: "map_option (mk x) (v s (get x)) = Some w" "\<forall>a \<in> r s (get x). cells t a = cells s a"
  from h(1) obtain u where "v s (get x) = Some u" "w = mk x u" by auto
  with deep_copy.reads_reach [OF c, of s "get x" u t] h(2)
  show "map_option (mk x) (v t (get x)) = Some w \<and> r t (get x) = r s (get x)" by simp
next
  fix s :: "'c store" and x w a
  assume h: "map_option (mk x) (v s (get x)) = Some w" "a \<in> r s (get x)"
  from h(1) obtain u where "v s (get x) = Some u" by auto
  from deep_copy.no_dangling [OF c this h(2)] show "cells s a \<noteq> None" .
qed
section \<open>Slices\<close>

text \<open>A slice is a window of a backing array, which is a cell of its own; the array of a type
  \<open>[]T\<close> is kept as a list.\<close>

record slice =
  backing :: addr
  start :: nat
  count :: nat

definition window :: "('c, 'a list) go_type \<Rightarrow> 'c store \<Rightarrow> slice \<Rightarrow> 'a list option" where
  "window T s sl = (case contents T s (backing sl) of
       Some xs \<Rightarrow> if start sl + count sl \<le> length xs then Some (take (count sl) (drop (start sl) xs)) else None
     | None \<Rightarrow> None)"

text \<open>\<open>make([]T, n)\<close>, the element \<open>(*in)[i]\<close>, the write to \<open>(*out)[i]\<close> and the loop over the
  indices of a slice.\<close>

definition make_slice :: "('c, 'a list) go_type \<Rightarrow> 'a \<Rightarrow> nat \<Rightarrow> ('c store, slice) state" where
  "make_slice T z n = do { q \<leftarrow> alloc (box T (replicate n z));
     State_Monad.return \<lparr>backing = q, start = 0, count = n\<rparr> }"

definition index_slice :: "('c, 'a list) go_type \<Rightarrow> slice \<Rightarrow> nat \<Rightarrow> ('c store, 'a) state" where
  "index_slice T sl i = do { xs \<leftarrow> load T (backing sl); State_Monad.return (xs ! (start sl + i)) }"

definition set_slice :: "('c, 'a list) go_type \<Rightarrow> slice \<Rightarrow> nat \<Rightarrow> 'a \<Rightarrow> ('c store, unit) state" where
  "set_slice T sl i x = do { xs \<leftarrow> load T (backing sl); assign T (backing sl) (xs[start sl + i := x]) }"

primrec for_range :: "nat \<Rightarrow> nat \<Rightarrow> (nat \<Rightarrow> ('s, unit) state) \<Rightarrow> ('s, unit) state" where
  "for_range i 0 body = State_Monad.return ()"
| "for_range i (Suc k) body = do { _ \<leftarrow> body i; for_range (Suc i) k body }"

definition copy_element :: "('c, 'a list) go_type \<Rightarrow> ('a \<Rightarrow> ('c store, 'a) state) \<Rightarrow> slice \<Rightarrow> slice \<Rightarrow> nat \<Rightarrow>
    ('c store, unit) state" where
  "copy_element T f sl out i = do { x \<leftarrow> index_slice T sl i; y \<leftarrow> f x; set_slice T out i y }"

definition copy_slice :: "('c, 'a list) go_type \<Rightarrow> 'a \<Rightarrow> ('a \<Rightarrow> ('c store, 'a) state) \<Rightarrow> slice \<Rightarrow> ('c store, slice) state" where
  "copy_slice T z f sl = do { out \<leftarrow> make_slice T z (count sl);
     _ \<leftarrow> for_range 0 (count sl) (copy_element T f sl out);
     State_Monad.return out }"

definition view_slice :: "('c, 'a list) go_type \<Rightarrow> ('c store \<Rightarrow> 'a \<Rightarrow> 'v option) \<Rightarrow> 'c store \<Rightarrow> slice \<Rightarrow> 'v list option" where
  "view_slice T v s sl = (case window T s sl of Some xs \<Rightarrow> those (map (v s) xs) | None \<Rightarrow> None)"

definition reach_slice :: "('c, 'a list) go_type \<Rightarrow> ('c store \<Rightarrow> 'a \<Rightarrow> addr set) \<Rightarrow> 'c store \<Rightarrow> slice \<Rightarrow> addr set" where
  "reach_slice T r s sl = insert (backing sl)
     (case window T s sl of Some xs \<Rightarrow> \<Union> (r s ` set xs) | None \<Rightarrow> {})"

lemma those_Some: "those ys = Some zs \<longleftrightarrow> ys = map Some zs"
  by (induction ys arbitrary: zs) (auto split: option.splits)

lemma view_slice_Some:
  "view_slice T v s sl = Some vs \<longleftrightarrow>
    (\<exists>xs. window T s sl = Some xs \<and> length xs = length vs \<and> (\<forall>i < length vs. v s (xs ! i) = Some (vs ! i)))"
  by (auto simp: view_slice_def those_Some list_eq_iff_nth_eq split: option.splits)

lemma window_local: "cells t (backing sl) = cells s (backing sl) \<Longrightarrow> window T t sl = window T s sl"
  using contents_local [of t "backing sl" s T] by (simp add: window_def)

lemma window_Some: "window T s sl = Some xs \<Longrightarrow> \<exists>as. contents T s (backing sl) = Some as \<and>
    length xs = count sl \<and> (\<forall>i < count sl. as ! (start sl + i) = xs ! i)"
proof -
  assume "window T s sl = Some xs"
  then obtain as where "contents T s (backing sl) = Some as" "start sl + count sl \<le> length as"
    "xs = take (count sl) (drop (start sl) as)"
    unfolding window_def by (cases "contents T s (backing sl)") (simp_all split: if_split_asm)
  then show ?thesis by simp
qed

text \<open>After \<open>i\<close> rounds: the elements below \<open>i\<close> are copies that live above the new array \<open>q\<close>.\<close>

definition filled :: "('c, 'a list) go_type \<Rightarrow> ('c store \<Rightarrow> 'a \<Rightarrow> 'v option) \<Rightarrow> ('c store \<Rightarrow> 'a \<Rightarrow> addr set) \<Rightarrow>
    'c store \<Rightarrow> 'v list \<Rightarrow> nat \<Rightarrow> 'c store \<Rightarrow> bool" where
  "filled T v r s0 vs i s \<longleftrightarrow> fits s \<and> grows s0 s \<and> lim s0 < lim s \<and>
     (\<exists>ys. contents T s (lim s0) = Some ys \<and> length ys = length vs \<and>
        (\<forall>j < i. v s (ys ! j) = Some (vs ! j) \<and> r s (ys ! j) \<subseteq> {lim s0<..<lim s}))"

lemma copy_element_filled:
  fixes f :: "'a \<Rightarrow> ('c store, 'a) state"
  assumes c: "deep_copy f v r" and T: "boxes T" and s0: "fits s0"
    and sl: "view_slice T v s0 sl = Some vs" and out: "out = \<lparr>backing = lim s0, start = 0, count = length vs\<rparr>"
    and i: "i < length vs" and f: "filled T v r s0 vs i s" and run: "run_state (copy_element T f sl out i) s = (u, s')"
  shows "filled T v r s0 vs (Suc i) s'"
proof -
  obtain xs where xs: "window T s0 sl = Some xs" "length xs = length vs" "v s0 (xs ! i) = Some (vs ! i)"
    using sl i unfolding view_slice_Some by blast
  obtain as where as: "contents T s0 (backing sl) = Some as" "as ! (start sl + i) = xs ! i"
    using window_Some [OF xs(1)] i xs(2) by auto
  obtain ys where ys: "contents T s (lim s0) = Some ys" "length ys = length vs"
    "\<forall>j < i. v s (ys ! j) = Some (vs ! j) \<and> r s (ys ! j) \<subseteq> {lim s0<..<lim s}"
    and fs: "fits s" "grows s0 s" "lim s0 < lim s"
    using f unfolding filled_def by blast
  have "backing sl < lim s0" using fits_below [OF s0 contents_cell [OF as(1)]] .
  then have x: "contents T s (backing sl) = Some as"
    using as(1) contents_local [OF grows_cell [OF fs(2)]] by metis
  have vx: "v s (xs ! i) = Some (vs ! i)" using deep_copy.kept_when_growing [OF c s0 xs(3) fs(2)] by simp
  obtain y s1 where y: "run_state (f (xs ! i)) s = (y, s1)" by (meson surj_pair)
  from deep_copy.copies [OF c fs(1) vx y]
  have s1: "fits s1" "grows s s1" "v s1 y = Some (vs ! i)" "r s1 y \<subseteq> {lim s..<lim s1}" by auto
  have y1: "contents T s1 (lim s0) = Some ys"
    using ys(1) contents_local [OF grows_cell [OF s1(2) fs(3)]] by metis
  have s': "s' = s1\<lparr>cells := (cells s1)(lim s0 \<mapsto> box T (ys[i := y]))\<rparr>"
    using run x as(2) y y1 by (auto simp: copy_element_def index_slice_def set_slice_def out)
  have lims: "lim s0 < lim s1" "lim s' = lim s1" using fs(3) grows_lim [OF s1(2)] s' by auto
  have kept: "v s' z = Some w \<and> r s' z = r s1 z" if "v s1 z = Some w" "lim s0 \<notin> r s1 z" for z w
    by (rule deep_copy.reads_reach [OF c that(1)]) (use that(2) s' in auto)
  have new: "v s' y = Some (vs ! i) \<and> r s' y \<subseteq> {lim s0<..<lim s'}"
    using kept [OF s1(3)] s1(4) fs(3) lims by fastforce
  have old: "v s' (ys ! j) = Some (vs ! j) \<and> r s' (ys ! j) \<subseteq> {lim s0<..<lim s'}" if "j < i" for j
  proof -
    have "v s1 (ys ! j) = Some (vs ! j) \<and> r s1 (ys ! j) = r s (ys ! j)"
      using deep_copy.kept_when_growing [OF c fs(1) _ s1(2)] ys(3) that by blast
    moreover have "r s (ys ! j) \<subseteq> {lim s0<..<lim s}" using ys(3) that by blast
    ultimately show ?thesis using kept [of "ys ! j" "vs ! j"] lims grows_lim [OF s1(2)] by fastforce
  qed
  have "contents T s' (lim s0) = Some (ys[i := y])"
    by (rule contents_boxed [OF T]) (simp add: s')
  moreover have "fits s'" unfolding s' by (rule fits_write [OF s1(1) lims(1)])
  moreover have "grows s0 s'" unfolding s' by (rule grows_write [OF grows_trans [OF fs(2) s1(2)]]) simp
  moreover have "v s' (ys[i := y] ! j) = Some (vs ! j) \<and> r s' (ys[i := y] ! j) \<subseteq> {lim s0<..<lim s'}" if "j < Suc i" for j
    using that new old [of j] i ys(2) by (cases "j = i") auto
  moreover have "length (ys[i := y]) = length vs" "lim s0 < lim s'" using ys(2) lims by simp_all
  ultimately show ?thesis unfolding filled_def by blast
qed

lemma for_range_filled:
  fixes f :: "'a \<Rightarrow> ('c store, 'a) state"
  assumes c: "deep_copy f v r" and T: "boxes T" and s0: "fits s0"
    and sl: "view_slice T v s0 sl = Some vs" and out: "out = \<lparr>backing = lim s0, start = 0, count = length vs\<rparr>"
  shows "i + k = length vs \<Longrightarrow> filled T v r s0 vs i s \<Longrightarrow>
    run_state (for_range i k (copy_element T f sl out)) s = (u, s') \<Longrightarrow> filled T v r s0 vs (length vs) s'"
proof (induction k arbitrary: i s)
  case (Suc k)
  obtain w s1 where s1: "run_state (copy_element T f sl out i) s = (w, s1)" by (meson surj_pair)
  have "filled T v r s0 vs (Suc i) s1"
    using copy_element_filled [OF c T s0 sl out _ Suc.prems(2) s1] Suc.prems(1) by simp
  with Suc.IH [of "Suc i" s1] Suc.prems(1,3) s1 show ?case by simp
qed simp

lemma slice_copy:
  fixes f :: "'a \<Rightarrow> ('c store, 'a) state"
  assumes c: "deep_copy f v r" and T: "boxes T"
  shows "deep_copy (copy_slice T z f) (view_slice T v) (reach_slice T r)"
proof unfold_locales
  fix s :: "'c store" and sl vs out s'
  assume h: "fits s" "view_slice T v s sl = Some vs" "run_state (copy_slice T z f sl) s = (out, s')"
  obtain xs where "window T s sl = Some xs" "length xs = length vs" using h(2) unfolding view_slice_Some by blast
  with window_Some have n: "count sl = length vs" by fastforce
  define s1 where "s1 = s\<lparr>cells := (cells s)(lim s \<mapsto> box T (replicate (count sl) z)), lim := Suc (lim s)\<rparr>"
  have out: "out = \<lparr>backing = lim s, start = 0, count = length vs\<rparr>"
    and loop: "run_state (for_range 0 (length vs) (copy_element T f sl out)) s1 = ((), s')"
    using h(3) by (auto simp: copy_slice_def make_slice_def s1_def n split: prod.splits)
  have "contents T s1 (lim s) = Some (replicate (count sl) z)"
    by (rule contents_boxed [OF T]) (simp add: s1_def)
  then have "filled T v r s vs 0 s1"
    unfolding filled_def using n fits_alloc [OF h(1)] grows_alloc by (auto simp: s1_def)
  from for_range_filled [OF c T h(1,2) out _ this loop] have "filled T v r s vs (length vs) s'" by simp
  then obtain ys where ys: "contents T s' (lim s) = Some ys" "length ys = length vs"
    "\<forall>j < length vs. v s' (ys ! j) = Some (vs ! j) \<and> r s' (ys ! j) \<subseteq> {lim s<..<lim s'}"
    "fits s'" "grows s s'" "lim s < lim s'" unfolding filled_def by blast
  then have w: "window T s' out = Some ys" by (simp add: window_def out)
  have "reach_slice T r s' out \<subseteq> {lim s..<lim s'}"
  proof
    fix a
    assume "a \<in> reach_slice T r s' out"
    then consider "a = lim s" | y where "y \<in> set ys" "a \<in> r s' y" by (auto simp: reach_slice_def w) (simp add: out)
    then show "a \<in> {lim s..<lim s'}"
    proof cases
      case 2
      then obtain j where "j < length vs" "y = ys ! j" using ys(2) by (metis in_set_conv_nth)
      with ys(3) 2 show ?thesis by (meson atLeastLessThan_iff greaterThanLessThan_iff less_imp_le subsetD)
    qed (use ys(6) in simp)
  qed
  with ys w show "fits s' \<and> grows s s' \<and> view_slice T v s' out = Some vs \<and> reach_slice T r s' out \<subseteq> {lim s..<lim s'}"
    unfolding view_slice_Some by blast
next
  fix s t :: "'c store" and sl vs
  assume h: "view_slice T v s sl = Some vs" "\<forall>a \<in> reach_slice T r s sl. cells t a = cells s a"
  then obtain xs where xs: "window T s sl = Some xs" "length xs = length vs"
    "\<forall>i < length vs. v s (xs ! i) = Some (vs ! i)" unfolding view_slice_Some by blast
  have "cells t (backing sl) = cells s (backing sl)" using h(2) by (simp add: reach_slice_def)
  then have w: "window T t sl = Some xs" using xs(1) window_local by metis
  have e: "v t (xs ! i) = Some (vs ! i) \<and> r t (xs ! i) = r s (xs ! i)" if "i < length vs" for i
  proof (rule deep_copy.reads_reach [OF c])
    show "\<forall>a \<in> r s (xs ! i). cells t a = cells s a"
      using h(2) xs(1,2) nth_mem [of i xs] that by (auto simp: reach_slice_def)
  qed (use xs(3) that in simp)
  then have "\<Union> (r t ` set xs) = \<Union> (r s ` set xs)"
    using xs(2) by (metis (no_types, lifting) SUP_cong in_set_conv_nth)
  with e w xs show "view_slice T v t sl = Some vs \<and> reach_slice T r t sl = reach_slice T r s sl"
    unfolding view_slice_Some reach_slice_def by auto
next
  fix s :: "'c store" and sl vs a
  assume h: "view_slice T v s sl = Some vs" "a \<in> reach_slice T r s sl"
  then obtain xs where xs: "window T s sl = Some xs" "length xs = length vs"
    "\<forall>i < length vs. v s (xs ! i) = Some (vs ! i)" unfolding view_slice_Some by blast
  show "cells s a \<noteq> None"
  proof (cases "a = backing sl")
    case True
    with window_Some [OF xs(1)] contents_cell show ?thesis by metis
  next
    case False
    with h(2) xs(1) obtain x where "x \<in> set xs" "a \<in> r s x" by (auto simp: reach_slice_def)
    with xs(2,3) deep_copy.no_dangling [OF c] show ?thesis by (metis in_set_conv_nth)
  qed
qed

section \<open>Boxed values\<close>

text \<open>\<open>DeepCopy\<close> of a pointer: \<open>out := new(T); in.DeepCopyInto(out); return out\<close>.\<close>

definition copy_box :: "('c, 'a) go_type \<Rightarrow> ('a \<Rightarrow> ('c store, 'a) state) \<Rightarrow> addr \<Rightarrow> ('c store, addr) state" where
  "copy_box T f p = do { out \<leftarrow> new T; x \<leftarrow> load T p; y \<leftarrow> f x; assign T out y; State_Monad.return out }"

definition view_box :: "('c, 'a) go_type \<Rightarrow> ('c store \<Rightarrow> 'a \<Rightarrow> 'v option) \<Rightarrow> 'c store \<Rightarrow> addr \<Rightarrow> 'v option" where
  "view_box T v s a = (case contents T s a of Some x \<Rightarrow> v s x | None \<Rightarrow> None)"

definition reach_box :: "('c, 'a) go_type \<Rightarrow> ('c store \<Rightarrow> 'a \<Rightarrow> addr set) \<Rightarrow> 'c store \<Rightarrow> addr \<Rightarrow> addr set" where
  "reach_box T r s a = insert a (case contents T s a of Some x \<Rightarrow> r s x | None \<Rightarrow> {})"

lemma view_box_Some: "view_box T v s a = Some w \<longleftrightarrow> (\<exists>x. contents T s a = Some x \<and> v s x = Some w)"
  by (auto simp: view_box_def split: option.splits)

lemma box_copy:
  fixes f :: "'a \<Rightarrow> ('c store, 'a) state"
  assumes c: "deep_copy f v r" and T: "boxes T"
  shows "deep_copy (copy_box T f) (view_box T v) (reach_box T r)"
proof unfold_locales
  fix s :: "'c store" and p w q s'
  assume h: "fits s" "view_box T v s p = Some w" "run_state (copy_box T f p) s = (q, s')"
  obtain x where x: "contents T s p = Some x" "v s x = Some w" using h(2) unfolding view_box_Some by blast
  define s1 where "s1 = s\<lparr>cells := (cells s)(lim s \<mapsto> box T (zero_of T)), lim := Suc (lim s)\<rparr>"
  have s1: "fits s1" "grows s s1" "lim s1 = Suc (lim s)"
    using fits_alloc [OF h(1)] grows_alloc by (auto simp: s1_def)
  have x1: "contents T s1 p = Some x"
    using x(1) contents_local [OF grows_cell [OF s1(2) fits_below [OF h(1) contents_cell [OF x(1)]]]] by metis
  obtain y s2 where y: "run_state (f x) s1 = (y, s2)" by (meson surj_pair)
  have run: "q = lim s" "s' = s2\<lparr>cells := (cells s2)(lim s \<mapsto> box T y)\<rparr>"
    using h(3) x1 y by (auto simp: copy_box_def s1_def [symmetric] split: prod.splits)
  have "v s1 x = Some w" using deep_copy.kept_when_growing [OF c h(1) x(2) s1(2)] by simp
  from deep_copy.copies [OF c s1(1) this y]
  have s2: "fits s2" "grows s1 s2" "v s2 y = Some w" "r s2 y \<subseteq> {Suc (lim s)..<lim s2}" using s1(3) by auto
  have l: "lim s < lim s2" using grows_lim [OF s2(2)] s1(3) by simp
  have ys': "v s' y = Some w \<and> r s' y = r s2 y"
    by (rule deep_copy.reads_reach [OF c s2(3)]) (use s2(4) run(2) in auto)
  moreover have "contents T s' q = Some y" by (rule contents_boxed [OF T]) (simp add: run)
  moreover have "fits s'" unfolding run(2) by (rule fits_write [OF s2(1) l])
  moreover have "grows s s'" unfolding run(2) by (rule grows_write [OF grows_trans [OF s1(2) s2(2)]]) simp
  ultimately show "fits s' \<and> grows s s' \<and> view_box T v s' q = Some w \<and> reach_box T r s' q \<subseteq> {lim s..<lim s'}"
    using s2(4) l run unfolding view_box_def reach_box_def by auto
next
  fix s t :: "'c store" and p w
  assume h: "view_box T v s p = Some w" "\<forall>a \<in> reach_box T r s p. cells t a = cells s a"
  obtain x where x: "contents T s p = Some x" "v s x = Some w" using h(1) unfolding view_box_Some by blast
  have "cells t p = cells s p" using h(2) by (simp add: reach_box_def)
  then have "contents T t p = Some x" using x(1) contents_local by metis
  moreover have "v t x = Some w \<and> r t x = r s x"
    by (rule deep_copy.reads_reach [OF c x(2)]) (use h(2) x(1) in \<open>simp add: reach_box_def\<close>)
  ultimately show "view_box T v t p = Some w \<and> reach_box T r t p = reach_box T r s p"
    using x by (simp add: view_box_def reach_box_def)
next
  fix s :: "'c store" and p w a
  assume h: "view_box T v s p = Some w" "a \<in> reach_box T r s p"
  obtain x where x: "contents T s p = Some x" "v s x = Some w" using h(1) unfolding view_box_Some by blast
  show "cells s a \<noteq> None"
  proof (cases "a = p")
    case True
    then show ?thesis using contents_cell [OF x(1)] by simp
  next
    case False
    then have "a \<in> r s x" using h(2) x(1) by (simp add: reach_box_def)
    then show ?thesis by (rule deep_copy.no_dangling [OF c x(2)])
  qed
qed

end
