(* ===== verification/Api_Deepcopy.thy ===== *)
theory Api_Deepcopy
  imports Go_Store Api_Types
begin

text \<open>
  The deep copies of the API types, \<open>api/v1alpha1/zz_generated.deepcopy.go\<close>, on a store of
  cells. The records here are the Go structs as they lie in memory, with pointers and slices;
  a field keeps its Go name after an \<open>m\<close>. \<open>DeepCopyInto\<close> takes \<open>*in\<close> and returns what it
  leaves in \<open>*out\<close>, which is a location of its own in every call. The values that these
  records stand for are those of \<open>Api_Types\<close>: the copies are what lets the other theories
  treat objects as values. The deep copies of \<open>metav1.Time\<close>, \<open>metav1.ObjectMeta\<close> and
  \<open>metav1.ListMeta\<close> belong to apimachinery and are fields of the record \<open>metav1\<close>.
\<close>

section \<open>The structs in memory\<close>

record RegistryConfigMem =
  mURL :: string
  mRegistrySecretRef :: "addr option"
  mPollInterval :: string

record ValuesSourceMem =
  mConfigMapRef :: "addr option"
  mSecretRef :: "addr option"
  mOptional :: bool

record ConvergeConfigMem =
  mServiceAccountName :: string
  mTargetNamespace :: string
  mResourceLimits :: "addr option"
  mLogRetentionDays :: "addr option"
  mValuesFrom :: "slice option"

record WerfBundleSpecMem =
  mRegistry :: RegistryConfigMem
  mConverge :: ConvergeConfigMem

record WerfBundleStatusMem =
  mPhase :: string
  mLastAppliedTag :: string
  mLastSyncTime :: "addr option"
  mLastErrorMessage :: string
  mLastETag :: string
  mConsecutiveFailures :: int32
  mLastErrorTime :: "addr option"
  mActiveJobName :: string
  mLastJobStatus :: string
  mLastJobLogs :: string
  mResolvedTargetNamespace :: string

record TypeMeta =
  mKind :: string
  mAPIVersion :: string

record 'm WerfBundleMem =
  mTypeMeta :: TypeMeta
  mObjectMeta :: 'm
  mSpec :: WerfBundleSpecMem
  mStatus :: WerfBundleStatusMem

record 'l WerfBundleListMem =
  mListTypeMeta :: TypeMeta
  mListMeta :: 'l
  mItems :: "slice option"

text \<open>What a cell can hold: the target of a pointer, or the array behind a slice.\<close>

datatype ('m, 'l, 'c) cell =
    RefCell string
  | Int32Cell int32
  | TimeCell time
  | LimitsCell ResourceLimitsConfig
  | SourcesCell "ValuesSourceMem list"
  | BundlesCell "'m WerfBundleMem list"
  | SourceCell ValuesSourceMem
  | RegistryCell RegistryConfigMem
  | ConvergeCell ConvergeConfigMem
  | SpecCell WerfBundleSpecMem
  | StatusCell WerfBundleStatusMem
  | BundleCell "'m WerfBundleMem"
  | BundleListCell "'l WerfBundleListMem"
  | LibraryCell 'c

text \<open>The functions of apimachinery. The receiver of \<open>Time.DeepCopy\<close> is never nil here. A new
  \<open>ObjectMeta\<close> or \<open>ListMeta\<close> starts at its zero value.\<close>

record ('m, 'l, 'c) metav1 =
  Time_DeepCopy :: "addr \<Rightarrow> (('m, 'l, 'c) cell store, addr) state"
  ObjectMeta_DeepCopyInto :: "'m \<Rightarrow> (('m, 'l, 'c) cell store, 'm) state"
  ListMeta_DeepCopyInto :: "'l \<Rightarrow> (('m, 'l, 'c) cell store, 'l) state"
  zero_ObjectMeta :: 'm
  zero_ListMeta :: 'l

definition zero_Limits :: ResourceLimitsConfig where
  "zero_Limits = \<lparr>CPU = '''', Memory = ''''\<rparr>"

definition zero_Source :: ValuesSourceMem where
  "zero_Source = \<lparr>mConfigMapRef = None, mSecretRef = None, mOptional = False\<rparr>"

definition zero_Registry :: RegistryConfigMem where
  "zero_Registry = \<lparr>mURL = '''', mRegistrySecretRef = None, mPollInterval = ''''\<rparr>"

definition zero_Converge :: ConvergeConfigMem where
  "zero_Converge = \<lparr>mServiceAccountName = '''', mTargetNamespace = '''', mResourceLimits = None,
     mLogRetentionDays = None, mValuesFrom = None\<rparr>"

definition zero_Spec :: WerfBundleSpecMem where
  "zero_Spec = \<lparr>mRegistry = zero_Registry, mConverge = zero_Converge\<rparr>"

definition zero_Status :: WerfBundleStatusMem where
  "zero_Status = \<lparr>mPhase = '''', mLastAppliedTag = '''', mLastSyncTime = None, mLastErrorMessage = '''',
     mLastETag = '''', mConsecutiveFailures = 0, mLastErrorTime = None, mActiveJobName = '''',
     mLastJobStatus = '''', mLastJobLogs = '''', mResolvedTargetNamespace = ''''\<rparr>"

definition zero_TypeMeta :: TypeMeta where
  "zero_TypeMeta = \<lparr>mKind = '''', mAPIVersion = ''''\<rparr>"

definition zero_Bundle :: "('m, 'l, 'c) metav1 \<Rightarrow> 'm WerfBundleMem" where
  "zero_Bundle M = \<lparr>mTypeMeta = zero_TypeMeta, mObjectMeta = zero_ObjectMeta M, mSpec = zero_Spec,
     mStatus = zero_Status\<rparr>"

definition zero_BundleList :: "('m, 'l, 'c) metav1 \<Rightarrow> 'l WerfBundleListMem" where
  "zero_BundleList M = \<lparr>mListTypeMeta = zero_TypeMeta, mListMeta = zero_ListMeta M, mItems = None\<rparr>"

text \<open>The types that are kept in cells.\<close>

abbreviation RefT :: "(('m, 'l, 'c) cell, string) go_type" where
  "RefT \<equiv> \<lparr>box = RefCell, unbox = (\<lambda>c. case c of RefCell x \<Rightarrow> Some x | _ \<Rightarrow> None), zero_of = ''''\<rparr>"
abbreviation Int32T :: "(('m, 'l, 'c) cell, int32) go_type" where
  "Int32T \<equiv> \<lparr>box = Int32Cell, unbox = (\<lambda>c. case c of Int32Cell x \<Rightarrow> Some x | _ \<Rightarrow> None), zero_of = 0\<rparr>"
abbreviation TimeT :: "(('m, 'l, 'c) cell, time) go_type" where
  "TimeT \<equiv> \<lparr>box = TimeCell, unbox = (\<lambda>c. case c of TimeCell x \<Rightarrow> Some x | _ \<Rightarrow> None), zero_of = 0\<rparr>"
abbreviation LimitsT :: "(('m, 'l, 'c) cell, ResourceLimitsConfig) go_type" where
  "LimitsT \<equiv> \<lparr>box = LimitsCell, unbox = (\<lambda>c. case c of LimitsCell x \<Rightarrow> Some x | _ \<Rightarrow> None), zero_of = zero_Limits\<rparr>"
abbreviation SourcesT :: "(('m, 'l, 'c) cell, ValuesSourceMem list) go_type" where
  "SourcesT \<equiv> \<lparr>box = SourcesCell, unbox = (\<lambda>c. case c of SourcesCell x \<Rightarrow> Some x | _ \<Rightarrow> None), zero_of = []\<rparr>"
abbreviation BundlesT :: "(('m, 'l, 'c) cell, 'm WerfBundleMem list) go_type" where
  "BundlesT \<equiv> \<lparr>box = BundlesCell, unbox = (\<lambda>c. case c of BundlesCell x \<Rightarrow> Some x | _ \<Rightarrow> None), zero_of = []\<rparr>"
abbreviation SourceT :: "(('m, 'l, 'c) cell, ValuesSourceMem) go_type" where
  "SourceT \<equiv> \<lparr>box = SourceCell, unbox = (\<lambda>c. case c of SourceCell x \<Rightarrow> Some x | _ \<Rightarrow> None), zero_of = zero_Source\<rparr>"
abbreviation RegistryT :: "(('m, 'l, 'c) cell, RegistryConfigMem) go_type" where
  "RegistryT \<equiv> \<lparr>box = RegistryCell, unbox = (\<lambda>c. case c of RegistryCell x \<Rightarrow> Some x | _ \<Rightarrow> None), zero_of = zero_Registry\<rparr>"
abbreviation ConvergeT :: "(('m, 'l, 'c) cell, ConvergeConfigMem) go_type" where
  "ConvergeT \<equiv> \<lparr>box = ConvergeCell, unbox = (\<lambda>c. case c of ConvergeCell x \<Rightarrow> Some x | _ \<Rightarrow> None), zero_of = zero_Converge\<rparr>"
abbreviation SpecT :: "(('m, 'l, 'c) cell, WerfBundleSpecMem) go_type" where
  "SpecT \<equiv> \<lparr>box = SpecCell, unbox = (\<lambda>c. case c of SpecCell x \<Rightarrow> Some x | _ \<Rightarrow> None), zero_of = zero_Spec\<rparr>"
abbreviation StatusT :: "(('m, 'l, 'c) cell, WerfBundleStatusMem) go_type" where
  "StatusT \<equiv> \<lparr>box = StatusCell, unbox = (\<lambda>c. case c of StatusCell x \<Rightarrow> Some x | _ \<Rightarrow> None), zero_of = zero_Status\<rparr>"
abbreviation BundleT :: "('m, 'l, 'c) metav1 \<Rightarrow> (('m, 'l, 'c) cell, 'm WerfBundleMem) go_type" where
  "BundleT M \<equiv> \<lparr>box = BundleCell, unbox = (\<lambda>c. case c of BundleCell x \<Rightarrow> Some x | _ \<Rightarrow> None), zero_of = zero_Bundle M\<rparr>"
abbreviation BundleListT :: "('m, 'l, 'c) metav1 \<Rightarrow> (('m, 'l, 'c) cell, 'l WerfBundleListMem) go_type" where
  "BundleListT M \<equiv> \<lparr>box = BundleListCell, unbox = (\<lambda>c. case c of BundleListCell x \<Rightarrow> Some x | _ \<Rightarrow> None), zero_of = zero_BundleList M\<rparr>"

section \<open>The generated functions\<close>

definition ResourceLimitsConfig_DeepCopyInto :: "ResourceLimitsConfig \<Rightarrow> (('m, 'l, 'c) cell store, ResourceLimitsConfig) state" where
  "ResourceLimitsConfig_DeepCopyInto inn = State_Monad.return inn"

definition RegistryConfig_DeepCopyInto :: "RegistryConfigMem \<Rightarrow> (('m, 'l, 'c) cell store, RegistryConfigMem) state" where
  "RegistryConfig_DeepCopyInto inn = do {
     p \<leftarrow> unless_nil (mRegistrySecretRef inn) (clone RefT);
     State_Monad.return (inn\<lparr>mRegistrySecretRef := p\<rparr>) }"

definition ValuesSource_DeepCopyInto :: "ValuesSourceMem \<Rightarrow> (('m, 'l, 'c) cell store, ValuesSourceMem) state" where
  "ValuesSource_DeepCopyInto inn = do {
     p \<leftarrow> unless_nil (mConfigMapRef inn) (clone RefT);
     q \<leftarrow> unless_nil (mSecretRef inn) (clone RefT);
     State_Monad.return (inn\<lparr>mConfigMapRef := p, mSecretRef := q\<rparr>) }"

definition ConvergeConfig_DeepCopyInto :: "ConvergeConfigMem \<Rightarrow> (('m, 'l, 'c) cell store, ConvergeConfigMem) state" where
  "ConvergeConfig_DeepCopyInto inn = do {
     p \<leftarrow> unless_nil (mResourceLimits inn) (clone LimitsT);
     q \<leftarrow> unless_nil (mLogRetentionDays inn) (clone Int32T);
     vs \<leftarrow> unless_nil (mValuesFrom inn) (copy_slice SourcesT zero_Source ValuesSource_DeepCopyInto);
     State_Monad.return (inn\<lparr>mResourceLimits := p, mLogRetentionDays := q, mValuesFrom := vs\<rparr>) }"

definition WerfBundleSpec_DeepCopyInto :: "WerfBundleSpecMem \<Rightarrow> (('m, 'l, 'c) cell store, WerfBundleSpecMem) state" where
  "WerfBundleSpec_DeepCopyInto inn = do {
     r \<leftarrow> RegistryConfig_DeepCopyInto (mRegistry inn);
     c \<leftarrow> ConvergeConfig_DeepCopyInto (mConverge inn);
     State_Monad.return (inn\<lparr>mRegistry := r, mConverge := c\<rparr>) }"

definition WerfBundleStatus_DeepCopyInto ::
    "('m, 'l, 'c) metav1 \<Rightarrow> WerfBundleStatusMem \<Rightarrow> (('m, 'l, 'c) cell store, WerfBundleStatusMem) state" where
  "WerfBundleStatus_DeepCopyInto M inn = do {
     p \<leftarrow> unless_nil (mLastSyncTime inn) (Time_DeepCopy M);
     q \<leftarrow> unless_nil (mLastErrorTime inn) (Time_DeepCopy M);
     State_Monad.return (inn\<lparr>mLastSyncTime := p, mLastErrorTime := q\<rparr>) }"

definition WerfBundle_DeepCopyInto ::
    "('m, 'l, 'c) metav1 \<Rightarrow> 'm WerfBundleMem \<Rightarrow> (('m, 'l, 'c) cell store, 'm WerfBundleMem) state" where
  "WerfBundle_DeepCopyInto M inn = do {
     m \<leftarrow> ObjectMeta_DeepCopyInto M (mObjectMeta inn);
     sp \<leftarrow> WerfBundleSpec_DeepCopyInto (mSpec inn);
     st \<leftarrow> WerfBundleStatus_DeepCopyInto M (mStatus inn);
     State_Monad.return (inn\<lparr>mTypeMeta := mTypeMeta inn, mObjectMeta := m, mSpec := sp, mStatus := st\<rparr>) }"

definition WerfBundleList_DeepCopyInto ::
    "('m, 'l, 'c) metav1 \<Rightarrow> 'l WerfBundleListMem \<Rightarrow> (('m, 'l, 'c) cell store, 'l WerfBundleListMem) state" where
  "WerfBundleList_DeepCopyInto M inn = do {
     m \<leftarrow> ListMeta_DeepCopyInto M (mListMeta inn);
     is \<leftarrow> unless_nil (mItems inn) (copy_slice BundlesT (zero_Bundle M) (WerfBundle_DeepCopyInto M));
     State_Monad.return (inn\<lparr>mListTypeMeta := mListTypeMeta inn, mListMeta := m, mItems := is\<rparr>) }"

text \<open>\<open>DeepCopy\<close>: nil for nil, otherwise a new struct filled by \<open>DeepCopyInto\<close>.\<close>

definition ConvergeConfig_DeepCopy :: "addr option \<Rightarrow> (('m, 'l, 'c) cell store, addr option) state" where
  "ConvergeConfig_DeepCopy inn = unless_nil inn (copy_box ConvergeT ConvergeConfig_DeepCopyInto)"

definition RegistryConfig_DeepCopy :: "addr option \<Rightarrow> (('m, 'l, 'c) cell store, addr option) state" where
  "RegistryConfig_DeepCopy inn = unless_nil inn (copy_box RegistryT RegistryConfig_DeepCopyInto)"

definition ResourceLimitsConfig_DeepCopy :: "addr option \<Rightarrow> (('m, 'l, 'c) cell store, addr option) state" where
  "ResourceLimitsConfig_DeepCopy inn = unless_nil inn (copy_box LimitsT ResourceLimitsConfig_DeepCopyInto)"

definition ValuesSource_DeepCopy :: "addr option \<Rightarrow> (('m, 'l, 'c) cell store, addr option) state" where
  "ValuesSource_DeepCopy inn = unless_nil inn (copy_box SourceT ValuesSource_DeepCopyInto)"

definition WerfBundleSpec_DeepCopy :: "addr option \<Rightarrow> (('m, 'l, 'c) cell store, addr option) state" where
  "WerfBundleSpec_DeepCopy inn = unless_nil inn (copy_box SpecT WerfBundleSpec_DeepCopyInto)"

definition WerfBundleStatus_DeepCopy :: "('m, 'l, 'c) metav1 \<Rightarrow> addr option \<Rightarrow> (('m, 'l, 'c) cell store, addr option) state" where
  "WerfBundleStatus_DeepCopy M inn = unless_nil inn (copy_box StatusT (WerfBundleStatus_DeepCopyInto M))"

definition WerfBundle_DeepCopy :: "('m, 'l, 'c) metav1 \<Rightarrow> addr option \<Rightarrow> (('m, 'l, 'c) cell store, addr option) state" where
  "WerfBundle_DeepCopy M inn = unless_nil inn (copy_box (BundleT M) (WerfBundle_DeepCopyInto M))"

definition WerfBundleList_DeepCopy :: "('m, 'l, 'c) metav1 \<Rightarrow> addr option \<Rightarrow> (('m, 'l, 'c) cell store, addr option) state" where
  "WerfBundleList_DeepCopy M inn = unless_nil inn (copy_box (BundleListT M) (WerfBundleList_DeepCopyInto M))"

text \<open>\<open>runtime.Object\<close>: an interface value holds a typed pointer. \<open>DeepCopyObject\<close> of a nil
  pointer is the nil interface, \<open>None\<close>, not an interface that holds a nil pointer.\<close>

datatype Object = BundleObject "addr option" | ListObject "addr option"

definition WerfBundle_DeepCopyObject :: "('m, 'l, 'c) metav1 \<Rightarrow> addr option \<Rightarrow> (('m, 'l, 'c) cell store, Object option) state" where
  "WerfBundle_DeepCopyObject M inn = do {
     c \<leftarrow> WerfBundle_DeepCopy M inn;
     State_Monad.return (if c \<noteq> None then Some (BundleObject c) else None) }"

definition WerfBundleList_DeepCopyObject :: "('m, 'l, 'c) metav1 \<Rightarrow> addr option \<Rightarrow> (('m, 'l, 'c) cell store, Object option) state" where
  "WerfBundleList_DeepCopyObject M inn = do {
     c \<leftarrow> WerfBundleList_DeepCopy M inn;
     State_Monad.return (if c \<noteq> None then Some (ListObject c) else None) }"

definition DeepCopyObject :: "('m, 'l, 'c) metav1 \<Rightarrow> Object \<Rightarrow> (('m, 'l, 'c) cell store, Object option) state" where
  "DeepCopyObject M obj = (case obj of BundleObject p \<Rightarrow> WerfBundle_DeepCopyObject M p
     | ListObject p \<Rightarrow> WerfBundleList_DeepCopyObject M p)"
section \<open>The values of the structs\<close>

text \<open>The value of \<open>Api_Types\<close> that a struct stands for in a store; a nil slice is the empty
  list. The view of an object's metadata is a parameter, as its copy is.\<close>

definition ValuesSource_parts :: "ValuesSourceMem \<Rightarrow> addr option \<times> addr option" where
  "ValuesSource_parts x = (mConfigMapRef x, mSecretRef x)"

definition ValuesSource_view :: "('m, 'l, 'c) cell store \<Rightarrow> ValuesSourceMem \<Rightarrow> ValuesSource option" where
  "ValuesSource_view s x = map_option (\<lambda>(c, r). \<lparr>ConfigMapRef = c, SecretRef = r, Optional = mOptional x\<rparr>)
     (view_both (view_ptr (contents RefT)) (view_ptr (contents RefT)) s (ValuesSource_parts x))"

definition ValuesSource_reach :: "('m, 'l, 'c) cell store \<Rightarrow> ValuesSourceMem \<Rightarrow> addr set" where
  "ValuesSource_reach s x = reach_both (reach_ptr (\<lambda>s a. {a})) (reach_ptr (\<lambda>s a. {a})) s (ValuesSource_parts x)"

definition RegistryConfig_view :: "('m, 'l, 'c) cell store \<Rightarrow> RegistryConfigMem \<Rightarrow> RegistryConfig option" where
  "RegistryConfig_view s x = map_option (\<lambda>r. \<lparr>URL = mURL x, RegistrySecretRef = r, PollInterval = mPollInterval x\<rparr>)
     (view_ptr (contents RefT) s (mRegistrySecretRef x))"

definition RegistryConfig_reach :: "('m, 'l, 'c) cell store \<Rightarrow> RegistryConfigMem \<Rightarrow> addr set" where
  "RegistryConfig_reach s x = reach_ptr (\<lambda>s a. {a}) s (mRegistrySecretRef x)"

definition ConvergeConfig_parts :: "ConvergeConfigMem \<Rightarrow> addr option \<times> addr option \<times> slice option" where
  "ConvergeConfig_parts x = (mResourceLimits x, mLogRetentionDays x, mValuesFrom x)"

definition ConvergeConfig_view :: "('m, 'l, 'c) cell store \<Rightarrow> ConvergeConfigMem \<Rightarrow> ConvergeConfig option" where
  "ConvergeConfig_view s x = map_option (\<lambda>(l, d, vs). \<lparr>ServiceAccountName = mServiceAccountName x,
       TargetNamespace = mTargetNamespace x, ResourceLimits = l, LogRetentionDays = d,
       ValuesFrom = (case vs of None \<Rightarrow> [] | Some vs \<Rightarrow> vs)\<rparr>)
     (view_both (view_ptr (contents LimitsT))
       (view_both (view_ptr (contents Int32T)) (view_ptr (view_slice SourcesT ValuesSource_view)))
       s (ConvergeConfig_parts x))"

definition ConvergeConfig_reach :: "('m, 'l, 'c) cell store \<Rightarrow> ConvergeConfigMem \<Rightarrow> addr set" where
  "ConvergeConfig_reach s x = reach_both (reach_ptr (\<lambda>s a. {a}))
     (reach_both (reach_ptr (\<lambda>s a. {a})) (reach_ptr (reach_slice SourcesT ValuesSource_reach)))
     s (ConvergeConfig_parts x)"

definition WerfBundleSpec_parts :: "WerfBundleSpecMem \<Rightarrow> RegistryConfigMem \<times> ConvergeConfigMem" where
  "WerfBundleSpec_parts x = (mRegistry x, mConverge x)"

definition WerfBundleSpec_view :: "('m, 'l, 'c) cell store \<Rightarrow> WerfBundleSpecMem \<Rightarrow> WerfBundleSpec option" where
  "WerfBundleSpec_view s x = map_option (\<lambda>(r, c). \<lparr>Registry = r, Converge = c\<rparr>)
     (view_both RegistryConfig_view ConvergeConfig_view s (WerfBundleSpec_parts x))"

definition WerfBundleSpec_reach :: "('m, 'l, 'c) cell store \<Rightarrow> WerfBundleSpecMem \<Rightarrow> addr set" where
  "WerfBundleSpec_reach s x = reach_both RegistryConfig_reach ConvergeConfig_reach s (WerfBundleSpec_parts x)"

definition WerfBundleStatus_parts :: "WerfBundleStatusMem \<Rightarrow> addr option \<times> addr option" where
  "WerfBundleStatus_parts x = (mLastSyncTime x, mLastErrorTime x)"

definition WerfBundleStatus_view :: "('m, 'l, 'c) cell store \<Rightarrow> WerfBundleStatusMem \<Rightarrow> WerfBundleStatus option" where
  "WerfBundleStatus_view s x = map_option (\<lambda>(t, e). \<lparr>Phase = mPhase x, LastAppliedTag = mLastAppliedTag x,
       LastSyncTime = t, LastErrorMessage = mLastErrorMessage x, LastETag = mLastETag x,
       ConsecutiveFailures = mConsecutiveFailures x, LastErrorTime = e, ActiveJobName = mActiveJobName x,
       LastJobStatus = mLastJobStatus x, LastJobLogs = mLastJobLogs x,
       ResolvedTargetNamespace = mResolvedTargetNamespace x\<rparr>)
     (view_both (view_ptr (contents TimeT)) (view_ptr (contents TimeT)) s (WerfBundleStatus_parts x))"

definition WerfBundleStatus_reach :: "('m, 'l, 'c) cell store \<Rightarrow> WerfBundleStatusMem \<Rightarrow> addr set" where
  "WerfBundleStatus_reach s x = reach_both (reach_ptr (\<lambda>s a. {a})) (reach_ptr (\<lambda>s a. {a})) s (WerfBundleStatus_parts x)"

text \<open>The tree of an object: its type, the tree of its metadata, spec and status.\<close>

type_synonym 'o bundle_tree = "TypeMeta \<times> 'o \<times> WerfBundleSpec \<times> WerfBundleStatus"
type_synonym ('o, 'p) list_tree = "TypeMeta \<times> 'p \<times> 'o bundle_tree list option"

definition WerfBundle_parts :: "'m WerfBundleMem \<Rightarrow> 'm \<times> WerfBundleSpecMem \<times> WerfBundleStatusMem" where
  "WerfBundle_parts x = (mObjectMeta x, mSpec x, mStatus x)"

definition WerfBundle_view :: "(('m, 'l, 'c) cell store \<Rightarrow> 'm \<Rightarrow> 'o option) \<Rightarrow> ('m, 'l, 'c) cell store \<Rightarrow>
    'm WerfBundleMem \<Rightarrow> 'o bundle_tree option" where
  "WerfBundle_view ov s x = map_option (Pair (mTypeMeta x))
     (view_both ov (view_both WerfBundleSpec_view WerfBundleStatus_view) s (WerfBundle_parts x))"

definition WerfBundle_reach :: "(('m, 'l, 'c) cell store \<Rightarrow> 'm \<Rightarrow> addr set) \<Rightarrow> ('m, 'l, 'c) cell store \<Rightarrow>
    'm WerfBundleMem \<Rightarrow> addr set" where
  "WerfBundle_reach oreach s x =
     reach_both oreach (reach_both WerfBundleSpec_reach WerfBundleStatus_reach) s (WerfBundle_parts x)"

definition WerfBundleList_parts :: "'l WerfBundleListMem \<Rightarrow> 'l \<times> slice option" where
  "WerfBundleList_parts x = (mListMeta x, mItems x)"

definition WerfBundleList_view :: "(('m, 'l, 'c) cell store \<Rightarrow> 'm \<Rightarrow> 'o option) \<Rightarrow>
    (('m, 'l, 'c) cell store \<Rightarrow> 'l \<Rightarrow> 'p option) \<Rightarrow> ('m, 'l, 'c) cell store \<Rightarrow> 'l WerfBundleListMem \<Rightarrow>
    ('o, 'p) list_tree option" where
  "WerfBundleList_view ov lv s x = map_option (Pair (mListTypeMeta x))
     (view_both lv (view_ptr (view_slice BundlesT (WerfBundle_view ov))) s (WerfBundleList_parts x))"

definition WerfBundleList_reach :: "(('m, 'l, 'c) cell store \<Rightarrow> 'm \<Rightarrow> addr set) \<Rightarrow>
    (('m, 'l, 'c) cell store \<Rightarrow> 'l \<Rightarrow> addr set) \<Rightarrow> ('m, 'l, 'c) cell store \<Rightarrow> 'l WerfBundleListMem \<Rightarrow> addr set" where
  "WerfBundleList_reach oreach lreach s x =
     reach_both lreach (reach_ptr (reach_slice BundlesT (WerfBundle_reach oreach))) s (WerfBundleList_parts x)"

section \<open>Every generated function is a deep copy\<close>

lemma boxes_cells [simp]: "boxes RefT" "boxes Int32T" "boxes TimeT" "boxes LimitsT" "boxes SourcesT"
  "boxes BundlesT" "boxes SourceT" "boxes RegistryT" "boxes ConvergeT" "boxes SpecT" "boxes StatusT"
  "boxes (BundleT M)" "boxes (BundleListT M)"
  by (simp_all add: boxes_def)

lemmas clone_ptr = nilable_copy [OF clone_copy]

interpretation ResourceLimitsConfig: deep_copy ResourceLimitsConfig_DeepCopyInto "\<lambda>s x. Some x" "\<lambda>s x. {}"
  unfolding ResourceLimitsConfig_DeepCopyInto_def [abs_def] by (rule plain_copy)

interpretation RegistryConfig: deep_copy RegistryConfig_DeepCopyInto RegistryConfig_view RegistryConfig_reach
  unfolding RegistryConfig_DeepCopyInto_def [abs_def] RegistryConfig_view_def [abs_def] RegistryConfig_reach_def [abs_def]
  by (rule part_copy [OF clone_ptr, where upd = "\<lambda>p x. x\<lparr>mRegistrySecretRef := p\<rparr>"]) simp_all

text \<open>The functions with several pointer fields copy the tuple of their parts.\<close>

lemma ValuesSource_DeepCopyInto_parts: "ValuesSource_DeepCopyInto = (\<lambda>x. do {
    y \<leftarrow> both (\<lambda>p. unless_nil p (clone RefT)) (\<lambda>p. unless_nil p (clone RefT)) (ValuesSource_parts x);
    State_Monad.return ((\<lambda>(p, q) x. x\<lparr>mConfigMapRef := p, mSecretRef := q\<rparr>) y x) })"
  by (rule ext) (simp add: ValuesSource_DeepCopyInto_def both_def ValuesSource_parts_def)

interpretation ValuesSource: deep_copy ValuesSource_DeepCopyInto ValuesSource_view ValuesSource_reach
  unfolding ValuesSource_DeepCopyInto_parts ValuesSource_view_def [abs_def] ValuesSource_reach_def [abs_def]
  by (rule part_copy [OF both_copy [OF clone_ptr clone_ptr]]) (auto simp: ValuesSource_parts_def)

lemma ConvergeConfig_DeepCopyInto_parts: "ConvergeConfig_DeepCopyInto = (\<lambda>x. do {
    y \<leftarrow> both (\<lambda>p. unless_nil p (clone LimitsT)) (both (\<lambda>p. unless_nil p (clone Int32T))
      (\<lambda>p. unless_nil p (copy_slice SourcesT zero_Source ValuesSource_DeepCopyInto))) (ConvergeConfig_parts x);
    State_Monad.return ((\<lambda>(p, q, vs) x. x\<lparr>mResourceLimits := p, mLogRetentionDays := q, mValuesFrom := vs\<rparr>) y x) })"
  by (rule ext) (simp add: ConvergeConfig_DeepCopyInto_def both_def ConvergeConfig_parts_def)

interpretation ConvergeConfig: deep_copy ConvergeConfig_DeepCopyInto ConvergeConfig_view ConvergeConfig_reach
  unfolding ConvergeConfig_DeepCopyInto_parts ConvergeConfig_view_def [abs_def] ConvergeConfig_reach_def [abs_def]
  by (rule part_copy [OF both_copy [OF clone_ptr both_copy [OF clone_ptr nilable_copy [OF slice_copy
      [OF ValuesSource.deep_copy_axioms]]]]]) (auto simp: ConvergeConfig_parts_def)

lemma WerfBundleSpec_DeepCopyInto_parts: "WerfBundleSpec_DeepCopyInto = (\<lambda>x. do {
    y \<leftarrow> both RegistryConfig_DeepCopyInto ConvergeConfig_DeepCopyInto (WerfBundleSpec_parts x);
    State_Monad.return ((\<lambda>(r, c) x. x\<lparr>mRegistry := r, mConverge := c\<rparr>) y x) })"
  by (rule ext) (simp add: WerfBundleSpec_DeepCopyInto_def both_def WerfBundleSpec_parts_def)

interpretation WerfBundleSpec: deep_copy WerfBundleSpec_DeepCopyInto WerfBundleSpec_view WerfBundleSpec_reach
  unfolding WerfBundleSpec_DeepCopyInto_parts WerfBundleSpec_view_def [abs_def] WerfBundleSpec_reach_def [abs_def]
  by (rule part_copy [OF both_copy [OF RegistryConfig.deep_copy_axioms ConvergeConfig.deep_copy_axioms]])
    (auto simp: WerfBundleSpec_parts_def)
section \<open>Copies that use the library\<close>

text \<open>What apimachinery documents of its copies: they keep the contract as well. \<open>ov\<close>, \<open>lv\<close> and
  \<open>oreach\<close>, \<open>lreach\<close> are the trees and the reach of object and list metadata.\<close>

definition metav1_laws :: "('m, 'l, 'c) metav1 \<Rightarrow>
    (('m, 'l, 'c) cell store \<Rightarrow> 'm \<Rightarrow> 'o option) \<Rightarrow> (('m, 'l, 'c) cell store \<Rightarrow> 'm \<Rightarrow> addr set) \<Rightarrow>
    (('m, 'l, 'c) cell store \<Rightarrow> 'l \<Rightarrow> 'p option) \<Rightarrow> (('m, 'l, 'c) cell store \<Rightarrow> 'l \<Rightarrow> addr set) \<Rightarrow> bool" where
  "metav1_laws M ov oreach lv lreach \<longleftrightarrow>
     deep_copy (Time_DeepCopy M) (contents TimeT) (\<lambda>s a. {a}) \<and>
     deep_copy (ObjectMeta_DeepCopyInto M) ov oreach \<and>
     deep_copy (ListMeta_DeepCopyInto M) lv lreach"

lemma WerfBundleStatus_DeepCopyInto_parts: "WerfBundleStatus_DeepCopyInto M = (\<lambda>x. do {
    y \<leftarrow> both (\<lambda>p. unless_nil p (Time_DeepCopy M)) (\<lambda>p. unless_nil p (Time_DeepCopy M)) (WerfBundleStatus_parts x);
    State_Monad.return ((\<lambda>(p, q) x. x\<lparr>mLastSyncTime := p, mLastErrorTime := q\<rparr>) y x) })"
  by (rule ext) (simp add: WerfBundleStatus_DeepCopyInto_def both_def WerfBundleStatus_parts_def)

lemma WerfBundleStatus_copy:
  assumes "deep_copy (Time_DeepCopy M) (contents TimeT) (\<lambda>s a. {a})"
  shows "deep_copy (WerfBundleStatus_DeepCopyInto M) WerfBundleStatus_view WerfBundleStatus_reach"
  unfolding WerfBundleStatus_DeepCopyInto_parts WerfBundleStatus_view_def [abs_def] WerfBundleStatus_reach_def [abs_def]
  by (rule part_copy [OF both_copy [OF nilable_copy nilable_copy]]) (auto simp: WerfBundleStatus_parts_def assms)

lemma WerfBundle_DeepCopyInto_parts: "WerfBundle_DeepCopyInto M = (\<lambda>x. do {
    y \<leftarrow> both (ObjectMeta_DeepCopyInto M) (both WerfBundleSpec_DeepCopyInto (WerfBundleStatus_DeepCopyInto M))
      (WerfBundle_parts x);
    State_Monad.return ((\<lambda>(m, sp, st) x. x\<lparr>mObjectMeta := m, mSpec := sp, mStatus := st\<rparr>) y x) })"
  by (rule ext) (simp add: WerfBundle_DeepCopyInto_def both_def WerfBundle_parts_def)

lemma WerfBundle_copy:
  assumes "metav1_laws M ov oreach lv lreach"
  shows "deep_copy (WerfBundle_DeepCopyInto M) (WerfBundle_view ov) (WerfBundle_reach oreach)"
proof -
  have m: "deep_copy (ObjectMeta_DeepCopyInto M) ov oreach"
    and t: "deep_copy (Time_DeepCopy M) (contents TimeT) (\<lambda>s a. {a})"
    using assms by (simp_all add: metav1_laws_def)
  note parts = both_copy [OF m both_copy [OF WerfBundleSpec.deep_copy_axioms WerfBundleStatus_copy [OF t]]]
  show ?thesis
    unfolding WerfBundle_DeepCopyInto_parts WerfBundle_view_def [abs_def] WerfBundle_reach_def [abs_def]
    by (rule part_copy [OF parts, where mk = "\<lambda>x. Pair (mTypeMeta x)"]) (auto simp: WerfBundle_parts_def)
qed

lemma WerfBundleList_DeepCopyInto_parts: "WerfBundleList_DeepCopyInto M = (\<lambda>x. do {
    y \<leftarrow> both (ListMeta_DeepCopyInto M)
      (\<lambda>p. unless_nil p (copy_slice BundlesT (zero_Bundle M) (WerfBundle_DeepCopyInto M))) (WerfBundleList_parts x);
    State_Monad.return ((\<lambda>(m, is) x. x\<lparr>mListMeta := m, mItems := is\<rparr>) y x) })"
  by (rule ext) (simp add: WerfBundleList_DeepCopyInto_def both_def WerfBundleList_parts_def)

lemma WerfBundleList_copy:
  assumes "metav1_laws M ov oreach lv lreach"
  shows "deep_copy (WerfBundleList_DeepCopyInto M) (WerfBundleList_view ov lv) (WerfBundleList_reach oreach lreach)"
proof -
  have m: "deep_copy (ListMeta_DeepCopyInto M) lv lreach"
    using assms by (simp add: metav1_laws_def)
  note parts = both_copy [OF m nilable_copy [OF slice_copy [OF WerfBundle_copy [OF assms] boxes_cells(6)]]]
  show ?thesis
    unfolding WerfBundleList_DeepCopyInto_parts WerfBundleList_view_def [abs_def] WerfBundleList_reach_def [abs_def]
    by (rule part_copy [OF parts, where mk = "\<lambda>x. Pair (mListTypeMeta x)"]) (auto simp: WerfBundleList_parts_def)
qed

text \<open>The pointers: \<open>DeepCopy\<close> of every type of the API.\<close>

lemma pointer_copies:
  "deep_copy ConvergeConfig_DeepCopy (view_ptr (view_box ConvergeT ConvergeConfig_view)) (reach_ptr (reach_box ConvergeT ConvergeConfig_reach))"
  "deep_copy RegistryConfig_DeepCopy (view_ptr (view_box RegistryT RegistryConfig_view)) (reach_ptr (reach_box RegistryT RegistryConfig_reach))"
  "deep_copy ResourceLimitsConfig_DeepCopy (view_ptr (view_box LimitsT (\<lambda>s x. Some x))) (reach_ptr (reach_box LimitsT (\<lambda>s x. {})))"
  "deep_copy ValuesSource_DeepCopy (view_ptr (view_box SourceT ValuesSource_view)) (reach_ptr (reach_box SourceT ValuesSource_reach))"
  "deep_copy WerfBundleSpec_DeepCopy (view_ptr (view_box SpecT WerfBundleSpec_view)) (reach_ptr (reach_box SpecT WerfBundleSpec_reach))"
  unfolding ConvergeConfig_DeepCopy_def [abs_def] RegistryConfig_DeepCopy_def [abs_def] ResourceLimitsConfig_DeepCopy_def [abs_def]
    ValuesSource_DeepCopy_def [abs_def] WerfBundleSpec_DeepCopy_def [abs_def]
  by (rule nilable_copy [OF box_copy], rule ConvergeConfig.deep_copy_axioms RegistryConfig.deep_copy_axioms
      ResourceLimitsConfig.deep_copy_axioms ValuesSource.deep_copy_axioms WerfBundleSpec.deep_copy_axioms, rule boxes_cells)+

lemma WerfBundleStatus_DeepCopy_copy:
  assumes "metav1_laws M ov oreach lv lreach"
  shows "deep_copy (WerfBundleStatus_DeepCopy M) (view_ptr (view_box StatusT WerfBundleStatus_view))
    (reach_ptr (reach_box StatusT WerfBundleStatus_reach))"
  unfolding WerfBundleStatus_DeepCopy_def [abs_def]
  by (rule nilable_copy [OF box_copy [OF WerfBundleStatus_copy boxes_cells(11)]]) (use assms in \<open>simp add: metav1_laws_def\<close>)

lemma WerfBundle_DeepCopy_copy:
  assumes "metav1_laws M ov oreach lv lreach"
  shows "deep_copy (WerfBundle_DeepCopy M) (view_ptr (view_box (BundleT M) (WerfBundle_view ov)))
    (reach_ptr (reach_box (BundleT M) (WerfBundle_reach oreach)))"
  unfolding WerfBundle_DeepCopy_def [abs_def]
  by (rule nilable_copy [OF box_copy [OF WerfBundle_copy [OF assms] boxes_cells(12)]])

lemma WerfBundleList_DeepCopy_copy:
  assumes "metav1_laws M ov oreach lv lreach"
  shows "deep_copy (WerfBundleList_DeepCopy M) (view_ptr (view_box (BundleListT M) (WerfBundleList_view ov lv)))
    (reach_ptr (reach_box (BundleListT M) (WerfBundleList_reach oreach lreach)))"
  unfolding WerfBundleList_DeepCopy_def [abs_def]
  by (rule nilable_copy [OF box_copy [OF WerfBundleList_copy [OF assms] boxes_cells(13)]])

section \<open>Objects\<close>

text \<open>The tree behind an interface value that holds a pointer to a bundle or to a list.\<close>

definition Object_view :: "('m, 'l, 'c) metav1 \<Rightarrow> (('m, 'l, 'c) cell store \<Rightarrow> 'm \<Rightarrow> 'o option) \<Rightarrow>
    (('m, 'l, 'c) cell store \<Rightarrow> 'l \<Rightarrow> 'p option) \<Rightarrow> ('m, 'l, 'c) cell store \<Rightarrow> Object \<Rightarrow>
    ('o bundle_tree + ('o, 'p) list_tree) option" where
  "Object_view M ov lv s obj = (case obj of
       BundleObject (Some a) \<Rightarrow> map_option Inl (view_box (BundleT M) (WerfBundle_view ov) s a)
     | ListObject (Some a) \<Rightarrow> map_option Inr (view_box (BundleListT M) (WerfBundleList_view ov lv) s a)
     | _ \<Rightarrow> None)"

lemma Object_view_bundle:
  "Object_view M ov lv t (BundleObject p) = Some v \<longleftrightarrow>
    (\<exists>w. v = Inl w \<and> view_ptr (view_box (BundleT M) (WerfBundle_view ov)) t p = Some (Some w))"
  by (cases p) (auto simp: Object_view_def view_ptr_def)

lemma Object_view_list:
  "Object_view M ov lv t (ListObject p) = Some v \<longleftrightarrow>
    (\<exists>w. v = Inr w \<and> view_ptr (view_box (BundleListT M) (WerfBundleList_view ov lv)) t p = Some (Some w))"
  by (cases p) (auto simp: Object_view_def view_ptr_def)

lemma view_ptr_not_nil: "view_ptr v s p = Some (Some w) \<Longrightarrow> p \<noteq> None"
  by (cases p) (auto simp: view_ptr_def)

lemma independent_as_objects:
  fixes f :: "'p \<Rightarrow> ('c store, 'p) state"
  assumes "deep_copy f pv pr" "fits s" "pv s p = Some w" "run_state (f p) s = (q, s')"
    and ov: "\<And>t r. ov t (K r) = Some v \<longleftrightarrow> pv t r = Some w"
  shows "grows s s' \<and> ov s' (K q) = Some v \<and> ov s' (K p) = Some v \<and>
    (\<forall>t. (\<forall>a. lim s \<le> a \<longrightarrow> cells t a = cells s' a) \<longrightarrow> ov t (K q) = Some v) \<and>
    (\<forall>t. (\<forall>a < lim s. cells t a = cells s' a) \<longrightarrow> ov t (K p) = Some v)"
  unfolding ov by (rule deep_copy.independent [OF assms(1-4)])

text \<open>A nil receiver leaves the store alone and gives the nil interface.\<close>

lemma DeepCopyObject_nil:
  "run_state (DeepCopyObject M (BundleObject None)) s = (None, s)"
  "run_state (DeepCopyObject M (ListObject None)) s = (None, s)"
  by (simp_all add: DeepCopyObject_def WerfBundle_DeepCopyObject_def WerfBundleList_DeepCopyObject_def
      WerfBundle_DeepCopy_def WerfBundleList_DeepCopy_def unless_nil_def)

text \<open>The tree of a ConvergeConfig does not tell a nil \<open>valuesFrom\<close> from an empty one; the copy does.\<close>

lemma nil_sources_stay_nil:
  "fst (run_state (ConvergeConfig_DeepCopyInto x) s) = y \<Longrightarrow> mValuesFrom y = None \<longleftrightarrow> mValuesFrom x = None"
  by (auto simp: ConvergeConfig_DeepCopyInto_def unless_nil_def split: prod.splits option.splits)

text \<open>
  C17: \<open>DeepCopyObject\<close> of a bundle or a list of bundles gives an object with the same tree of
  values, writes to no cell that existed before, and shares nothing with the original: whatever
  is written to the old cells afterwards, the copy keeps its value, and whatever is written to
  the new ones, the original does.
\<close>

theorem deep_copies_are_independent:
  assumes "metav1_laws M ov oreach lv lreach" "fits s" "Object_view M ov lv s obj = Some v"
    "run_state (DeepCopyObject M obj) s = (c, s')"
  shows "\<exists>d. c = Some d \<and> grows s s' \<and> Object_view M ov lv s' d = Some v \<and> Object_view M ov lv s' obj = Some v \<and>
    (\<forall>t. (\<forall>a. lim s \<le> a \<longrightarrow> cells t a = cells s' a) \<longrightarrow> Object_view M ov lv t d = Some v) \<and>
    (\<forall>t. (\<forall>a < lim s. cells t a = cells s' a) \<longrightarrow> Object_view M ov lv t obj = Some v)"
proof (cases obj)
  case (BundleObject p)
  then obtain q where q: "run_state (WerfBundle_DeepCopy M p) s = (q, s')" "c = (if q \<noteq> None then Some (BundleObject q) else None)"
    using assms(4) by (auto simp: DeepCopyObject_def WerfBundle_DeepCopyObject_def split: prod.splits)
  obtain w where w: "v = Inl w" "view_ptr (view_box (BundleT M) (WerfBundle_view ov)) s p = Some (Some w)"
    using assms(3) unfolding BundleObject Object_view_bundle by blast
  have q': "view_ptr (view_box (BundleT M) (WerfBundle_view ov)) s' q = Some (Some w)"
    using deep_copy.copies [OF WerfBundle_DeepCopy_copy [OF assms(1)] assms(2) w(2) q(1)] by blast
  then have "c = Some (BundleObject q)" using q(2) view_ptr_not_nil [OF q'] by simp
  moreover have "Object_view M ov lv t (BundleObject r) = Some v \<longleftrightarrow>
      view_ptr (view_box (BundleT M) (WerfBundle_view ov)) t r = Some (Some w)" for t r
    unfolding Object_view_bundle using w(1) by blast
  note independent_as_objects [OF WerfBundle_DeepCopy_copy [OF assms(1)] assms(2) w(2) q(1), where K = BundleObject, OF this]
  ultimately show ?thesis unfolding BundleObject by blast
next
  case (ListObject p)
  then obtain q where q: "run_state (WerfBundleList_DeepCopy M p) s = (q, s')" "c = (if q \<noteq> None then Some (ListObject q) else None)"
    using assms(4) by (auto simp: DeepCopyObject_def WerfBundleList_DeepCopyObject_def split: prod.splits)
  obtain w where w: "v = Inr w" "view_ptr (view_box (BundleListT M) (WerfBundleList_view ov lv)) s p = Some (Some w)"
    using assms(3) unfolding ListObject Object_view_list by blast
  have q': "view_ptr (view_box (BundleListT M) (WerfBundleList_view ov lv)) s' q = Some (Some w)"
    using deep_copy.copies [OF WerfBundleList_DeepCopy_copy [OF assms(1)] assms(2) w(2) q(1)] by blast
  then have "c = Some (ListObject q)" using q(2) view_ptr_not_nil [OF q'] by simp
  moreover have "Object_view M ov lv t (ListObject r) = Some v \<longleftrightarrow>
      view_ptr (view_box (BundleListT M) (WerfBundleList_view ov lv)) t r = Some (Some w)" for t r
    unfolding Object_view_list using w(1) by blast
  note independent_as_objects [OF WerfBundleList_DeepCopy_copy [OF assms(1)] assms(2) w(2) q(1), where K = ListObject, OF this]
  ultimately show ?thesis unfolding ListObject by blast
qed

text \<open>A list of one bundle whose spec and status use every kind of pointer; the metadata of the
  library is a name here, and the time stamp is copied cell by cell.\<close>

definition demo_metav1 :: "(string, unit, unit) metav1" where
  "demo_metav1 = \<lparr>Time_DeepCopy = clone TimeT, ObjectMeta_DeepCopyInto = State_Monad.return,
     ListMeta_DeepCopyInto = State_Monad.return, zero_ObjectMeta = '''', zero_ListMeta = ()\<rparr>"

definition linked_bundle :: "string WerfBundleMem" where
  "linked_bundle = \<lparr>mTypeMeta = \<lparr>mKind = ''WerfBundle'', mAPIVersion = ''werf.io/v1alpha1''\<rparr>, mObjectMeta = ''app'',
     mSpec = \<lparr>mRegistry = zero_Registry\<lparr>mRegistrySecretRef := Some 2\<rparr>,
       mConverge = zero_Converge\<lparr>mResourceLimits := Some 3, mLogRetentionDays := Some 4,
         mValuesFrom := Some \<lparr>backing = 5, start = 1, count = 1\<rparr>\<rparr>\<rparr>,
     mStatus = zero_Status\<lparr>mLastSyncTime := Some 6\<rparr>\<rparr>"

definition linked_store :: "(string, unit, unit) cell store" where
  "linked_store = \<lparr>cells = [
     0 \<mapsto> BundleListCell \<lparr>mListTypeMeta = zero_TypeMeta, mListMeta = (), mItems = Some \<lparr>backing = 1, start = 0, count = 1\<rparr>\<rparr>,
     1 \<mapsto> BundlesCell [linked_bundle], 2 \<mapsto> RefCell ''registry'', 3 \<mapsto> LimitsCell zero_Limits, 4 \<mapsto> Int32Cell 7,
     5 \<mapsto> SourcesCell [zero_Source, zero_Source\<lparr>mConfigMapRef := Some 7\<rparr>],
     6 \<mapsto> TimeCell 1000, 7 \<mapsto> RefCell ''values''], lim = 8\<rparr>"

lemma demo_metav1_laws:
  "metav1_laws demo_metav1 (\<lambda>s x. Some x) (\<lambda>s x. {}) (\<lambda>s x. Some x) (\<lambda>s x. {})"
  by (simp add: metav1_laws_def demo_metav1_def clone_copy plain_copy)

lemma linked_fits: "fits linked_store"
  by (simp add: fits_def linked_store_def)

lemmas tree_defs = Object_view_def view_box_def contents_def WerfBundleList_view_def WerfBundleList_parts_def
  WerfBundle_view_def WerfBundle_parts_def WerfBundleSpec_view_def WerfBundleSpec_parts_def RegistryConfig_view_def
  ConvergeConfig_view_def ConvergeConfig_parts_def ValuesSource_view_def ValuesSource_parts_def
  WerfBundleStatus_view_def WerfBundleStatus_parts_def view_both_def view_ptr_def view_slice_def window_def

lemma linked_tree: "\<exists>t o' sp st. Object_view demo_metav1 (\<lambda>s x. Some x) (\<lambda>s x. Some x) linked_store (ListObject (Some 0)) =
    Some (Inr (zero_TypeMeta, (), Some [(t, o', sp, st)])) \<and>
    LogRetentionDays (Converge sp) = Some 7 \<and> map ConfigMapRef (ValuesFrom (Converge sp)) = [Some ''values''] \<and>
    LastSyncTime st = Some 1000"
  by (simp add: tree_defs linked_store_def linked_bundle_def zero_Registry_def zero_Converge_def zero_Status_def zero_Source_def)

lemma deep_copies_are_independent_witness:
  "\<exists>d s' t o' sp st. run_state (DeepCopyObject demo_metav1 (ListObject (Some 0))) linked_store = (Some d, s') \<and>
     Object_view demo_metav1 (\<lambda>s x. Some x) (\<lambda>s x. Some x) s' d =
       Some (Inr (zero_TypeMeta, (), Some [(t, o', sp, st)])) \<and> LogRetentionDays (Converge sp) = Some 7"
proof -
  obtain c s' where run: "run_state (DeepCopyObject demo_metav1 (ListObject (Some 0))) linked_store = (c, s')"
    by (meson surj_pair)
  obtain t o' sp st where v: "Object_view demo_metav1 (\<lambda>s x. Some x) (\<lambda>s x. Some x) linked_store (ListObject (Some 0)) =
      Some (Inr (zero_TypeMeta, (), Some [(t, o', sp, st)]))" "LogRetentionDays (Converge sp) = Some 7"
    using linked_tree by blast
  from deep_copies_are_independent [OF demo_metav1_laws linked_fits v(1) run] run v(2) show ?thesis by blast
qed

end
