(* ===== verification/Test_Values.thy ===== *)
theory Test_Values
  imports Val_Fetch Val_Flags "HOL-Library.Sublist"
begin

text \<open>
  \<open>internal/testing/values.go\<close>: the helpers with which the tests write a map of values into a
  ConfigMap or a Secret, and check the flags of a job. \<open>convertMapToYAML\<close> is the way back from
  dotted keys to nested maps, so it is proved against \<open>flattenValue\<close> and the parsing of a
  fetched object. \<open>yaml.Marshal\<close> is a parameter, as \<open>yaml.Unmarshal\<close> is.
\<close>

section \<open>Writing values\<close>

type_synonym entries = "(string \<times> YamlValue) list"

text \<open>The entries of the map that stands at a key; a leaf there is replaced by an empty map.\<close>

definition submap :: "entries \<Rightarrow> string \<Rightarrow> entries" where
  "submap res part = (case map_of res part of Some (YMap kvs) \<Rightarrow> kvs | _ \<Rightarrow> [])"

text \<open>
  The inner loop of \<open>unflatten\<close> for one key: \<open>curr\<close> moves down the parts of the key, and the
  last part gets the value. The maps that it changes in place are rebuilt here.
\<close>

fun set_path :: "string list \<Rightarrow> string \<Rightarrow> entries \<Rightarrow> entries" where
  "set_path [] v cur = cur"
| "set_path [part] v cur = AList.update part (YString v) cur"
| "set_path (part # p # parts) v cur =
     AList.update part (YMap (set_path (p # parts) v (submap cur part))) cur"

definition unflatten :: "gomap \<Rightarrow> entries" where
  "unflatten flat = fold (\<lambda>(k, v) res. set_path (Split k (CHR ''.'')) v res) flat []"

definition convertMapToYAML :: "(YamlValue \<Rightarrow> err + string) \<Rightarrow> gomap \<Rightarrow> err + string" where
  "convertMapToYAML marshal vals =
     (case marshal (YMap (unflatten vals)) of
        Inl e \<Rightarrow> Inl (WrapError ''failed to marshal values to YAML: '' e)
      | Inr data \<Rightarrow> Inr data)"

record Secret =
  SecretName :: string
  SecretNamespace :: string
  SecretData :: "(string \<times> 8 word list) list"

text \<open>\<open>[]byte(s)\<close>.\<close>

definition string_to_bytes :: "string \<Rightarrow> 8 word list" where
  "string_to_bytes s = map (\<lambda>c. word_of_nat (of_char c)) s"

text \<open>The object is created with the client's \<open>Create\<close>, the parameter \<open>create\<close>.\<close>

definition CreateTestConfigMapWithValues ::
  "(YamlValue \<Rightarrow> err + string) \<Rightarrow> (ConfigMap \<Rightarrow> ('k, err option) state) \<Rightarrow> string \<Rightarrow> string \<Rightarrow> gomap \<Rightarrow>
   ('k, err + ConfigMap) state"
where
  "CreateTestConfigMapWithValues marshal create ns name vals =
     (case convertMapToYAML marshal vals of
        Inl e \<Rightarrow> State_Monad.return (Inl (WrapError ''failed to convert values to YAML: '' e))
      | Inr yamlData \<Rightarrow>
          (let cm = \<lparr>CmName = name, CmNamespace = ns, CmData = [(''values.yaml'', yamlData)], CmOwner = None\<rparr> in do {
             e \<leftarrow> create cm;
             State_Monad.return (case e of
               Some e \<Rightarrow> Inl (WrapError ''failed to create ConfigMap: '' e)
             | None \<Rightarrow> Inr cm)
           }))"

definition CreateTestSecretWithValues ::
  "(YamlValue \<Rightarrow> err + string) \<Rightarrow> (Secret \<Rightarrow> ('k, err option) state) \<Rightarrow> string \<Rightarrow> string \<Rightarrow> gomap \<Rightarrow>
   ('k, err + Secret) state"
where
  "CreateTestSecretWithValues marshal create ns name vals =
     (case convertMapToYAML marshal vals of
        Inl e \<Rightarrow> State_Monad.return (Inl (WrapError ''failed to convert values to YAML: '' e))
      | Inr yamlData \<Rightarrow>
          (let secret = \<lparr>SecretName = name, SecretNamespace = ns,
                 SecretData = [(''values.yaml'', string_to_bytes yamlData)]\<rparr> in do {
             e \<leftarrow> create secret;
             State_Monad.return (case e of
               Some e \<Rightarrow> Inl (WrapError ''failed to create Secret: '' e)
             | None \<Rightarrow> Inr secret)
           }))"

section \<open>Checking flags\<close>

text \<open>\<open>ExtractSetFlags\<close> on a job: no flags without a job or a container.\<close>

definition job_flags :: "Job option \<Rightarrow> gomap" where
  "job_flags job = (case job of
     None \<Rightarrow> []
   | Some job \<Rightarrow> (case Containers job of [] \<Rightarrow> [] | c # cs \<Rightarrow> ExtractSetFlags (Args c) []))"

text \<open>The messages of one comparison, and what the assertions report with \<open>t.Errorf\<close>.\<close>

definition check_flag :: "gomap \<Rightarrow> string \<Rightarrow> string \<Rightarrow> string list" where
  "check_flag flags k expectedValue =
     (case map_of flags k of
        None \<Rightarrow> [''expected --set flag for key '' @ k @ '' not found in job args'']
      | Some actualValue \<Rightarrow>
          (if actualValue \<noteq> expectedValue
           then [''for --set flag '' @ k @ '': expected '' @ expectedValue @ '', got '' @ actualValue] else []))"

definition AssertJobHasSetFlag :: "Job option \<Rightarrow> string \<Rightarrow> string \<Rightarrow> string list" where
  "AssertJobHasSetFlag job k expectedValue = check_flag (job_flags job) k expectedValue"

definition AssertJobSetFlagsEqual :: "Job option \<Rightarrow> gomap \<Rightarrow> string list" where
  "AssertJobSetFlagsEqual job expectedFlags =
     (let flags = job_flags job in
      concat (map (\<lambda>(k, expectedValue). check_flag flags k expectedValue) expectedFlags) @
      concat (map (\<lambda>(k, v). if map_of expectedFlags k = None
        then [''unexpected --set flag '' @ k @ ''='' @ the (map_of flags k) @ '' in job args (not in expectedFlags)'']
        else []) flags))"
section \<open>Unflattening is undone by flattening\<close>

text \<open>The parts of a key can be set without replacing anything: no leaf is on the way or at its end.\<close>

fun fresh :: "string list \<Rightarrow> entries \<Rightarrow> bool" where
  "fresh [] cur = False"
| "fresh [part] cur = (map_of cur part = None)"
| "fresh (part # p # parts) cur =
     (case map_of cur part of None \<Rightarrow> True | Some (YMap kvs) \<Rightarrow> fresh (p # parts) kvs | _ \<Rightarrow> False)"

lemma fresh_Nil [simp]: "fresh ps [] \<longleftrightarrow> ps \<noteq> []"
  by (cases ps rule: remdups_adj.cases) auto

lemma fresh_submap: "fresh (part # p # parts) cur \<Longrightarrow> fresh (p # parts) (submap cur part)"
  by (auto simp: submap_def split: option.splits YamlValue.splits)

lemma mset_update_new: "map_of m k = None \<Longrightarrow> mset (AList.update k v m) = add_mset (k, v) (mset m)"
  by (induction m) (auto split: if_splits)

lemma mset_update_old:
  "map_of m k = Some u \<Longrightarrow> mset m = add_mset (k, u) (mset m - {#(k, u)#}) \<and>
   mset (AList.update k v m) = add_mset (k, v) (mset m - {#(k, u)#})"
proof (induction m)
  case (Cons kv m)
  obtain k' v' where kv: "kv = (k', v')" by (cases kv)
  show ?case
  proof (cases "k' = k")
    case False
    then have "(k, u) \<in># mset m" using Cons.prems kv by (auto dest: map_of_SomeD)
    then show ?thesis using Cons kv False by (auto simp: multi_member_split)
  qed (use Cons.prems kv in auto)
qed simp

text \<open>Setting a fresh path adds one leaf.\<close>

lemma set_path_leaves:
  "fresh ps cur \<Longrightarrow>
   mset (map_leaves pre (set_path ps v cur)) = add_mset (foldl map_prefix pre ps, v) (mset (map_leaves pre cur))"
proof (induction ps v cur arbitrary: pre rule: set_path.induct)
  case (2 part v cur)
  then show ?case by (simp add: mset_map_leaves mset_update_new)
next
  case (3 part p parts v cur)
  note IH = "3.IH" [OF fresh_submap [OF "3.prems"], of "map_prefix pre part"]
  show ?case
  proof (cases "map_of cur part")
    case None
    then show ?thesis using IH by (simp add: mset_map_leaves mset_update_new submap_def)
  next
    case (Some u)
    then obtain kvs where "u = YMap kvs" using "3.prems" by (cases u) auto
    note kvs = this
    have sub: "submap cur part = kvs" by (simp add: submap_def Some kvs)
    obtain M where M: "mset cur = add_mset (part, YMap kvs) M"
      "mset (AList.update part (YMap (set_path (p # parts) v kvs)) cur) = add_mset (part, YMap (set_path (p # parts) v kvs)) M"
      using mset_update_old [OF Some [unfolded kvs]] by blast
    show ?thesis using IH unfolding set_path.simps sub mset_map_leaves [of pre] M by simp
  qed
qed simp

lemma fresh_set_path:
  "fresh ps cur \<Longrightarrow> fresh qs cur \<Longrightarrow> \<not> prefix ps qs \<Longrightarrow> \<not> prefix qs ps \<Longrightarrow> fresh qs (set_path ps v cur)"
proof (induction ps v cur arbitrary: qs rule: set_path.induct)
  case (2 part v cur)
  then show ?case by (cases qs rule: remdups_adj.cases) (auto simp: update_conv')
next
  case (3 part p parts v cur)
  show ?case
  proof (cases "\<exists>q qs'. qs = part # q # qs'")
    case True
    then obtain q qs' where qs: "qs = part # q # qs'" by blast
    have "fresh (q # qs') (set_path (p # parts) v (submap cur part))"
      using "3.prems" qs by (intro "3.IH") (auto intro: fresh_submap simp del: fresh.simps)
    then show ?thesis by (simp add: qs update_conv')
  next
    case False
    then show ?thesis using "3.prems"
      by (cases qs rule: remdups_adj.cases) (auto simp: update_conv' simp del: set_path.simps(1,2))
  qed
qed simp

text \<open>Keys that fit into one tree: none starts with a dot or goes on from another one.\<close>

definition tree_keys :: "gomap \<Rightarrow> bool" where
  "tree_keys m \<longleftrightarrow> wf_map m \<and> (\<forall>k \<in> fst ` set m. take 1 k \<noteq> ''.'') \<and>
     (\<forall>k \<in> fst ` set m. \<forall>l \<in> fst ` set m. take (Suc (length k)) l \<noteq> k @ ''.'')"

lemma Join_append: "ps \<noteq> [] \<Longrightarrow> qs \<noteq> [] \<Longrightarrow> Join (ps @ qs) sep = Join ps sep @ sep @ Join qs sep"
proof (induction ps)
  case (Cons p ps)
  then show ?case by (cases "ps = []") (simp_all add: Join_Cons)
qed simp

lemma prefix_Split:
  assumes "prefix (Split k c) (Split l c)"
  shows "k = l \<or> take (Suc (length k)) l = k @ [c]"
proof -
  obtain zs where zs: "Split l c = Split k c @ zs" using assms by (auto simp: prefix_def)
  show ?thesis
  proof (cases "zs = []")
    case False
    then have "l = k @ [c] @ Join zs [c]" using Join_append [of "Split k c" zs "[c]"] Join_Split [of l c] zs
      by (simp add: Join_Split)
    then show ?thesis by simp
  qed (use zs in \<open>simp add: Split_inject\<close>)
qed

lemma foldl_map_prefix: "p \<noteq> '''' \<Longrightarrow> foldl map_prefix p ps = Join (p # ps) ''.''"
proof (induction ps arbitrary: p)
  case (Cons q ps)
  have "Join ((p @ ''.'' @ q) # ps) ''.'' = p @ ''.'' @ Join (q # ps) ''.''" by (cases "ps = []") (simp_all add: Join_Cons)
  with Cons show ?case by (simp add: map_prefix_def)
qed simp

lemma split_path: "take 1 k \<noteq> ''.'' \<Longrightarrow> foldl map_prefix '''' (Split k (CHR ''.'')) = k"
proof -
  assume k: "take 1 k \<noteq> ''.''"
  obtain p ps where ps: "Split k (CHR ''.'') = p # ps" by (cases "Split k (CHR ''.'')") auto
  have join: "Join (p # ps) ''.'' = k" using Join_Split [of k "CHR ''.''"] by (simp add: ps)
  show ?thesis
  proof (cases "p = ''''")
    case True
    then have "ps = []" using join k by (cases "ps = []") (auto simp: Join_Cons)
    then show ?thesis using join True by (simp add: ps map_prefix_def)
  next
    case False
    then show ?thesis using join by (simp add: ps map_prefix_def foldl_map_prefix)
  qed
qed

lemma unflatten_from:
  assumes "tree_keys flat" "\<forall>k \<in> fst ` set flat. fresh (Split k (CHR ''.'')) cur"
  shows "mset (map_leaves '''' (fold (\<lambda>(k, v) res. set_path (Split k (CHR ''.'')) v res) flat cur))
    = mset flat + mset (map_leaves '''' cur)"
  using assms
proof (induction flat arbitrary: cur)
  case (Cons kv flat)
  obtain k v where kv: "kv = (k, v)" by (cases kv)
  let ?cur = "set_path (Split k (CHR ''.'')) v cur"
  have fr: "fresh (Split k (CHR ''.'')) cur" using Cons.prems(2) kv by simp
  have "fresh (Split l (CHR ''.'')) ?cur" if "l \<in> fst ` set flat" for l
  proof (rule fresh_set_path [OF fr])
    show "fresh (Split l (CHR ''.'')) cur" using Cons.prems(2) that by auto
    have "k \<noteq> l" using Cons.prems(1) kv that by (auto simp: tree_keys_def wf_map_Cons)
    then show "\<not> prefix (Split k (CHR ''.'')) (Split l (CHR ''.''))" "\<not> prefix (Split l (CHR ''.'')) (Split k (CHR ''.''))"
      using Cons.prems(1) kv that unfolding tree_keys_def by (fastforce dest: prefix_Split)+
  qed
  moreover have "tree_keys flat" "take 1 k \<noteq> ''.''" using Cons.prems(1) kv by (auto simp: tree_keys_def wf_map_Cons)
  ultimately show ?case using Cons.IH [of ?cur] set_path_leaves [OF fr, of "''''" v] by (simp add: kv split_path)
qed simp

lemma unflatten_leaves: "tree_keys flat \<Longrightarrow> mset (leaves '''' (YMap (unflatten flat))) = mset flat"
  using unflatten_from [of flat "[]"] by (simp add: unflatten_def)

lemma flatten_unflatten:
  assumes "tree_keys flat" "reordered (YMap (unflatten flat)) v"
  shows "map_of (flattenValue '''' v []) = map_of flat"
proof -
  have wf: "wf_map flat" using assms(1) by (simp add: tree_keys_def)
  note mset = unflatten_leaves [OF assms(1)]
  have leaves: "wf_map (leaves '''' (YMap (unflatten flat)))" by (rule wf_map_mset [OF mset [symmetric] wf])
  then have "map_of (flattenValue '''' v []) = map_of (flattenValue '''' (YMap (unflatten flat)) [])"
    by (intro flattenValue_reordered [OF assms(2), symmetric]) (simp add: collision_free_def)
  also have "\<dots> = map_of (leaves '''' (YMap (unflatten flat)))"
    using leaves by (simp add: flatten_eq_leaves put_all_lookup_distinct)
  also have "\<dots> = map_of flat" by (rule wf_map_perm_lookup [OF leaves wf mset_eq_setD [OF mset]])
  finally show ?thesis .
qed
text \<open>Keys that do not fit into one tree: which of them is kept depends on the order of iteration.\<close>

lemma unflatten_conflict:
  "flattenValue '''' (YMap (unflatten [(''a'', ''1''), (''a.b'', ''2'')])) [] = [(''a.b'', ''2'')]"
  "flattenValue '''' (YMap (unflatten [(''a.b'', ''2''), (''a'', ''1'')])) [] = [(''a'', ''1'')]"
  by (simp_all add: unflatten_def submap_def map_prefix_def put_def)

section \<open>Reading the objects back\<close>

text \<open>
  Documented behaviour of \<open>yaml.Marshal\<close> and \<open>yaml.Unmarshal\<close>, for one value: the text is not
  empty and is read as the same value, whose maps may be visited in another order.
\<close>

definition yaml_keeps :: "(YamlValue \<Rightarrow> err + string) \<Rightarrow> (string \<Rightarrow> err + YamlValue) \<Rightarrow> YamlValue \<Rightarrow> bool" where
  "yaml_keeps marshal unmarshal v \<longleftrightarrow>
     (\<exists>y w. marshal v = Inr y \<and> y \<noteq> '''' \<and> unmarshal y = Inr w \<and> reordered v w)"

lemma bytes_of_string [simp]: "bytes_to_string (string_to_bytes s) = s"
  by (induction s) (simp_all add: bytes_to_string_def string_to_bytes_def unat_of_nat)

lemma created_config_map:
  "run_state (CreateTestConfigMapWithValues marshal create ns name vals) s = (Inr cm, s') \<Longrightarrow>
   \<exists>y. convertMapToYAML marshal vals = Inr y \<and> cm = \<lparr>CmName = name, CmNamespace = ns, CmData = [(''values.yaml'', y)], CmOwner = None\<rparr>"
  by (auto simp: CreateTestConfigMapWithValues_def Let_def split: sum.splits prod.splits option.splits)

lemma created_secret:
  "run_state (CreateTestSecretWithValues marshal create ns name vals) s = (Inr secret, s') \<Longrightarrow>
   \<exists>y. convertMapToYAML marshal vals = Inr y \<and>
     secret = \<lparr>SecretName = name, SecretNamespace = ns, SecretData = [(''values.yaml'', string_to_bytes y)]\<rparr>"
  by (auto simp: CreateTestSecretWithValues_def Let_def split: sum.splits prod.splits option.splits)

lemma converted_is_parsed:
  assumes "tree_keys vals" "yaml_keeps marshal unmarshal (YMap (unflatten vals))" "convertMapToYAML marshal vals = Inr y"
  shows "\<exists>m. parseAndMergeConfigMapData unmarshal [(k, y)] = Inr m \<and> map_of m = map_of vals"
proof -
  obtain w where w: "y \<noteq> ''''" "unmarshal y = Inr w" "reordered (YMap (unflatten vals)) w"
    using assms(2,3) by (auto simp: yaml_keeps_def convertMapToYAML_def)
  let ?m = "flattenValue '''' w []"
  have "parseAndMergeConfigMapData unmarshal [(k, y)] = Inr (mergeMaps [?m])"
    using w by (simp add: parseAndMergeConfigMapData_def parseYAML_def)
  moreover have "map_of (mergeMaps [?m]) = map_of ?m" by (simp add: mergeMaps_lookup flattenValue_wf merge_spec_def)
  ultimately show ?thesis using flatten_unflatten [OF assms(1) w(3)] by simp
qed

section \<open>The assertions\<close>

lemma job_flags_wf: "wf_map (job_flags job)"
proof -
  have "wf_map r \<Longrightarrow> wf_map (ExtractSetFlags args r)" for args r
    by (induction args r rule: ExtractSetFlags.induct) (auto split: list.splits)
  then show ?thesis by (simp add: job_flags_def split: option.splits list.splits)
qed

lemma check_flag_silent: "check_flag flags k v = [] \<longleftrightarrow> map_of flags k = Some v"
  by (auto simp: check_flag_def split: option.splits)

lemma AssertJobHasSetFlag_silent:
  "AssertJobHasSetFlag job k v = [] \<longleftrightarrow> map_of (job_flags job) k = Some v"
  by (simp add: AssertJobHasSetFlag_def check_flag_silent)

text \<open>The comparison of all flags is silent exactly for the expected map.\<close>

lemma AssertJobSetFlagsEqual_silent:
  assumes "wf_map expected"
  shows "AssertJobSetFlagsEqual job expected = [] \<longleftrightarrow> map_of (job_flags job) = map_of expected"
proof -
  let ?flags = "job_flags job"
  have "AssertJobSetFlagsEqual job expected = [] \<longleftrightarrow>
      (\<forall>(k, v) \<in> set expected. map_of ?flags k = Some v) \<and> (\<forall>(k, v) \<in> set ?flags. map_of expected k \<noteq> None)"
    by (auto simp: AssertJobSetFlagsEqual_def Let_def check_flag_silent split: if_splits)
  also have "(\<forall>(k, v) \<in> set expected. map_of ?flags k = Some v) \<longleftrightarrow> map_of expected \<subseteq>\<^sub>m map_of ?flags"
    using assms by (auto simp: map_le_def wf_map_def dom_def map_of_eq_Some_iff)
  also have "(\<forall>(k, v) \<in> set ?flags. map_of expected k \<noteq> None) \<longleftrightarrow> dom (map_of ?flags) \<subseteq> dom (map_of expected)"
    by (force simp: dom_map_of_conv_image_fst map_of_eq_None_iff)
  also have "map_of expected \<subseteq>\<^sub>m map_of ?flags \<and> dom (map_of ?flags) \<subseteq> dom (map_of expected) \<longleftrightarrow>
      map_of ?flags = map_of expected"
    by (auto simp: map_le_def subset_iff intro: map_le_antisym)
  finally show ?thesis .
qed

section \<open>Properties\<close>



end
