(* ===== verification/Test_Rbac.thy ===== *)
theory Test_Rbac
  imports Op_Prelude Go_Errors
begin

text \<open>
  \<open>internal/testing/rbac.go\<close>: the helpers that set up a namespace with a ServiceAccount, a Role
  and a RoleBinding for the tests, and remove what they created when a later step fails. The
  client's \<open>Create\<close> and \<open>Delete\<close> are parameters; a trace keeps the calls and their answers.
\<close>

section \<open>Objects and client\<close>

record PolicyRule =
  APIGroups :: "string list"
  Resources :: "string list"
  Verbs :: "string list"

record RoleRef =
  RefAPIGroup :: string
  RefKind :: string
  RefName :: string

record Subject =
  SubjectKind :: string
  SubjectName :: string
  SubjectNamespace :: string

datatype rbac_object =
    Namespace_object string
  | ServiceAccount_object string string
  | Role_object string string "PolicyRule list"
  | RoleBinding_object string string RoleRef "Subject list"

datatype client_event =
    CreateCalled rbac_object "err option"
  | DeleteCalled rbac_object "err option"

record 'k Client =
  Create :: "rbac_object \<Rightarrow> 'k \<Rightarrow> err option \<times> 'k"
  Delete :: "rbac_object \<Rightarrow> 'k \<Rightarrow> err option \<times> 'k"

type_synonym 'k testing = "'k \<times> client_event list"

definition client_create :: "'k Client \<Rightarrow> rbac_object \<Rightarrow> ('k testing, err option) state" where
  "client_create c x = State (\<lambda>(k, es). case Create c x k of (e, k') \<Rightarrow> (e, (k', es @ [CreateCalled x e])))"

definition client_delete :: "'k Client \<Rightarrow> rbac_object \<Rightarrow> ('k testing, err option) state" where
  "client_delete c x = State (\<lambda>(k, es). case Delete c x k of (e, k') \<Rightarrow> (e, (k', es @ [DeleteCalled x e])))"

lemma wp_client [wp_simps]:
  "wp (client_create c x) Q (k, es) = (case Create c x k of (e, k') \<Rightarrow> Q e (k', es @ [CreateCalled x e]))"
  "wp (client_delete c x) Q (k, es) = (case Delete c x k of (e, k') \<Rightarrow> Q e (k', es @ [DeleteCalled x e]))"
  by (simp_all add: client_create_def client_delete_def wp_def split: prod.splits)

section \<open>The helpers\<close>

definition create_or_error :: "'k Client \<Rightarrow> rbac_object \<Rightarrow> ('k testing, err + rbac_object) state" where
  "create_or_error c x = do {
     e \<leftarrow> client_create c x;
     State_Monad.return (case e of Some e \<Rightarrow> Inl e | None \<Rightarrow> Inr x)
   }"

definition CreateTestNamespace :: "'k Client \<Rightarrow> string \<Rightarrow> ('k testing, err + rbac_object) state" where
  "CreateTestNamespace c name = create_or_error c (Namespace_object name)"

definition CreateTestServiceAccount :: "'k Client \<Rightarrow> string \<Rightarrow> string \<Rightarrow> ('k testing, err + rbac_object) state" where
  "CreateTestServiceAccount c ns name = create_or_error c (ServiceAccount_object ns name)"

definition CreateTestRole ::
  "'k Client \<Rightarrow> string \<Rightarrow> string \<Rightarrow> PolicyRule list \<Rightarrow> ('k testing, err + rbac_object) state" where
  "CreateTestRole c ns name rules = create_or_error c (Role_object ns name rules)"

definition role_binding :: "string \<Rightarrow> string \<Rightarrow> string \<Rightarrow> rbac_object" where
  "role_binding ns roleName saName =
     RoleBinding_object ns (saName @ ''-'' @ roleName)
       \<lparr>RefAPIGroup = ''rbac.authorization.k8s.io'', RefKind = ''Role'', RefName = roleName\<rparr>
       [\<lparr>SubjectKind = ''ServiceAccount'', SubjectName = saName, SubjectNamespace = ns\<rparr>]"

definition CreateTestRoleBinding ::
  "'k Client \<Rightarrow> string \<Rightarrow> string \<Rightarrow> string \<Rightarrow> ('k testing, err + rbac_object) state" where
  "CreateTestRoleBinding c ns roleName saName = create_or_error c (role_binding ns roleName saName)"

text \<open>The fields \<open>role.Name\<close> and \<open>sa.Name\<close> of the created objects are the names that were asked for.\<close>

definition CreateNamespaceWithRBAC ::
  "'k Client \<Rightarrow> string \<Rightarrow> string \<Rightarrow> PolicyRule list \<Rightarrow> ('k testing, err + (rbac_object \<times> rbac_object)) state" where
  "CreateNamespaceWithRBAC c ns_name saName rules = do {
     r \<leftarrow> CreateTestNamespace c ns_name;
     case r of Inl e \<Rightarrow> State_Monad.return (Inl e) | Inr ns \<Rightarrow> do {
       r \<leftarrow> CreateTestServiceAccount c ns_name saName;
       case r of
         Inl e \<Rightarrow> do {
           d \<leftarrow> client_delete c ns;
           State_Monad.return (Inl e)
         }
       | Inr sa \<Rightarrow> do {
           r \<leftarrow> CreateTestRole c ns_name (saName @ ''-role'') rules;
           case r of
             Inl e \<Rightarrow> do {
               d \<leftarrow> client_delete c sa;
               d \<leftarrow> client_delete c ns;
               State_Monad.return (Inl e)
             }
           | Inr role \<Rightarrow> do {
               r \<leftarrow> CreateTestRoleBinding c ns_name (saName @ ''-role'') saName;
               case r of
                 Inl e \<Rightarrow> do {
                   d \<leftarrow> client_delete c role;
                   d \<leftarrow> client_delete c sa;
                   d \<leftarrow> client_delete c ns;
                   State_Monad.return (Inl e)
                 }
               | Inr rb \<Rightarrow> State_Monad.return (Inr (ns, sa))
             }
         }
     }
   }"

definition deploy_rules :: "PolicyRule list" where
  "deploy_rules = [
     \<lparr>APIGroups = [''apps''], Resources = [''deployments'', ''statefulsets'', ''daemonsets''],
       Verbs = [''get'', ''list'', ''watch'', ''create'', ''update'', ''patch'', ''delete'']\<rparr>,
     \<lparr>APIGroups = [''''], Resources = [''services'', ''configmaps'', ''secrets''],
       Verbs = [''get'', ''list'', ''watch'', ''create'', ''update'', ''patch'', ''delete'']\<rparr>,
     \<lparr>APIGroups = [''''], Resources = [''pods''], Verbs = [''get'', ''list'', ''watch'']\<rparr>]"

definition CreateNamespaceWithDeployPermissions ::
  "'k Client \<Rightarrow> string \<Rightarrow> string \<Rightarrow> ('k testing, err + (rbac_object \<times> rbac_object)) state" where
  "CreateNamespaceWithDeployPermissions c ns_name saName = CreateNamespaceWithRBAC c ns_name saName deploy_rules"

section \<open>A set-up is complete or taken back\<close>

text \<open>The objects of a set-up in the order of their creation.\<close>

definition setup_objects :: "string \<Rightarrow> string \<Rightarrow> PolicyRule list \<Rightarrow> rbac_object list" where
  "setup_objects ns saName rules = [Namespace_object ns, ServiceAccount_object ns saName,
     Role_object ns (saName @ ''-role'') rules, role_binding ns (saName @ ''-role'') saName]"

text \<open>
  Either every object was created, or the creation of the next one failed and those before it
  were deleted in the reverse order, whatever the deletions answered.
\<close>

fun deleted :: "client_event \<Rightarrow> rbac_object option" where
  "deleted (DeleteCalled x e) = Some x"
| "deleted (CreateCalled x e) = None"

definition all_or_undone :: "rbac_object list \<Rightarrow> err + 'a \<Rightarrow> client_event list \<Rightarrow> bool" where
  "all_or_undone objs r es \<longleftrightarrow> (case r of
     Inr a \<Rightarrow> es = map (\<lambda>x. CreateCalled x None) objs
   | Inl e \<Rightarrow> (\<exists>n < length objs.
       take (Suc n) es = map (\<lambda>x. CreateCalled x None) (take n objs) @ [CreateCalled (objs ! n) (Some e)] \<and>
       map deleted (drop (Suc n) es) = map Some (rev (take n objs))))"

lemma CreateNamespaceWithRBAC_all_or_undone:
  "wp (CreateNamespaceWithRBAC c ns saName rules) (\<lambda>r (k', es). all_or_undone (setup_objects ns saName rules) r es) (k, [])"
  unfolding CreateNamespaceWithRBAC_def CreateTestNamespace_def CreateTestServiceAccount_def CreateTestRole_def
    CreateTestRoleBinding_def create_or_error_def
  by (auto simp: wp_simps all_or_undone_def setup_objects_def Ex_less_Suc2 split: prod.splits option.splits sum.splits)

end
