(* ===== verification/Spec2Isabelle.thy ===== *)
theory Spec2Isabelle
  imports Mem_Cluster Ctl_Crd Ctl_Progress Ctl_Queue Op_Scheme Api_Deepcopy Test_Values Test_Rbac
begin

text \<open>
  A model of the WerfBundle operator: a Kubernetes controller that polls an OCI registry for
  the tags of a bundle and runs \<open>werf converge\<close> in a Job for a new tag.

  \<^bold>\<open>The program and its theories.\<close> The operator is one reconciler,
  \<open>controllers/werfbundle_controller.go\<close>, over five packages. Each theory names its source at
  its head; definitions keep the names of the code.

  \<^item> \<open>Op_Prelude\<close>: Go's return-or-panic as \<open>outcome\<close>, maps as association lists with
  \<open>put\<close> and \<open>wf_map\<close>, weakest preconditions \<open>wp\<close> of the state monad, ranges of signed words.
  \<open>Go_Text\<close>, \<open>Go_Float\<close>, \<open>Go_Time\<close>, \<open>Go_Errors\<close>: what the source uses of Go's standard
  library (\<open>strings\<close>, formatting of numbers, slicing, \<open>time.ParseDuration\<close>, wrapped errors).
  \<^item> \<open>Api_Types\<close>: spec and status (\<open>api/v1alpha1/werfbundle_types.go\<close>). \<open>Go_Store\<close> is Go's heap
  as typed cells, with pointers and slices, and \<open>Api_Deepcopy\<close> the generated deep copies
  (\<open>zz_generated.deepcopy.go\<close>) on it: a copy has the value of its original and shares nothing
  with it, which is why the other theories may take objects as values. \<open>Op_Scheme\<close> is the
  registration of the types (\<open>groupversion_info.go\<close>, the \<open>init\<close> functions).
  \<^item> \<open>Kube_Env\<close>: everything outside the repository as the record \<open>Env\<close>, one field for each
  call of the API server, the registry, the clock, the random source, the YAML parser and the
  helpers of apimachinery. It is an argument of every effectful definition. A program runs on
  a \<open>world\<close>, the state of that outside and a trace of the calls with their answers;
  \<open>emits m P\<close> says that, whatever is answered, result and calls of \<open>m\<close> satisfy \<open>P\<close>.
  \<^item> \<open>Val_Yaml\<close>, \<open>Val_Merge\<close>, \<open>Val_Flags\<close>, \<open>Val_Fetch\<close>, \<open>Val_Resolver\<close> (\<open>internal/values\<close>):
  flattening YAML, merging, \<open>--set\<close> flags, the two fetch functions and \<open>ResolveValues\<close>.
  \<^item> \<open>Reg_Backoff\<close>, \<open>Reg_Transport\<close>, \<open>Reg_Client\<close> (\<open>internal/registry\<close>): retry delays and
  jitter on 64-bit durations, the ETag round tripper, the OCI client.
  \<^item> \<open>Sa_Validator\<close> (\<open>internal/rbac\<close>), \<open>Job_Builder\<close> and \<open>Job_Logs\<close> (\<open>internal/converge\<close>): the
  ServiceAccount check, the name and the object of a Job, its logs.
  \<^item> \<open>Ctl_Status\<close>, \<open>Ctl_Registry\<close>, \<open>Ctl_Jobs\<close>, \<open>Ctl_Reconcile\<close>: the reconciler, in the order
  status writers, registry errors, jobs, the handler \<open>Reconcile\<close> itself. \<open>Ctl_Safety\<close> and
  \<open>Ctl_Crd\<close> hold what every run keeps, \<open>Ctl_Progress\<close> how far one run comes, with how many
  calls, \<open>Ctl_System\<close> what many runs keep that are interleaved with the steps of a cluster, \<open>Ctl_Runs\<close>
  where many runs lead, with a registry that answers every poll and with one that says "not
  modified", \<open>Ctl_Queue\<close> when the next run starts at all.
  \<^item> \<open>Op_Manager\<close>: the start of the operator (\<open>cmd/main.go\<close>) and \<open>SetupWithManager\<close>, over a
  record \<open>Runtime\<close> of the constructors of controller-runtime.
  \<^item> \<open>Test_Values\<close>, \<open>Test_Rbac\<close>: the helpers of \<open>internal/testing\<close>, which write values and read
  flags, and set up namespaces with accounts and roles. The first are the inverse of what
  \<open>Val_Yaml\<close> and \<open>Val_Flags\<close> model; of the second it is proved that a set-up is complete or
  taken back in reverse order.
  \<^item> \<open>Mem_Cluster\<close>: an in-memory cluster and registry on which concrete runs are computed. It
  shows that the named hypotheses can hold together; it models no code.

  \<^bold>\<open>Interfaces.\<close> \<open>two_namespace_fetch\<close> is what a fetch of an object promises, provided by
  \<open>fetchConfigMap\<close> and \<open>fetchSecret\<close>; \<open>values_resolver\<close> is the interface \<open>Resolver\<close>, provided
  by \<open>ResolveValues\<close> and used by \<open>Build\<close>; \<open>registry_client\<close> is the client interface, provided by
  \<open>ListTagsWithETag\<close>; \<open>status_writer\<close> is what the three status writers share; \<open>deep_copy\<close> is the contract of a
  copying function, kept by every function of the generated file.

  \<^bold>\<open>Specification and refinement.\<close> The relations \<open>monitoring\<close>, \<open>creation\<close>, \<open>handling\<close>,
  \<open>preflight\<close>, \<open>polling\<close> and \<open>reconciling\<close> list the cases of each handler: the calls it makes,
  their answers, the result. The code refines them (\<open>reconcile_keeps_protocol\<close>), and the
  safety, error and scheduling properties are consequences of the cases alone. A registry
  outage is a sequence of runs, each from the status that the one before saved (\<open>outage\<close>).

  \<^bold>\<open>Hypotheses.\<close> \<open>server_keeps\<close>: a get returns the object of its key, a successful update
  returns what was written, a status update leaves the rest of the object, and setting an owner
  changes nothing else. \<open>builder_laws\<close>: the event filter and the ownership rule of
  controller-runtime. \<open>reads_pure\<close>: reading an object changes nothing. \<open>not_found_laws\<close>:
  \<open>IsNotFound\<close> sees through wrapped errors, and errors of API server and parser are not this
  repository's own sentinel. \<open>rand_in_range\<close>: \<open>rand.Intn(n)\<close> is in its range. \<open>scheme_laws\<close>: a scheme
  knows the types that were registered, under their group and version. \<open>metav1_laws\<close>: the
  deep copies of apimachinery keep the contract \<open>deep_copy\<close>. \<open>finalizer_laws\<close>: a finalizer that
  was removed is not contained. \<open>yaml_keeps\<close>: a marshalled value is read back up to map order.

  \<^bold>\<open>Conventions.\<close> A Go map is a list of entries in the order in which a \<open>range\<close> loop visits
  it; properties that hold for every order say so. Strings are lists of bytes. Integers keep
  their width (\<open>int32\<close>, \<open>int64\<close>, \<open>duration\<close>). The loops of the source are bounded by their data;
  only the search for the shortest digits of a float has fuel, and \<open>Go_Float\<close> proves it enough.

  \<^bold>\<open>Not modelled.\<close> The parsing of the command line (zap adds flags of its own to it), logging,
  contexts and their deadlines, the loading of test fixtures from files
  (\<open>internal/values/testdata\<close>) and the scaffolding of the end-to-end tests (\<open>test/utils\<close>), which
  runs \<open>kubectl\<close> and \<open>kind\<close>. A deep copy writes
  into a location of its own, as every call in the repository does; copying an object into
  itself is outside the model. Two runs never overlap for one bundle: controller-runtime
  serialises them.

  \<^bold>\<open>Many runs.\<close> \<open>Ctl_System.reachable\<close> starts from a cluster without unfinished jobs of the
  bundle. A run's calls are answered from the state; between any two calls jobs may progress,
  finish or be removed. The client reads from a cache, so a run may also start from an old copy
  of the bundle (rule \<open>stale\<close>): the API server refuses its updates, and the claim that a job
  needs is one of them. What the model leaves out is a run on the current bundle with an old
  view of its jobs: one that takes a recorded job for removed creates another. Runs whose last
  status update fails after a job was created are excluded: such a job is named by no status
  (\<open>claimed_tag_is_declared_synced\<close>), and the invariant is lost with it. So is it when the target
  namespace of a bundle is changed.

  \<open>Ctl_Runs.one_run\<close> takes one run from the saved status to the next; a row of runs leaves open
  what happens in between to jobs, accounts and the spec. Three runs are the bound of
  \<open>three_runs_settle\<close>: record a failed job, create a new one, settle its tag.

  \<^bold>\<open>Requests.\<close> \<open>Ctl_Queue\<close> adds the queue of controller-runtime: a run starts from a waiting
  request, and its result (an error, a recovered panic, a positive delay) or a watched change
  puts the next one there. Order and delays of the requests are left open. Runs on an old copy
  of the bundle are not steps there, nor are writes of its status by others. A run that cannot
  report a missing ServiceAccount is excluded by \<open>reported\<close>: \<open>Reconcile\<close> drops that error, and
  nothing brings the bundle back.
\<close>

section \<open>One run of the controller\<close>

text \<open>
  C1: the code of \<open>Reconcile\<close> refines the protocol \<open>reconciling\<close>: whatever the API server,
  the registry and the clock answer, the calls of a run, their arguments and its result are
  those of one of the protocol's cases.
\<close>

theorem reconcile_keeps_protocol:
  assumes "server_keeps env" "run_state (Reconcile env req) w = (r, w')"
  shows "\<exists>es. trace w' = trace w @ es \<and> reconciling env req r es"
  by (rule emits_run [OF Reconcile_refinement [OF assms(1)] assms(2)])

lemma reconcile_keeps_protocol_witness:
  "\<exists>es. trace first_world = trace fresh_world @ es \<and>
     reconciling mem_env demo_key (Ret (duration_of (5 * second), None)) es"
  by (rule reconcile_keeps_protocol [OF mem_server_keeps first_run])

text \<open>
  C2: a run creates at most one job, and a created job is justified by the calls before it:
  the bundle was fetched, is not being deleted and passed the validations, the registry was
  polled with success, the job is the one that \<open>Build\<close> makes from this bundle for the last
  tag of the poll, and the bundle was saved as Syncing with that tag first.
\<close>

theorem jobs_are_justified:
  assumes "server_keeps env" "run_state (Reconcile env req) w = (r, w')"
    "trace w' = trace w @ pre @ EvCreateJob j a # post"
  shows "justified env req pre j \<and> filter is_create pre = [] \<and> filter is_create post = []"
proof -
  have "reconciling env req r (pre @ EvCreateJob j a # post)"
    using emits_run [OF Reconcile_refinement [OF assms(1)] assms(2)] assms(3) by auto
  from reconciling_safe [OF this] show ?thesis by (simp add: safe_creates_def)
qed

lemma jobs_are_justified_witness:
  "\<exists>pre j post. trace first_world = trace fresh_world @ pre @ EvCreateJob j None # post \<and>
     justified mem_env demo_key pre j \<and> filter is_create post = []"
proof -
  obtain pre j b where es: "trace first_world = pre @ [EvCreateJob j None, EvUpdateStatus b None]"
    using first_trace by blast
  then have "trace first_world = trace fresh_world @ pre @ EvCreateJob j None # [EvUpdateStatus b None]"
    by (simp add: fresh_world_def demo_cluster_def)
  with jobs_are_justified [OF mem_server_keeps first_run this] show ?thesis by blast
qed



text \<open>
  C4: a job is owned by its bundle. With the scheme that the start of the process fills, the
  job's only owner reference names the bundle that was fetched, by name and UID, as an object
  of kind WerfBundle of \<open>werf.io/v1alpha1\<close>; so the garbage collector removes the job with it.
\<close>

theorem jobs_are_owned_by_bundles:
  assumes "server_keeps env" "scheme_laws L" "main_init L = Ret s"
    "ObjectKinds env = (\<lambda>wb. KindsOf L s WerfBundlePrototype)"
    "run_state (Reconcile env req) w = (r, w')" "trace w' = trace w @ pre @ EvCreateJob j a # post"
  shows "\<exists>wb. EvGetBundle req (Inr wb) \<in> set pre \<and>
    OwnerReferences j = [\<lparr>APIVersion = ''werf.io/v1alpha1'', Kind = ''WerfBundle'', OwnerName = NName req,
      OwnerUID = UID wb, IsController = None\<rparr>]"
proof -
  have "reconciling env req r (pre @ EvCreateJob j a # post)"
    using emits_run [OF Reconcile_refinement [OF assms(1)] assms(5)] assms(6) by auto
  from reconciling_safe [OF this] have "justified env req pre j" by (simp add: safe_creates_def)
  then obtain wb tag args where "EvGetBundle req (Inr wb) \<in> set pre" "Name wb = NName req" "job_for env wb tag args j"
    unfolding justified_def built_def by auto
  with owner_with_main_scheme [OF assms(2-4)] show ?thesis by auto
qed

lemma jobs_are_owned_by_bundles_witness:
  "\<exists>j. EvCreateJob j None \<in> set (trace first_world) \<and> map Kind (OwnerReferences j) = [''WerfBundle''] \<and>
     map APIVersion (OwnerReferences j) = [''werf.io/v1alpha1'']"
proof -
  obtain pre j b where es: "trace first_world = pre @ [EvCreateJob j None, EvUpdateStatus b None]"
    using first_trace by blast
  then have split: "trace first_world = trace fresh_world @ pre @ EvCreateJob j None # [EvUpdateStatus b None]"
    by (simp add: fresh_world_def demo_cluster_def)
  from jobs_are_owned_by_bundles [OF mem_server_keeps mem_scheme_laws mem_main_init mem_object_kinds first_run split] es
  show ?thesis by (intro exI [of _ j]) auto
qed

text \<open>
  C11: every run returns, after at most ten calls and two for each values source of the bundle
  that it fetched, not counting the reads of pod logs: one for each pod of a finished job. A
  bundle that could not be fetched costs the one call.
\<close>

theorem runs_are_bounded:
  assumes "server_keeps env"
  shows "\<exists>r w' es x. run_state (Reconcile env req) w = (r, w') \<and> trace w' = trace w @ es \<and> hd es = EvGetBundle req x \<and>
    length (filter (\<lambda>ev. \<not> is_log_read ev) es) \<le>
      (case x of Inl e \<Rightarrow> 1 | Inr wb \<Rightarrow> 10 + 2 * length (ValuesFrom (Converge (Spec wb))))"
proof -
  obtain r w' where run: "run_state (Reconcile env req) w = (r, w')" by (meson surj_pair)
  from emits_run [OF Reconcile_calls [OF assms] run] run show ?thesis unfolding calls_def by blast
qed

lemma runs_are_bounded_witness:
  "length (filter (\<lambda>ev. \<not> is_log_read ev) (trace first_world)) \<le> 10"
proof -
  have "trace fresh_world = []" by (simp add: fresh_world_def demo_cluster_def)
  moreover obtain es where "trace first_world = EvGetBundle demo_key (Inr fresh_demo) # es"
    using first_calls by blast
  ultimately show ?thesis
    using runs_are_bounded [OF mem_server_keeps, of demo_key fresh_world] first_run
    by (auto simp: fresh_demo_def demo_bundle_def demo_spec_def)
qed



text \<open>
  C22: a bundle that is being deleted leads to no deployment: the run removes the operator's
  finalizer, if it is there, and does nothing else.
\<close>

theorem deletion_only_removes_finalizer:
  assumes "server_keeps env" "run_state (Reconcile env req) w = (r, w')"
    "trace w' = trace w @ EvGetBundle k (Inr wb) # es" "DeletionTimestamp wb \<noteq> None"
  shows "if ContainsFinalizer env (Finalizers wb) finalizerName
    then \<exists>x. r = Ret (0, left x) \<and>
      es = [EvUpdateBundle (wb\<lparr>Finalizers := RemoveFinalizer env (Finalizers wb) finalizerName\<rparr>) x]
    else r = Ret (0, None) \<and> es = []"
proof -
  have "reconciling env req r (EvGetBundle k (Inr wb) # es)"
    using emits_run [OF Reconcile_refinement [OF assms(1)] assms(2)] assms(3) by auto
  from reconciling_deleted [OF this _ assms(4), of k] show ?thesis by (auto split: if_splits)
qed

lemma deletion_only_removes_finalizer_witness:
  "\<exists>w' x. run_state (Reconcile mem_env demo_key) deleted_world = (Ret (0, left x), w') \<and>
     trace w' = trace deleted_world @ [EvGetBundle demo_key (Inr deleted_demo),
       EvUpdateBundle (deleted_demo\<lparr>Finalizers := []\<rparr>) x]"
proof -
  obtain r w' es where run: "run_state (Reconcile mem_env demo_key) deleted_world = (r, w')"
    "trace w' = trace deleted_world @ EvGetBundle demo_key (Inr deleted_demo) # es"
    using deleted_run by blast
  have "DeletionTimestamp deleted_demo \<noteq> None" by (simp add: deleted_demo_def)
  from deletion_only_removes_finalizer [OF mem_server_keeps run this] run show ?thesis
    by (simp add: deleted_demo_def mem_env_def)
qed

text \<open>
  C23: a bundle that targets another namespace without naming a ServiceAccount is never
  polled for nor deployed. Unless an API call fails before, it ends Failed with the reason
  in its status, and the run is not repeated.
\<close>

theorem forbidden_bundle_fails:
  assumes "server_keeps env" "run_state (Reconcile env req) w = (r, w')"
    "trace w' = trace w @ EvGetBundle k (Inr wb) # es" "DeletionTimestamp wb = None"
    "TargetNamespace (Converge (Spec wb)) \<notin> {'''', Namespace wb}" "ServiceAccountName (Converge (Spec wb)) = ''''"
  shows "filter is_create es = [] \<and> filter is_poll es = [] \<and> es \<noteq> [] \<and>
    ((\<exists>b x. last es = EvUpdateBundle b (Inl x) \<and> r = Ret (0, Some x)) \<or>
     (\<exists>b u. last es = EvUpdateStatus b u \<and> r = Ret (0, u) \<and> same_object wb b \<and>
        Phase (Status b) = PhaseFailed \<and> LastErrorMessage (Status b) =
          ''serviceAccountName is required for cross-namespace deployment from ''
          @ Namespace wb @ '' to '' @ TargetNamespace (Converge (Spec wb))))"
proof -
  have run: "reconciling env req r (EvGetBundle k (Inr wb) # es)"
    using emits_run [OF Reconcile_refinement [OF assms(1)] assms(2)] assms(3) by auto
  have invalid: "ValidateCrossNamespaceDeployment wb = Some (ErrorString
      (''serviceAccountName is required for cross-namespace deployment from ''
          @ Namespace wb @ '' to '' @ TargetNamespace (Converge (Spec wb))))"
    using assms(5,6) by (simp add: ValidateCrossNamespaceDeployment_def Let_def)
  from reconciling_forbidden [OF run _ assms(4) invalid, of k] show ?thesis by (cases es) auto
qed

lemma forbidden_bundle_fails_witness:
  "\<exists>r w' es. run_state (Reconcile mem_env demo_key) forbidden_world = (r, w') \<and>
     trace w' = trace forbidden_world @ EvGetBundle demo_key (Inr forbidden_demo) # es \<and>
     filter is_create es = [] \<and> filter is_poll es = [] \<and> es \<noteq> []"
proof -
  obtain r w' es where run: "run_state (Reconcile mem_env demo_key) forbidden_world = (r, w')"
    "trace w' = trace forbidden_world @ EvGetBundle demo_key (Inr forbidden_demo) # es"
    using forbidden_run by blast
  have "DeletionTimestamp forbidden_demo = None"
    "TargetNamespace (Converge (Spec forbidden_demo)) \<notin> {'''', Namespace forbidden_demo}"
    "ServiceAccountName (Converge (Spec forbidden_demo)) = ''''"
    by (simp_all add: forbidden_demo_def demo_bundle_def demo_spec_def)
  from forbidden_bundle_fails [OF mem_server_keeps run this] run show ?thesis by blast
qed

text \<open>
  C24: a run polls the registry at most once, at the bundle's URL, and only for a bundle that
  is not being deleted, may deploy to its target namespace, and whose ServiceAccount, when
  it names one, was found.
\<close>

theorem one_poll_after_validation:
  assumes "server_keeps env" "run_state (Reconcile env req) w = (r, w')" "trace w' = trace w @ es"
    "EvPoll url etag tags e \<in> set es"
  shows "filter is_poll es = [EvPoll url etag tags e] \<and>
    (\<exists>wb. hd es = EvGetBundle req (Inr wb) \<and> url = URL (Registry (Spec wb)) \<and>
       DeletionTimestamp wb = None \<and> validated wb es)"
proof -
  have "reconciling env req r es"
    using emits_run [OF Reconcile_refinement [OF assms(1)] assms(2)] assms(3) by auto
  moreover have mem: "EvPoll url etag tags e \<in> set (filter is_poll es)" using assms(4) by simp
  then have "filter is_poll es \<noteq> []" by (metis list.set(1) empty_iff)
  ultimately obtain wb url' etag' tags' e' where wb: "hd es = EvGetBundle req (Inr wb)"
    "filter is_poll es = [EvPoll url' etag' tags' e']" "url' = URL (Registry (Spec wb))"
    "DeletionTimestamp wb = None" "validated wb es"
    using reconciling_poll by blast
  with mem have "EvPoll url etag tags e = EvPoll url' etag' tags' e'" by (metis empty_set insert_iff empty_iff list.simps(15))
  with wb show ?thesis by auto
qed

lemma one_poll_after_validation_witness:
  "\<exists>es. trace first_world = trace fresh_world @ es \<and>
     filter is_poll es = [EvPoll ''ghcr.io/org/app'' '''' [''v1.0.0'', ''v1.1.0''] None]"
proof -
  obtain es where es: "trace first_world = trace fresh_world @ es"
    "EvPoll ''ghcr.io/org/app'' '''' [''v1.0.0'', ''v1.1.0''] None \<in> set es"
    using first_polls by (auto simp: fresh_world_def demo_cluster_def)
  from one_poll_after_validation [OF mem_server_keeps first_run this] es(1) show ?thesis by blast
qed

text \<open>
  C14: a run that returns an error asks for no delay, and the error is the answer of its last
  call: reading the bundle, writing it, or reading its job failed. No other failure (of the
  registry, of a values source, of building or creating a job, of the logs) is returned.
\<close>

theorem errors_come_from_the_last_call:
  assumes "server_keeps env" "run_state (Reconcile env req) w = (Ret (d, Some e), w')"
  shows "d = 0 \<and> (\<exists>es. trace w' = trace w @ es \<and> es \<noteq> [] \<and> failed_with e (last es))"
  using emits_run [OF Reconcile_refinement [OF assms(1)] assms(2)]
  by (auto dest!: reconciling_honest simp: honest_def)

definition refusing_env :: "cluster_state Env" where
  "refusing_env = mem_env\<lparr>UpdateBundle := (\<lambda>wb c. (Inl conflict, c))\<rparr>"

lemma refusing_server_keeps: "server_keeps refusing_env"
  using mem_server_keeps by (simp add: server_keeps_def refusing_env_def)

lemma errors_come_from_the_last_call_witness:
  "\<exists>w' es. run_state (Reconcile refusing_env demo_key) fresh_world = (Ret (0, Some conflict), w') \<and>
     trace w' = trace fresh_world @ es \<and> failed_with conflict (last es)"
proof -
  obtain w' where "run_state (Reconcile refusing_env demo_key) fresh_world = (Ret (0, Some conflict), w')"
    by (simp add: refusing_env_def fresh_world_def run_simps)
  with errors_come_from_the_last_call [OF refusing_server_keeps this] show ?thesis by blast
qed

text \<open>
  C13: a run panics for two reasons only. The poll interval is positive and below ten
  nanoseconds, or a job is to be built and the tag's FNV-1a hash has fewer than eight
  hexadecimal digits, or the bundle's resource limits do not parse.
\<close>

theorem panics_have_a_cause:
  assumes "server_keeps env" "run_state (Reconcile env req) w = (Panic msg, w')" "trace w' = trace w @ es"
  shows "\<exists>wb. hd es = EvGetBundle req (Inr wb) \<and>
    ((0 < sint (poll_interval env wb) \<and> sint (poll_interval env wb) < 10) \<or>
     (\<exists>url etag tags. EvPoll url etag tags None \<in> set es \<and> tags \<noteq> [] \<and>
        (unat (fnv32a (last tags)) < 2 ^ 28 \<or> bad_quantity env wb)))"
proof -
  have "reconciling env req (Panic msg) es"
    using emits_run [OF Reconcile_refinement [OF assms(1)] assms(2)] assms(3) by auto
  from reconciling_panic [OF this] show ?thesis by (simp add: panic_cause_def)
qed

lemma panics_have_a_cause_witness:
  "\<exists>msg es wb. fst (run_state (Reconcile mem_env demo_key) short_hash_world) = Panic msg \<and>
     trace crashed_world = trace short_hash_world @ es \<and> hd es = EvGetBundle demo_key (Inr wb)"
proof -
  obtain msg where run: "run_state (Reconcile mem_env demo_key) short_hash_world = (Panic msg, crashed_world)"
    using crashed_run by blast
  obtain es where "trace crashed_world = trace short_hash_world @ es"
    using emits_run [OF Reconcile_refinement [OF mem_server_keeps] run] by blast
  from panics_have_a_cause [OF mem_server_keeps run this] this run show ?thesis by fastforce
qed

section \<open>Retries\<close>



text \<open>
  C26: a registry error that is not "not modified" is counted, timed and saved in one status
  update. While the count is at most five the bundle is Syncing, its error message is
  cleared, the text of the error becomes its last applied tag, and the poll is repeated
  after the backoff; above five it is Failed with the error as its message.
\<close>

theorem registry_error_is_counted:
  assumes "server_keeps env" "\<not> errors_As_NotModified e"
  shows "emits (handleRegistryError env wb e i) (\<lambda>r es. \<exists>st upd.
    es = [EvUpdateStatus (wb\<lparr>Status := st\<rparr>) upd] \<and>
    (let failures = ConsecutiveFailures (Status wb) + 1 in
      ConsecutiveFailures st = failures \<and> LastErrorTime st \<noteq> None \<and>
      (if 5 < sint failures
       then Phase st = PhaseFailed \<and> LastAppliedTag st = LastAppliedTag (Status wb) \<and>
         LastErrorMessage st = ''Registry error after 5 retries: '' @ Error e \<and> r = Ret (0, upd)
       else Phase st = PhaseSyncing \<and> LastErrorMessage st = '''' \<and>
         LastAppliedTag st = ''Registry error (attempt '' @ dec_int (sint failures) @ ''/5): '' @ Error e \<and>
         r = (case upd of None \<Rightarrow> Ret (CalculateBackoff failures, None) | Some x \<Rightarrow> Ret (0, Some x)))))"
  by (rule emits_mono [OF handleRegistryError_emits [OF assms]]) (elim exE conjE, intro exI conjI, assumption,
      erule failure_stepD)

lemma registry_error_is_counted_witness:
  "emits (handleRegistryError mem_env outage_demo (NetworkError (ErrorString ''EOF'')) 0) (\<lambda>r es. \<exists>st upd.
    es = [EvUpdateStatus (outage_demo\<lparr>Status := st\<rparr>) upd] \<and> ConsecutiveFailures st = 1 \<and>
    LastAppliedTag st = ''Registry error (attempt 1/5): network error: EOF'')"
proof -
  have "\<not> errors_As_NotModified (NetworkError (ErrorString ''EOF''))" by (simp add: errors_As_NotModified_def)
  from registry_error_is_counted [OF mem_server_keeps this, of outage_demo 0] show ?thesis
    by (rule emits_mono)
      (auto simp: Let_def outage_demo_def demo_bundle_def zero_status_def dec_int_def dec_nat_def radix_small)
qed

text \<open>
  A "not modified", however deeply it is wrapped, is no failure: nothing is written, and
  the poll is repeated after the poll interval with jitter, at least the interval minus a
  tenth and less than the interval plus a tenth.
\<close>

lemma not_modified_is_no_failure:
  assumes "errors_As_NotModified e" "rand_in_range env" "10 \<le> sint i" "11 * sint i < 10 * 2 ^ 63"
    "run_state (handleRegistryError env wb (WrapError msg e) i) w = (r, w')"
  shows "trace w' = trace w \<and> (\<exists>d. r = Ret (d, None) \<and> sint i - sint i div 10 \<le> sint d \<and> sint d < sint i + sint i div 10)"
proof -
  have wrapped: "errors_As_NotModified (WrapError msg e)" using assms(1) by (auto simp: errors_As_NotModified_def)
  then have run: "run_state (requeue_jittered env i) w = (r, w')" using assms(5) by (simp add: handleRegistryError_def)
  have "wp (requeue_jittered env i) (\<lambda>r w'. \<exists>d. r = Ret (d, None) \<and> sint i - sint i div 10 \<le> sint d \<and> sint d < sint i + sint i div 10) w"
    unfolding requeue_jittered_def result_defs
    by (rule wp_weaken_bind [OF AddJitter_range [OF assms(2-4)]]) (auto simp: wp_simps)
  from wp_run [OF this run] emits_run [OF requeue_jittered_emits run] show ?thesis by auto
qed

lemma not_modified_is_no_failure_witness:
  "\<exists>d. fst (run_state (handleRegistryError mem_env outage_demo (WrapError ''Get url: '' NotModifiedError) (duration_of (15 * minute)))
     fresh_world) = Ret (d, None) \<and> 810 * second \<le> sint d \<and> sint d < 990 * second"
proof -
  have "errors_As_NotModified NotModifiedError" by (simp add: errors_As_NotModified_def)
  from not_modified_is_no_failure [OF this mem_rand_in_range _ _ surjective_pairing, of "duration_of (15 * minute)" outage_demo
      "''Get url: ''" fresh_world] show ?thesis by simp
qed

text \<open>
  The poll interval of a bundle is read from its spec with Go's duration syntax: a
  number with one unit gives that many nanoseconds as long as they fit in 63 bits, and
  without a setting the interval is fifteen minutes.
\<close>

lemma poll_interval_is_parsed:
  assumes "u \<in> set [''ns'', ''us'', ''ms'', ''s'', ''m'', ''h'']" "unit_nanos u = Some unit" "int n * unit < 2 ^ 63"
    "PollInterval (Registry (Spec wb)) \<in> {dec_nat n @ u, ''''}"
  shows "poll_interval env wb = (if PollInterval (Registry (Spec wb)) = '''' then duration_of (15 * minute)
      else word_of_int (int n * unit))"
  using ParseDuration_number [OF assms(1) [folded duration_units_def] assms(2,3)] dec_nat_nonempty [of n] assms(4)
  by (auto simp: poll_interval_def defaultPollInterval_def Let_def)

lemma demo_poll_interval: "poll_interval mem_env outage_demo = duration_of (10 * minute)"
proof -
  have "PollInterval (Registry (Spec outage_demo)) \<in> {dec_nat 10 @ ''m'', ''''}"
    by (simp add: outage_demo_def demo_bundle_def demo_spec_def dec_nat_def radix_step radix_small)
  from poll_interval_is_parsed [OF _ _ _ this, of minute] show ?thesis
    by (simp add: unit_nanos_def outage_demo_def demo_bundle_def demo_spec_def)
qed

text \<open>
  C27: the statuses that a run writes are those the CRD admits: a known phase, a known job
  status and zero to six failures, if the fetched bundle had such a status and fewer than
  six failures. (From six failures on, one more is outside the bound.)
\<close>

theorem status_updates_are_well_typed:
  assumes "server_keeps env" "run_state (Reconcile env req) w = (r, w')"
    "trace w' = trace w @ EvGetBundle k (Inr wb) # es" "ContainsFinalizer env (Finalizers wb) finalizerName"
    "crd_status (Status wb)" "sint (ConsecutiveFailures (Status wb)) < 6" "EvUpdateStatus b u \<in> set es"
  shows "Phase (Status b) \<in> {'''', PhaseSyncing, PhaseSynced, PhaseFailed} \<and>
    LastJobStatus (Status b) \<in> {'''', JobStatusSucceeded, JobStatusFailed, JobStatusRunning} \<and>
    0 \<le> sint (ConsecutiveFailures (Status b)) \<and> sint (ConsecutiveFailures (Status b)) \<le> 6"
proof -
  have run: "reconciling env req r (EvGetBundle k (Inr wb) # es)"
    using emits_run [OF Reconcile_refinement [OF assms(1)] assms(2)] assms(3) by auto
  have "k = req" using reconciling_fetch [OF run] by auto
  with reconciling_crd [OF run _ assms(4-6)] assms(7) have "crd_status (Status b)"
    by (auto simp: list_all_iff dest!: bspec)
  then show ?thesis by (simp add: crd_status_def phase_defs job_status_defs)
qed

lemma status_updates_are_well_typed_witness:
  "\<exists>w'. run_state (Reconcile mem_env demo_key) outage_world = (Ret (duration_of (60 * second), None), w') \<and>
     EvUpdateStatus (outage_demo\<lparr>Status := outage_status\<rparr>) None \<in> set (trace w') \<and>
     Phase outage_status \<in> {'''', PhaseSyncing, PhaseSynced, PhaseFailed} \<and> sint (ConsecutiveFailures outage_status) \<le> 6"
proof -
  obtain w' es where run: "run_state (Reconcile mem_env demo_key) outage_world = (Ret (duration_of (60 * second), None), w')"
    "trace w' = trace outage_world @ EvGetBundle demo_key (Inr outage_demo) # es"
    and up: "EvUpdateStatus (outage_demo\<lparr>Status := outage_status\<rparr>) None \<in> set es"
    using outage_first_run by fastforce
  have "ContainsFinalizer mem_env (Finalizers outage_demo) finalizerName" "crd_status (Status outage_demo)"
    "sint (ConsecutiveFailures (Status outage_demo)) < 6"
    by (simp_all add: outage_demo_def demo_bundle_def zero_status_def crd_status_def)
  from status_updates_are_well_typed [OF mem_server_keeps run this up] run up show ?thesis by auto
qed

section \<open>Many runs\<close>



text \<open>
  C8: three runs bring a bundle to Synced. Over any runs in a row whose polls end with one tag,
  with whatever the cluster does in between, three that are not hindered are enough: no status
  update is refused, and the recorded job can be read and has ended. It need not have
  succeeded, and a job that cannot be built or a run that panics counts like any other.
\<close>

theorem three_runs_settle:
  assumes "server_keeps env" "tag \<noteq> ''''" "unhindered_runs env req tag st0 n st" "3 \<le> n"
  shows "Phase st = PhaseSynced \<and> LastAppliedTag st = tag"
  using unhindered_runs_distance [OF assms(1-3)] distance_bound [of tag st0] assms(4) distance_0 [of tag st] by simp

lemma three_runs_settle_witness:
  "unhindered_runs mem_env demo_key ''v1.1.0'' (Status recorded_demo) 3 (Status synced_demo) \<and>
   Phase (Status recorded_demo) = PhaseSyncing \<and> Phase (Status synced_demo) = PhaseSynced"
  using three_runs_settle [OF mem_server_keeps _ demo_unhindered_runs] demo_unhindered_runs
  by (simp add: numeral_3_eq_3 recorded_demo_def)

text \<open>
  C9: with a registry that answers a known ETag with 304 the same bundle never becomes Synced.
  Once a run created and recorded a job, no number of polling runs changes its saved status, as
  long as the tags stay the same: it is Syncing and names its job as running for good, whether
  that job succeeded, failed or is gone.
\<close>

theorem unchanged_tags_never_settle:
  assumes "server_keeps env" "unchanged_registry env current tags" "run_state (Reconcile env req) w = (r, w')"
    "trace w' = trace w @ pre @ [EvCreateJob j None, EvUpdateStatus b None]"
    "EvPoll url etag tags' None \<in> set pre" "last tags' \<noteq> ''''" "polling_runs env req (Status b) n st"
  shows "Phase st = PhaseSyncing \<and> ActiveJobName st = JobName j \<and> LastJobStatus st = JobStatusRunning \<and>
    LastAppliedTag st = last tags"
proof -
  have "reconciling env req r (pre @ [EvCreateJob j None, EvUpdateStatus b None])"
    using emits_run [OF Reconcile_refinement [OF assms(1)] assms(3)] assms(4) by auto
  from reconciling_created_saved [OF this assms(5,6)] obtain wb where
    saved: "ActiveJobName (Status b) = JobName j" "LastJobStatus (Status b) = JobStatusRunning"
      "Phase (Status b) = PhaseSyncing" "LastAppliedTag (Status b) = last tags'"
    and answer: "poll_answer env wb tags' (LastETag (Status b)) None" by blast
  from unchanged_answer [OF assms(2) answer] have now: "tags' = tags" "LastETag (Status b) = current"
    by (auto split: if_splits)
  then have "unchanged_registry env (LastETag (Status b)) tags" using assms(2) by simp
  from polling_runs_not_modified [OF assms(1) this assms(7)] saved now(1) show ?thesis by auto
qed

lemma unchanged_tags_never_settle_witness:
  "\<exists>st. polling_runs still_env demo_key (Status recorded_demo) 2 st \<and> Phase st = PhaseSyncing \<and>
     ActiveJobName st = ''app-4b926c5f-abababab''"
proof -
  obtain r w' pre j where first: "run_state (Reconcile still_env demo_key) fresh_world = (r, w')"
    "trace w' = trace fresh_world @ pre @ [EvCreateJob j None, EvUpdateStatus recorded_demo None]"
    "EvPoll ''ghcr.io/org/app'' '''' [''v1.0.0'', ''v1.1.0''] None \<in> set pre" "JobName j = ''app-4b926c5f-abababab''"
    using still_first_run by (elim exE conjE) (rule that)
  have runs: "polling_runs still_env demo_key (Status recorded_demo) 2 (Status recorded_demo)"
    using still_runs by (simp add: numeral_2_eq_2)
  from unchanged_tags_never_settle [OF still_server_keeps still_registry first(1-3) _ runs] runs first(4)
  show ?thesis by (intro exI [of _ "Status recorded_demo"]) simp
qed

section \<open>Jobs\<close>

text \<open>
  The recorded job is looked at only when the poll succeeded and its last tag differs
  from the bundle's last applied tag. A poll answered with "not modified", with an error,
  without tags or with the applied tag leaves a running or finished job unobserved.
\<close>

lemma job_is_checked_for_new_tags_only:
  assumes "server_keeps env" "run_state (Reconcile env req) w = (r, w')"
    "trace w' = trace w @ EvGetBundle k (Inr wb) # es"
    "ContainsFinalizer env (Finalizers wb) finalizerName" "EvGetJob jk answer \<in> set es"
  shows "\<exists>url etag tags. EvPoll url etag tags None \<in> set es \<and> tags \<noteq> [] \<and> LastAppliedTag (Status wb) \<noteq> last tags"
proof -
  have run: "reconciling env req r (EvGetBundle k (Inr wb) # es)"
    using emits_run [OF Reconcile_refinement [OF assms(1)] assms(2)] assms(3) by auto
  have "k = req" using reconciling_fetch [OF run] by auto
  with reconciling_looks_at_job [OF run _ _ assms(4), of jk answer] assms(5) show ?thesis by auto
qed

lemma job_is_checked_for_new_tags_only_witness:
  "\<exists>url etag tags. EvPoll url etag tags None \<in> set (trace (snd (run_state (Reconcile mem_env demo_key) busy_world))) \<and>
     LastAppliedTag (Status busy_demo) \<noteq> last tags"
proof -
  have "trace busy_world = []" by (simp add: busy_world_def with_jobs_def demo_cluster_def)
  moreover have "ContainsFinalizer mem_env (Finalizers busy_demo) finalizerName" by (simp add: busy_demo_def)
  ultimately show ?thesis
    using job_is_checked_for_new_tags_only [OF mem_server_keeps busy_run, of demo_key busy_demo
      "[EvGetServiceAccount (key ''deployer'' ''prod'') None,
      EvPoll ''ghcr.io/org/app'' '''' [''v1.0.0'', ''v1.1.0''] None, EvGetJob (key ''app-job'' ''prod'') (Inr demo_job)]"
      "key ''app-job'' ''prod''" "Inr demo_job"] by (auto simp: busy_run)
qed

text \<open>
  C28: a job is taken for granted. When a run created and recorded a job, every later run from
  that status whose poll has the same last tag declares the bundle Synced without a look at
  the job, which the status still names and calls running, and asks for no further run.
\<close>

theorem new_job_is_settled_unseen:
  assumes "server_keeps env" "run_state (Reconcile env req) w = (r, w')"
    "trace w' = trace w @ pre @ [EvCreateJob j None, EvUpdateStatus b None]"
    "EvPoll url etag tags None \<in> set pre" "last tags \<noteq> ''''"
    "run_state (Reconcile env req) v = (r', v')" "trace v' = trace v @ EvGetBundle k (Inr wb) # es"
    "Status wb = Status b" "ContainsFinalizer env (Finalizers wb) finalizerName"
    "EvPoll url' etag' tags' None \<in> set es" "tags' \<noteq> []" "last tags' = last tags"
  shows "(\<forall>jk x. EvGetJob jk x \<notin> set es) \<and> (\<exists>b' u. last es = EvUpdateStatus b' u \<and> r' = Ret (0, u) \<and>
    Phase (Status b') = PhaseSynced \<and> LastAppliedTag (Status b') = last tags \<and>
    ActiveJobName (Status b') = JobName j \<and> LastJobStatus (Status b') = JobStatusRunning)"
proof -
  have "reconciling env req r (pre @ [EvCreateJob j None, EvUpdateStatus b None])"
    using emits_run [OF Reconcile_refinement [OF assms(1)] assms(2)] assms(3) by auto
  from reconciling_created_saved [OF this assms(4,5)]
  have saved: "ActiveJobName (Status b) = JobName j" "LastJobStatus (Status b) = JobStatusRunning"
    "Phase (Status b) = PhaseSyncing" "LastAppliedTag (Status b) = last tags" by auto
  have "reconciling env req r' (EvGetBundle k (Inr wb) # es)"
    using emits_run [OF Reconcile_refinement [OF assms(1)] assms(6)] assms(7) by auto
  from reconciling_applied [OF this assms(9-11)] saved assms(8,12) show ?thesis by (simp add: phase_defs)
qed

lemma new_job_is_settled_unseen_witness:
  "\<exists>w' b. run_state (Reconcile mem_env demo_key) second_world = (Ret (0, None), w') \<and>
     Phase (Status b) = PhaseSynced \<and> ActiveJobName (Status b) = ''app-4b926c5f-abababab'' \<and>
     LastJobStatus (Status b) = JobStatusRunning \<and> last (trace w') = EvUpdateStatus b None"
proof -
  obtain pre j where first: "trace first_world = pre @ [EvCreateJob j None, EvUpdateStatus recorded_demo None]"
    "EvPoll ''ghcr.io/org/app'' '''' [''v1.0.0'', ''v1.1.0''] None \<in> set pre" "JobName j = ''app-4b926c5f-abababab''"
    using first_recorded by blast
  then have split: "trace first_world = trace fresh_world @ pre @ [EvCreateJob j None, EvUpdateStatus recorded_demo None]"
    by (simp add: fresh_world_def demo_cluster_def)
  obtain w' where second: "run_state (Reconcile mem_env demo_key) second_world = (Ret (0, None), w')"
    "trace w' = trace second_world @ EvGetBundle demo_key (Inr recorded_demo) # [EvGetServiceAccount (key ''deployer'' ''prod'') None,
      EvPoll ''ghcr.io/org/app'' ''e1'' [''v1.0.0'', ''v1.1.0''] None, EvUpdateStatus synced_demo None]"
    using second_run by blast
  have fin: "ContainsFinalizer mem_env (Finalizers recorded_demo) finalizerName" by (simp add: recorded_demo_def)
  from new_job_is_settled_unseen [OF mem_server_keeps first_run split first(2) _ second refl fin, of "''ghcr.io/org/app''"
      "''e1''" "[''v1.0.0'', ''v1.1.0'']"] first(3) second
  show ?thesis by (intro exI [of _ w'] exI [of _ synced_demo]) auto
qed

text \<open>
  C29: a tag that the status calls applied is settled. When the poll of a run ends with it, no
  job is looked at or created, and whatever the phase was, Failed included, the bundle is
  declared Synced and no further run is asked for; its job and the job's status stay as saved.
\<close>

theorem applied_tag_is_settled:
  assumes "server_keeps env" "run_state (Reconcile env req) w = (r, w')"
    "trace w' = trace w @ EvGetBundle k (Inr wb) # es" "ContainsFinalizer env (Finalizers wb) finalizerName"
    "EvPoll url etag tags None \<in> set es" "tags \<noteq> []" "LastAppliedTag (Status wb) = last tags"
  shows "(\<forall>j a. EvCreateJob j a \<notin> set es) \<and> (\<forall>jk x. EvGetJob jk x \<notin> set es) \<and>
    (if Phase (Status wb) = PhaseSynced then r = Ret (0, None) \<and> last es = EvPoll url etag tags None
     else \<exists>b u. last es = EvUpdateStatus b u \<and> r = Ret (0, u) \<and> Phase (Status b) = PhaseSynced \<and>
       LastAppliedTag (Status b) = last tags \<and> ActiveJobName (Status b) = ActiveJobName (Status wb) \<and>
       LastJobStatus (Status b) = LastJobStatus (Status wb))"
proof -
  have "reconciling env req r (EvGetBundle k (Inr wb) # es)"
    using emits_run [OF Reconcile_refinement [OF assms(1)] assms(2)] assms(3) by auto
  from reconciling_applied [OF this assms(4-7)] show ?thesis by (auto simp: filter_empty_conv)
qed

lemma applied_tag_is_settled_witness:
  "\<exists>w' b. run_state (Reconcile mem_env demo_key) failed_world = (Ret (0, None), w') \<and>
     Phase (Status failed_demo) = PhaseFailed \<and> last (trace w') = EvUpdateStatus b None \<and> Phase (Status b) = PhaseSynced"
proof -
  obtain w' b where run: "run_state (Reconcile mem_env demo_key) failed_world = (Ret (0, None), w')"
    "trace w' = trace failed_world @ EvGetBundle demo_key (Inr failed_demo) # [EvGetServiceAccount (key ''deployer'' ''prod'') None,
      EvPoll ''ghcr.io/org/app'' ''e1'' [''v1.0.0'', ''v1.1.0''] None, EvUpdateStatus b None]"
    using failed_run by blast
  have "ContainsFinalizer mem_env (Finalizers failed_demo) finalizerName" "LastAppliedTag (Status failed_demo) = ''v1.1.0''"
    and failed: "Phase (Status failed_demo) = PhaseFailed" by (simp_all add: failed_demo_def recorded_demo_def)
  with applied_tag_is_settled [OF mem_server_keeps run, of "''ghcr.io/org/app''" "''e1''" "[''v1.0.0'', ''v1.1.0'']"] run
  show ?thesis by (intro exI [of _ w'] exI [of _ b]) (auto simp: phase_defs)
qed



text \<open>
  C30: for a tag whose FNV-1a hash has fewer than eight hexadecimal digits no job can be
  created. The bundle is saved as Syncing with the tag as its applied tag, and then, if that
  update succeeded, the run panics.
\<close>

theorem short_hash_panics_after_claiming:
  assumes "server_keeps env" "unat (fnv32a tag) < 2 ^ 28"
  shows "emits (create_converge_job env wb tag) (\<lambda>r es. filter is_create es = [] \<and>
    (\<exists>b u rest. es = EvUpdateStatus b u # rest \<and> claimed wb tag b \<and>
      (case u of Some e \<Rightarrow> r = Ret (0, Some e) | None \<Rightarrow> \<exists>msg. r = Panic msg)))"
  by (rule emits_mono [OF creation_refinement [OF assms(1)]])
    (use creation_short_hash [OF _ assms(2)] reads_no_create in fastforce)

lemma short_hash_panics_after_claiming_witness:
  "emits (create_converge_job mem_env fresh_demo ''v1.4.4'') (\<lambda>r es. filter is_create es = [])"
proof -
  have "unat (fnv32a ''v1.4.4'') < 2 ^ 28" by (simp add: hash_v144)
  from short_hash_panics_after_claiming [OF mem_server_keeps this] show ?thesis
    by (rule emits_mono) blast
qed

text \<open>
  A tag that was claimed ends as deployed, whatever became of its job. If the run that
  claimed it panics, or fails to record the job that it created, the saved status makes the
  next successful poll with that tag declare the bundle Synced, naming the same job as before.
\<close>

lemma claimed_tag_is_declared_synced:
  assumes "server_keeps env" "run_state (create_converge_job env wb tag) w = (r, w')"
    "trace w' = trace w @ EvUpdateStatus b None # es" "tag \<noteq> ''''" "tags \<noteq> []" "last tags = tag"
  shows "emits (handle_tags env b tags i) (\<lambda>r es. \<exists>st u. es = [EvUpdateStatus (b\<lparr>Status := st\<rparr>) u] \<and>
    r = Ret (0, u) \<and> Phase st = PhaseSynced \<and> ActiveJobName st = ActiveJobName (Status wb))"
proof -
  have "creation env wb tag r (EvUpdateStatus b None # es)"
    using emits_run [OF creation_refinement [OF assms(1)] assms(2)] assms(3) by auto
  from creation_claims [OF this] have st: "LastAppliedTag (Status b) = last tags" "Phase (Status b) \<noteq> PhaseSynced"
    "ActiveJobName (Status b) = ActiveJobName (Status wb)"
    using assms(4,6) by (auto simp: claimed_def written_def status_frame_def phase_defs)
  from applied_tag_settles [OF assms(1,5) st(1,2), of i] show ?thesis
    by (rule emits_mono) (auto simp: st(3))
qed

lemma claimed_tag_is_declared_synced_witness:
  "\<exists>msg w' b es. run_state (create_converge_job mem_env fresh_demo ''v1.4.4'') short_hash_world = (Panic msg, w') \<and>
     trace w' = trace short_hash_world @ EvUpdateStatus b None # es \<and> emits (handle_tags mem_env b [''v1.4.4''] 0)
     (\<lambda>r es. \<exists>st u. es = [EvUpdateStatus (b\<lparr>Status := st\<rparr>) u] \<and> Phase st = PhaseSynced)"
proof -
  obtain msg w' b es where run: "run_state (create_converge_job mem_env fresh_demo ''v1.4.4'') short_hash_world = (Panic msg, w')"
    "trace w' = trace short_hash_world @ EvUpdateStatus b None # es"
    using short_create_run by blast
  from claimed_tag_is_declared_synced [OF mem_server_keeps this, of "[''v1.4.4'']" 0] run show ?thesis
    by (intro exI [of _ msg] exI [of _ w'] exI [of _ b] exI [of _ es]) (auto elim!: emits_mono)
qed





text \<open>
  C32: no log is lost when storing succeeds. Logs of at most five KiB are the text for the
  status; longer logs are in full under the key \<open>output\<close> of the ConfigMap that the text
  names, in the bundle's namespace, which was created or updated. Storing short logs never
  fails and calls nothing.
\<close>

theorem stored_logs_are_complete:
  assumes "server_keeps env"
  shows "emits (storeJobLogs env wb name logs) (\<lambda>r es.
    if length logs \<le> 5120 then r = Inr logs \<and> es = []
    else (\<exists>e. r = Inl e) \<or> r = Inr (''See ConfigMap '' @ name @ ''-logs for full logs'') \<and>
      (\<exists>cm. CmName cm = name @ ''-logs'' \<and> CmNamespace cm = Namespace wb \<and> CmData cm = [(''output'', logs)] \<and>
         (EvCreateConfigMap cm None \<in> set es \<or> EvUpdateConfigMap cm None \<in> set es)))"
  by (rule emits_mono [OF storeJobLogs_emits [OF assms]])
    (auto simp: logs_saved_def log_configmap_def log_reference_def split: sum.splits)

lemma stored_logs_are_complete_witness:
  "emits (storeJobLogs mem_env busy_demo ''app-job'' (replicate 5121 (CHR ''x''))) (\<lambda>r es. (\<exists>e. r = Inl e) \<or>
     (\<exists>cm. CmName cm = ''app-job-logs'' \<and>
        (EvCreateConfigMap cm None \<in> set es \<or> EvUpdateConfigMap cm None \<in> set es)))"
  by (rule emits_mono [OF stored_logs_are_complete [OF mem_server_keeps]]) auto

text \<open>
  C31: neither the progress of a job that a run created nor a change of its bundle's status
  starts a run. The controller watches jobs, but the reference that \<open>Build\<close> gives a job is
  not that of a controller, and updates without a new generation are filtered out. Only the
  requeue of the creating run leads to another look at the job.
\<close>

theorem job_progress_starts_no_run:
  assumes "server_keeps env" "builder_laws ws" "run_state (SetupWithManager rt (Some c)) (k, []) = (e, (k', bs))"
    "CompleteCalled reg x \<in> set bs" "run_state (Reconcile env req) w = (r, w')"
    "trace w' = trace w @ pre @ EvCreateJob j a # post" "OwnerReferences j' = OwnerReferences j"
  shows "JobRequests ws reg ch j' = [] \<and> BundleRequests ws reg (Updated g g) nk = []"
proof -
  have "reconciling env req r (pre @ EvCreateJob j a # post)"
    using emits_run [OF Reconcile_refinement [OF assms(1)] assms(5)] assms(6) by auto
  from reconciling_safe [OF this] have "justified env req pre j" by (simp add: safe_creates_def)
  then have "\<forall>ref \<in> set (OwnerReferences j'). IsController ref \<noteq> Some True"
    using built_not_controlled assms(7) by (fastforce simp: justified_def)
  moreover have "WithEventFilter reg = [GenerationChangedPredicate]"
    using assms(3,4) by (auto simp: SetupWithManager_def boot_call_def Let_def split: prod.splits)
  ultimately show ?thesis using assms(2) by (simp add: builder_laws_def)
qed

lemma job_progress_starts_no_run_witness:
  "\<exists>reg j. EvCreateJob j None \<in> set (trace first_world) \<and> JobRequests mem_watches reg (Updated 1 1) (j\<lparr>Succeeded := 1\<rparr>) = []"
proof -
  obtain reg where reg: "run_state (SetupWithManager mem_runtime (Some ())) ((), []) = (None, ((), [CompleteCalled reg None]))"
    using mem_setup by blast
  obtain pre j b where es: "trace first_world = pre @ [EvCreateJob j None, EvUpdateStatus b None]"
    using first_trace by blast
  then have split: "trace first_world = trace fresh_world @ pre @ EvCreateJob j None # [EvUpdateStatus b None]"
    by (simp add: fresh_world_def demo_cluster_def)
  have "CompleteCalled reg None \<in> set [CompleteCalled reg None]" by simp
  from job_progress_starts_no_run [OF mem_server_keeps mem_builder_laws reg this first_run split, of "j\<lparr>Succeeded := 1\<rparr>"]
  have "JobRequests mem_watches reg (Updated 1 1) (j\<lparr>Succeeded := 1\<rparr>) = []" by simp
  then show ?thesis by (intro exI [of _ reg] exI [of _ j]) (simp add: es)
qed



section \<open>The start of the operator\<close>

text \<open>
  C40: the operator starts in a fixed order and stops at the first failure with exit code 1:
  the manager, the clientset, the controller with that clientset, the two probes, and only
  then the manager is started. The manager gets the options of the command line: unless
  HTTP/2 was enabled its servers speak HTTP/1.1 only, and metrics that are served securely
  are authenticated.
\<close>

theorem start_is_ordered:
  assumes "run_state (main rt flags) (k, []) = (code, (k', es))"
  shows "map boot_step es = [0..<length es] \<and> (\<forall>ev \<in> set (butlast es). accepted ev) \<and>
    code = (if accepted (last es) then 0 else 1) \<and> (accepted (last es) \<longrightarrow> length es = 6) \<and>
    (\<forall>reg e. CompleteCalled reg e \<in> set es \<longrightarrow> NewForConfigCalled (Inr (CompletedClientset reg)) \<in> set es) \<and>
    (\<forall>opts e. NewManagerCalled opts e \<in> set es \<longrightarrow>
       (\<forall>server \<in> {Metrics opts, Webhook opts}. \<forall>c. NextProtos (fold (\<lambda>f c. f c) (TLSOpts server) c)
          = (if enableHTTP2 flags then NextProtos c else [''http/1.1''])) \<and>
       (Authenticated (Metrics opts) \<longleftrightarrow> secureMetrics flags) \<and> SecureServing (Metrics opts) = secureMetrics flags)"
proof -
  have "boot_log flags code es" using wp_run [OF main_log assms] by simp
  then show ?thesis
    unfolding boot_log_def by (auto simp: manager_options_simps tls_options_protocols simp del: fold_simps)
qed

lemma start_is_ordered_witness:
  "\<exists>es. run_state (main mem_runtime default_flags) ((), []) = (0, ((), es)) \<and> map boot_step es = [0..<6]"
proof -
  obtain es where es: "run_state (main mem_runtime default_flags) ((), []) = (0, ((), es))" "length es = 6"
    using mem_start by blast
  from start_is_ordered [OF es(1)] es show ?thesis by auto
qed

section \<open>Values\<close>

text \<open>
  C15: resolving the values sources of a bundle reads the objects they name, first in the
  bundle's namespace and, if it is not there, in the target namespace, skips optional
  sources that are absent, fails on every other failure, and merges the rest so that later
  sources win. It changes nothing.
\<close>

theorem values_resolve_to_spec:
  assumes "reads_pure env" "not_found_laws env" "run_state (ResolveValues env ss b t) w = (r, w')"
  shows "cluster w' = cluster w \<and>
    (case sources_spec env (cluster w) b t ss of
       None \<Rightarrow> \<exists>e. r = Inl e
     | Some ms \<Rightarrow> \<exists>vals. r = Inr vals \<and> wf_map vals \<and> map_of vals = merge_spec (map map_of ms))"
  using ResolveValues_spec [OF assms(1,2), of ss b t w] assms(3)
    emits_run [OF resolver_impl.resolved_wf assms(3)]
  by (auto simp: resolve_spec_def split: sum.splits option.splits)

lemma values_resolve_to_spec_witness:
  "\<exists>vals. fst (run_state (ResolveValues mem_env values_demo ''team'' ''prod'') values_world) = Inr vals \<and>
     map_of vals = [''value'' \<mapsto> ''hi'']"
  using values_resolve_to_spec [OF mem_reads_pure mem_not_found_laws surjective_pairing, of values_demo "''team''" "''prod''" values_world]
  by (auto simp: values_spec merge_spec_def)

text \<open>
  C16: the arguments of the container are the command, the image reference of the tag, and
  one flag per resolved value in the order of their keys: a function of the objects in the
  cluster that no iteration order of Go's maps changes. If resolving fails there are none.
\<close>

theorem container_args_are_exact:
  assumes "reads_pure env" "not_found_laws env" "ValuesFrom (Converge (Spec wb)) \<noteq> []"
    "run_state (build_args (controller_builder env wb) wb tag) w = (r, w')"
  shows "case sources_spec env (cluster w) (Namespace wb) (target_of wb) (ValuesFrom (Converge (Spec wb))) of
      None \<Rightarrow> \<exists>e. r = Inl e
    | Some ms \<Rightarrow> let vals = merge_spec (map map_of ms) in
        r = Inr ([''converge'', ''--log-color=false'', URL (Registry (Spec wb)) @ '':'' @ tag]
          @ concat (map (\<lambda>k. [''--set'', k @ ''='' @ escapeValue (the (vals k))]) (sorted_list_of_set (dom vals))))"
  using wp_run [OF build_args_exact [OF assms(1,2,3)] assms(4)]
  by (auto simp: resolve_spec_def flags_of_def target_of_def Let_def split: option.splits)

lemma container_args_are_exact_witness:
  "fst (run_state (build_args (controller_builder mem_env values_bundle) values_bundle ''v1.1.0'') values_world)
   = Inr [''converge'', ''--log-color=false'', ''ghcr.io/org/app:v1.1.0'', ''--set'', ''value=hi'']"
proof -
  have "ValuesFrom (Converge (Spec values_bundle)) \<noteq> []" by (simp add: values_bundle_simps values_demo_def)
  moreover have "escapeValue ''hi'' = ''hi''" by code_simp
  ultimately show ?thesis
    using container_args_are_exact [OF mem_reads_pure mem_not_found_laws _ surjective_pairing, of values_bundle "''v1.1.0''" values_world]
    by (simp add: values_bundle_simps values_spec merge_spec_def)
qed

end
